(* ===== verification/Prelude.thy ===== *)
theory Prelude
  imports Main "HOL-Library.Word"
begin

text \<open>
  Shared vocabulary of the development: the C++ integer types of the node
  (\<open>int\<close> as a 32-bit word, \<open>int64_t\<close> as a 64-bit word), the driver's reader
  handle, the character-level helpers the node relies on from the C++ standard
  library (\<open>std::to_string\<close>, reading a NUL-terminated \<open>char*\<close>), and the
  generic lemmas about them that the component theories share.  The inverse
  functions (decimal parsing, splitting a message at spaces) are not part of the
  program: they are the reading a consumer of the published messages applies,
  and serve to state round-trip theorems.
\<close>

named_theorems node_simps "unfolding rules for the node's operations"

type_synonym cint = "32 word"
type_synonym int64 = "64 word"
type_synonym handle = nat

abbreviation NUL :: char where
  "NUL \<equiv> CHR 0x00"

abbreviation SP :: char where
  "SP \<equiv> CHR '' ''"

subsection \<open>Exceptions\<close>

text \<open>The exceptions the node can raise or suffer: rclcpp's
  \<open>InvalidParameterTypeException\<close> (a parameter override of the wrong type),
  \<open>std::runtime_error\<close> with its message (thrown by the constructor),
  \<open>std::invalid_argument\<close> (rclcpp's timer factory given a negative period),
  \<open>std::length_error\<close> (a \<open>std::vector\<close> constructed with a negative
  \<open>int\<close> size, converted to a huge \<open>size_t\<close>), and undefined behaviour (an
  out-of-bounds or unterminated read), modelled as an error value so that a
  theorem cannot silently assume it away.\<close>

datatype node_error =
    InvalidParameterType string
  | RuntimeError string
  | InvalidArgument string
  | LengthError
  | UndefinedBehaviour

text \<open>Sequencing of throwing computations: an exception skips the rest.\<close>

definition sbind :: "'e + 'a \<Rightarrow> ('a \<Rightarrow> 'e + 'b) \<Rightarrow> 'e + 'b" where
  "sbind m f = (case m of Inl e \<Rightarrow> Inl e | Inr a \<Rightarrow> f a)"

lemma sbind_simps [simp]:
  "sbind (Inl e) f = Inl e"
  "sbind (Inr a) f = f a"
  by (simp_all add: sbind_def)

lemma sbind_Inr_iff: "sbind m f = Inr b \<longleftrightarrow> (\<exists>a. m = Inr a \<and> f a = Inr b)"
  by (cases m) simp_all

text \<open>A computation on an object that may throw: the exception comes with the
  object's state at the throw, which is what stack unwinding (and the
  destructor it may run) sees.\<close>

type_synonym ('e, 's) throws = "('e \<times> 's) + 's"

definition tbind :: "('e, 's) throws \<Rightarrow> ('s \<Rightarrow> ('e, 's) throws) \<Rightarrow> ('e, 's) throws" where
  "tbind m f = (case m of Inl es \<Rightarrow> Inl es | Inr s \<Rightarrow> f s)"

lemma tbind_simps [simp]:
  "tbind (Inl es) f = Inl es"
  "tbind (Inr s) f = f s"
  by (simp_all add: tbind_def)

subsection \<open>Decimal printing (\<open>std::to_string\<close>)\<close>

definition digit_char :: "nat \<Rightarrow> char" where
  "digit_char d = ''0123456789'' ! d"

fun dec_nat :: "nat \<Rightarrow> string" where
  "dec_nat n = (if n < 10 then [digit_char n] else dec_nat (n div 10) @ [digit_char (n mod 10)])"

declare dec_nat.simps [simp del]

text \<open>\<open>std::to_string(int)\<close>: a minus sign for negative values, then the decimal
  digits of the magnitude, most significant first, no leading zeros.\<close>

definition std_to_string :: "int \<Rightarrow> string" where
  "std_to_string i = (if i < 0 then CHR ''-'' # dec_nat (nat (- i)) else dec_nat (nat i))"

subsection \<open>Decimal parsing (the consumer's reading)\<close>

definition is_digit :: "char \<Rightarrow> bool" where
  "is_digit c \<longleftrightarrow> 48 \<le> (of_char c :: nat) \<and> (of_char c :: nat) \<le> 57"

definition digit_val :: "char \<Rightarrow> nat" where
  "digit_val c = of_char c - 48"

definition parse_nat_str :: "string \<Rightarrow> nat option" where
  "parse_nat_str ds =
     (if ds \<noteq> [] \<and> list_all is_digit ds
      then Some (foldl (\<lambda>a c. 10 * a + digit_val c) 0 ds) else None)"

definition parse_int_str :: "string \<Rightarrow> int option" where
  "parse_int_str s =
     (case s of
        [] \<Rightarrow> None
      | c # ds \<Rightarrow> (if c = CHR ''-'' then map_option (\<lambda>n. - int n) (parse_nat_str ds)
                   else map_option int (parse_nat_str s)))"

subsection \<open>C strings\<close>

text \<open>Reading a \<open>char*\<close> into a \<open>std::string\<close> copies up to the first NUL.
  A buffer without a NUL is read past its end: undefined behaviour, \<open>None\<close>.\<close>

definition c_string :: "char list \<Rightarrow> string option" where
  "c_string buf = (if NUL \<in> set buf then Some (takeWhile (\<lambda>c. c \<noteq> NUL) buf) else None)"

subsection \<open>Splitting at spaces (the consumer's tokenisation)\<close>

fun split_sp :: "string \<Rightarrow> string list" where
  "split_sp [] = [[]]"
| "split_sp (c # cs) =
     (let r = split_sp cs in if c = SP then [] # r else (c # hd r) # tl r)"

subsection \<open>Lemmas\<close>

lemma digit_val_digit_char [simp]: "d < 10 \<Longrightarrow> digit_val (digit_char d) = d"
  by (auto simp: digit_val_def digit_char_def less_Suc_eq numeral_eq_Suc)

lemma is_digit_digit_char [simp]: "d < 10 \<Longrightarrow> is_digit (digit_char d)"
  by (auto simp: is_digit_def digit_char_def less_Suc_eq numeral_eq_Suc)

lemma digit_char_not_minus [simp]: "d < 10 \<Longrightarrow> digit_char d \<noteq> CHR ''-''"
proof
  assume "d < 10" and "digit_char d = CHR ''-''"
  then have "is_digit (CHR ''-'')" by (metis is_digit_digit_char)
  then show False by (simp add: is_digit_def)
qed

lemma dec_nat_digits: "dec_nat n \<noteq> [] \<and> list_all is_digit (dec_nat n)"
proof (induction n rule: dec_nat.induct)
  case (1 n)
  then show ?case by (simp add: dec_nat.simps [of n])
qed

lemma dec_nat_value: "foldl (\<lambda>a c. 10 * a + digit_val c) 0 (dec_nat n) = n"
proof (induction n rule: dec_nat.induct)
  case (1 n)
  show ?case
  proof (cases "n < 10")
    case True
    then show ?thesis by (simp add: dec_nat.simps [of n])
  next
    case False
    with "1.IH" show ?thesis by (simp add: dec_nat.simps [of n])
  qed
qed

lemma parse_nat_dec_nat [simp]: "parse_nat_str (dec_nat n) = Some n"
  using dec_nat_digits [of n] by (simp add: parse_nat_str_def dec_nat_value)

lemma dec_nat_hd_not_minus [simp]: "hd (dec_nat n) \<noteq> CHR ''-''"
proof
  assume h: "hd (dec_nat n) = CHR ''-''"
  have "is_digit (hd (dec_nat n))"
    using dec_nat_digits [of n] by (cases "dec_nat n") auto
  with h show False by (simp add: is_digit_def)
qed

lemma dec_nat_no_space [simp]: "SP \<notin> set (dec_nat n)"
proof
  assume "SP \<in> set (dec_nat n)"
  then have "is_digit SP" using dec_nat_digits [of n] by (simp add: list_all_iff)
  then show False by (simp add: is_digit_def)
qed

lemma std_to_string_no_space [simp]: "SP \<notin> set (std_to_string i)"
  by (simp add: std_to_string_def)

lemma std_to_string_nonempty [simp]: "std_to_string i \<noteq> []"
  using dec_nat_digits by (simp add: std_to_string_def)

lemma split_sp_nonempty [simp]: "split_sp cs \<noteq> []"
  by (induction cs) (simp_all add: Let_def)

lemma split_sp_no_space: "SP \<notin> set xs \<Longrightarrow> split_sp xs = [xs]"
  by (induction xs) (auto simp: Let_def)

lemma split_sp_append_space:
  "SP \<notin> set xs \<Longrightarrow> split_sp (xs @ SP # ys) = xs # split_sp ys"
  by (induction xs) (auto simp: Let_def)

text \<open>Space-free words joined by single spaces split back into the same words.\<close>

lemma split_sp_join:
  assumes "SP \<notin> set xs" and "\<forall>e \<in> set es. SP \<notin> set e"
  shows "split_sp (xs @ concat (map (\<lambda>e. SP # e) es)) = xs # es"
  using assms
proof (induction es arbitrary: xs)
  case Nil
  then show ?case by (simp add: split_sp_no_space)
next
  case (Cons e es)
  have "split_sp (xs @ SP # (e @ concat (map (\<lambda>e. SP # e) es))) =
        xs # split_sp (e @ concat (map (\<lambda>e. SP # e) es))"
    using Cons.prems(1) by (rule split_sp_append_space)
  also have "split_sp (e @ concat (map (\<lambda>e. SP # e) es)) = e # es"
    using Cons.prems(2) by (intro Cons.IH) simp_all
  finally show ?case by simp
qed

lemma c_string_no_nul: "c_string buf = Some s \<Longrightarrow> NUL \<notin> set s"
  by (auto simp: c_string_def split: if_splits dest: set_takeWhileD)

text \<open>\<open>std::to_string\<close> loses nothing: the decimal text parses back to
  the same integer, negative values included.\<close>

lemma parse_int_std_to_string [simp]: "parse_int_str (std_to_string i) = Some i"
proof (cases "i < 0")
  case True
  then show ?thesis by (simp add: std_to_string_def parse_int_str_def)
next
  case False
  obtain c ds where cs: "dec_nat (nat i) = c # ds"
    using dec_nat_digits [of "nat i"] by (cases "dec_nat (nat i)") auto
  have "c \<noteq> CHR ''-''" using dec_nat_hd_not_minus [of "nat i"] cs by simp
  then have "parse_int_str (c # ds) = map_option int (parse_nat_str (c # ds))"
    by (simp add: parse_int_str_def)
  also have "parse_nat_str (c # ds) = Some (nat i)"
    using parse_nat_dec_nat [of "nat i"] cs by simp
  finally show ?thesis using False cs by (simp add: std_to_string_def)
qed

end
