(* ===== verification/Mercury.thy ===== *)
theory Mercury
  imports Prelude
begin

text \<open>
  The interface between the node and its collaborators.  The MercuryAPI reader
  driver (\<open>mercuryapi.h\<close>, not part of the repository) is a record of
  operations over an abstract driver state \<open>'d\<close>: each call takes the state and
  returns the driver's result code together with the new state, so that every
  theorem about the node holds for every driver.  The node's observable
  behaviour is a trace of events: every driver call with its arguments and its
  result, every publication on the \<open>rfid/tags\<close> topic, and the node's other
  outputs (publisher and timer creation, log lines).  The resource accounting
  over a trace (which handles are allocated and connected) is the abstract
  model of the driver's resources that the leak-freedom theorems use.
\<close>

datatype mercuryapi_result = MERCURYAPI_OK | MERCURYAPI_NO_TAG | MERCURYAPI_ERR nat

datatype mercuryapi_region = MERCURYAPI_REGION_KR2 | MERCURYAPI_REGION_OTHER nat

text \<open>The driver capability.  \<open>read_epcs\<close> receives the tag buffers (one
  \<open>char\<close> row per tag slot), their capacities, the maximum tag count and the
  timeout, and returns the result code, the tag count it reports through
  \<open>int *count\<close>, and the buffer contents after it wrote into them.\<close>

record 'd mercuryapi =
  api_create :: "'d \<Rightarrow> mercuryapi_result \<times> handle option \<times> 'd"
  api_connect :: "handle \<Rightarrow> string \<Rightarrow> 'd \<Rightarrow> mercuryapi_result \<times> 'd"
  api_set_region :: "handle \<Rightarrow> mercuryapi_region \<Rightarrow> 'd \<Rightarrow> mercuryapi_result \<times> 'd"
  api_set_read_plan :: "handle \<Rightarrow> cint list \<Rightarrow> cint \<Rightarrow> 'd \<Rightarrow> mercuryapi_result \<times> 'd"
  api_read_epcs :: "handle \<Rightarrow> char list list \<Rightarrow> cint list \<Rightarrow> cint \<Rightarrow> cint \<Rightarrow> 'd \<Rightarrow>
                      mercuryapi_result \<times> cint \<times> char list list \<times> 'd"
  api_disconnect :: "handle \<Rightarrow> 'd \<Rightarrow> 'd"
  api_destroy :: "handle \<Rightarrow> 'd \<Rightarrow> 'd"

text \<open>Observable events, in the order the node causes them.\<close>

datatype event =
    EvCreate mercuryapi_result "handle option"
  | EvConnect handle string mercuryapi_result
  | EvSetRegion handle mercuryapi_region mercuryapi_result
  | EvSetReadPlan handle "cint list" cint mercuryapi_result
  | EvReadEpcs handle cint cint mercuryapi_result cint
  | EvDisconnect handle
  | EvDestroy handle
  | EvAdvertise string nat
  | EvPublish string
  | EvTimer cint
  | EvLogInfo string
  | EvStderr string
  | EvRclInit
  | EvRclShutdown

text \<open>The messages published on \<open>rfid/tags\<close>, in order.\<close>

fun published :: "event list \<Rightarrow> string list" where
  "published [] = []"
| "published (EvPublish m # es) = m # published es"
| "published (_ # es) = published es"

text \<open>The read plans requested, in order (antenna lists).\<close>

fun plans_requested :: "event list \<Rightarrow> cint list list" where
  "plans_requested [] = []"
| "plans_requested (EvSetReadPlan h as s rc # es) = as # plans_requested es"
| "plans_requested (_ # es) = plans_requested es"

subsection \<open>Resource accounting\<close>

text \<open>The driver's resources as the events acquire and release them: a
  handle the driver hands out (non-null) is allocated until destroyed; a
  handle whose connect succeeded is connected until disconnected.\<close>

record resources =
  allocated :: "handle set"
  connected :: "handle set"

fun res_step :: "resources \<Rightarrow> event \<Rightarrow> resources" where
  "res_step r (EvCreate rc (Some h)) = r\<lparr>allocated := insert h (allocated r)\<rparr>"
| "res_step r (EvConnect h u rc) =
     (if rc = MERCURYAPI_OK then r\<lparr>connected := insert h (connected r)\<rparr> else r)"
| "res_step r (EvDisconnect h) = r\<lparr>connected := connected r - {h}\<rparr>"
| "res_step r (EvDestroy h) = r\<lparr>allocated := allocated r - {h}\<rparr>"
| "res_step r _ = r"

definition no_resources :: resources where
  "no_resources = \<lparr>allocated = {}, connected = {}\<rparr>"

definition res_of :: "event list \<Rightarrow> resources" where
  "res_of es = foldl res_step no_resources es"

definition leak_free :: "event list \<Rightarrow> bool" where
  "leak_free es \<longleftrightarrow> allocated (res_of es) = {} \<and> connected (res_of es) = {}"

subsection \<open>Lemmas\<close>

lemma published_append [simp]: "published (xs @ ys) = published xs @ published ys"
  by (induction xs rule: published.induct) simp_all

lemma plans_requested_append [simp]:
  "plans_requested (xs @ ys) = plans_requested xs @ plans_requested ys"
  by (induction xs rule: plans_requested.induct) simp_all

lemma res_of_append [simp]: "res_of (xs @ ys) = foldl res_step (res_of xs) ys"
  by (simp add: res_of_def)

lemma res_of_Nil [simp]: "res_of [] = no_resources"
  by (simp add: res_of_def)

lemma no_resources_sel [simp]:
  "allocated no_resources = {}" "connected no_resources = {}"
  by (simp_all add: no_resources_def)

end
