(* ===== verification/Params.thy ===== *)
theory Params
  imports Prelude
begin

text \<open>
  The node's configuration (\<open>RfidTmreaderNode::RfidTmreaderNode\<close>, lines 23-33
  of \<open>rfid_tmreader_node.cpp\<close>): five ROS 2 parameters are declared with
  defaults and read back.  A parameter override given at launch replaces the
  default when its type matches and makes \<open>declare_parameter\<close> throw when it
  does not (rclcpp's behaviour, modelled from its documentation).  Integer
  parameters are 64-bit in ROS 2; the node stores them in \<open>int\<close> members, a
  narrowing conversion that keeps the low 32 bits (modular since C++20, and
  what GCC and Clang do).  Nothing checks that the values are positive.
  The defaults are the source's; the lemmas show which value each parameter
  takes, how each integer override is narrowed, and which override makes
  loading throw.
\<close>

datatype param_value = PString string | PInt int64 | PBool bool

type_synonym param_overrides = "string \<rightharpoonup> param_value"

record node_params =
  p_uri :: string
  p_timeout_ms :: cint
  p_loop_sleep_ms :: cint
  p_max_tags :: cint
  p_epc_buf_size :: cint

text \<open>\<open>declare_parameter<std::string>(name, default)\<close> followed by
  \<open>get_parameter(name).as_string()\<close>.\<close>

definition declare_string :: "param_overrides \<Rightarrow> string \<Rightarrow> string \<Rightarrow> node_error + string" where
  "declare_string ov name dflt =
     (case ov name of
        None \<Rightarrow> Inr dflt
      | Some (PString v) \<Rightarrow> Inr v
      | Some _ \<Rightarrow> Inl (InvalidParameterType name))"

text \<open>\<open>declare_parameter<int>(name, default)\<close> (stored as a 64-bit
  integer parameter) followed by \<open>get_parameter(name).as_int()\<close>, whose
  \<open>int64_t\<close> result the node assigns to an \<open>int\<close> member.\<close>

definition narrow_int :: "int64 \<Rightarrow> cint" where
  "narrow_int v = scast v"

definition declare_int :: "param_overrides \<Rightarrow> string \<Rightarrow> cint \<Rightarrow> node_error + cint" where
  "declare_int ov name dflt =
     (case ov name of
        None \<Rightarrow> Inr (narrow_int (scast dflt))
      | Some (PInt v) \<Rightarrow> Inr (narrow_int v)
      | Some _ \<Rightarrow> Inl (InvalidParameterType name))"

definition load_params :: "param_overrides \<Rightarrow> node_error + node_params" where
  "load_params ov =
     sbind (declare_string ov ''uri'' ''tmr:///dev/ttyUSB0'') (\<lambda>uri.
     sbind (declare_int ov ''timeout_ms'' 200) (\<lambda>timeout.
     sbind (declare_int ov ''loop_sleep_ms'' 100) (\<lambda>sleep.
     sbind (declare_int ov ''max_tags'' 64) (\<lambda>maxt.
     sbind (declare_int ov ''epc_buf_size'' 256) (\<lambda>bufsz.
       Inr \<lparr>p_uri = uri, p_timeout_ms = timeout, p_loop_sleep_ms = sleep,
            p_max_tags = maxt, p_epc_buf_size = bufsz\<rparr>)))))"

text \<open>The declarations of lines 23-27 in order: each parameter's name and
  the type its default gives it.\<close>

datatype param_type = PTString | PTInt

definition param_decls :: "(string \<times> param_type) list" where
  "param_decls =
     [(''uri'', PTString), (''timeout_ms'', PTInt), (''loop_sleep_ms'', PTInt),
      (''max_tags'', PTInt), (''epc_buf_size'', PTInt)]"

fun has_type :: "param_type \<Rightarrow> param_value \<Rightarrow> bool" where
  "has_type PTString (PString v) = True"
| "has_type PTInt (PInt v) = True"
| "has_type _ _ = False"

text \<open>An override fits a declaration when it is absent or of the declared type.\<close>

definition override_ok :: "param_overrides \<Rightarrow> string \<times> param_type \<Rightarrow> bool" where
  "override_ok ov nt = (case ov (fst nt) of None \<Rightarrow> True | Some v \<Rightarrow> has_type (snd nt) v)"

subsection \<open>Lemmas\<close>

text \<open>Each declaration either yields its value or throws for its own name.\<close>

lemma declare_string_eq:
  "declare_string ov n dflt =
     (if override_ok ov (n, PTString) then Inr (case ov n of Some (PString v) \<Rightarrow> v | _ \<Rightarrow> dflt)
      else Inl (InvalidParameterType n))"
  by (auto simp: declare_string_def override_ok_def split: option.splits param_value.splits)

lemma declare_int_eq:
  "declare_int ov n dflt =
     (if override_ok ov (n, PTInt)
      then Inr (case ov n of Some (PInt v) \<Rightarrow> narrow_int v | _ \<Rightarrow> narrow_int (scast dflt))
      else Inl (InvalidParameterType n))"
  by (auto simp: declare_int_def override_ok_def split: option.splits param_value.splits)

lemma narrow_int_sint [simp]: "sint (narrow_int v) = signed_take_bit 31 (sint v)"
  unfolding narrow_int_def scast_eq sint_sbintrunc' by simp

lemma load_params_Inr_fields:
  assumes "load_params ov = Inr p"
  shows "declare_string ov ''uri'' ''tmr:///dev/ttyUSB0'' = Inr (p_uri p)"
    and "declare_int ov ''timeout_ms'' 200 = Inr (p_timeout_ms p)"
    and "declare_int ov ''loop_sleep_ms'' 100 = Inr (p_loop_sleep_ms p)"
    and "declare_int ov ''max_tags'' 64 = Inr (p_max_tags p)"
    and "declare_int ov ''epc_buf_size'' 256 = Inr (p_epc_buf_size p)"
  using assms by (auto simp: load_params_def sbind_Inr_iff)

lemma load_params_Inl: "load_params ov = Inl e \<Longrightarrow> \<exists>n. e = InvalidParameterType n"
  by (auto simp: load_params_def declare_int_def declare_string_def sbind_def
           split: option.splits param_value.splits sum.splits)

text \<open>C18: the values the node runs with.  Whatever the overrides, when
  loading succeeds each of the five parameters is its own override (an
  integer narrowed to \<open>int\<close>) when one is given and the source's default
  otherwise: URI \<open>tmr:///dev/ttyUSB0\<close>, a 200 ms read timeout, a 100 ms
  timer period, 64 tag slots of 256 bytes; no parameter depends on another's
  override.\<close>

theorem load_params_values:
  assumes "load_params ov = Inr p"
  shows "p_uri p = (case ov ''uri'' of Some (PString v) \<Rightarrow> v | _ \<Rightarrow> ''tmr:///dev/ttyUSB0'') \<and>
         p_timeout_ms p = (case ov ''timeout_ms'' of Some (PInt v) \<Rightarrow> narrow_int v | _ \<Rightarrow> 200) \<and>
         p_loop_sleep_ms p = (case ov ''loop_sleep_ms'' of Some (PInt v) \<Rightarrow> narrow_int v | _ \<Rightarrow> 100) \<and>
         p_max_tags p = (case ov ''max_tags'' of Some (PInt v) \<Rightarrow> narrow_int v | _ \<Rightarrow> 64) \<and>
         p_epc_buf_size p = (case ov ''epc_buf_size'' of Some (PInt v) \<Rightarrow> narrow_int v | _ \<Rightarrow> 256)"
  using load_params_Inr_fields [OF assms]
  by (auto simp: declare_string_def declare_int_def narrow_int_def
           split: option.splits param_value.splits)

theorem load_params_values_witness:
  "load_params [''timeout_ms'' \<mapsto> PInt 50, ''frame'' \<mapsto> PBool True] =
     Inr \<lparr>p_uri = ''tmr:///dev/ttyUSB0'', p_timeout_ms = 50, p_loop_sleep_ms = 100,
          p_max_tags = 64, p_epc_buf_size = 256\<rparr> \<and>
   p_timeout_ms \<lparr>p_uri = ''tmr:///dev/ttyUSB0'', p_timeout_ms = 50 :: cint, p_loop_sleep_ms = 100,
          p_max_tags = 64, p_epc_buf_size = 256\<rparr> = narrow_int 50 \<and>
   p_max_tags \<lparr>p_uri = ''tmr:///dev/ttyUSB0'', p_timeout_ms = 50 :: cint, p_loop_sleep_ms = 100,
          p_max_tags = 64, p_epc_buf_size = 256\<rparr> = 64"
proof -
  have l: "load_params [''timeout_ms'' \<mapsto> PInt 50, ''frame'' \<mapsto> PBool True] =
     Inr \<lparr>p_uri = ''tmr:///dev/ttyUSB0'', p_timeout_ms = 50, p_loop_sleep_ms = 100,
          p_max_tags = 64, p_epc_buf_size = 256\<rparr>"
    by (simp add: load_params_def declare_int_def declare_string_def narrow_int_def)
  from load_params_values [OF l] l show ?thesis by simp
qed

text \<open>C19: an integer override is stored in an \<open>int\<close> member by keeping its
  low 32 bits as a two's-complement value: values in the \<open>int\<close> range are kept,
  others wrap around (an override of \<open>max_tags\<close> of \<open>2^32 + 64\<close> yields 64,
  of \<open>2^31\<close> a negative count), and nothing rejects them.\<close>

theorem load_params_max_tags_narrowed:
  assumes "load_params ov = Inr p" and "ov ''max_tags'' = Some (PInt v)"
  shows "sint (p_max_tags p) = signed_take_bit 31 (sint v)"
proof -
  have "declare_int ov ''max_tags'' 64 = Inr (p_max_tags p)"
    using assms(1) by (rule load_params_Inr_fields)
  then have "p_max_tags p = narrow_int v"
    using assms(2) by (simp add: declare_int_def)
  then show ?thesis by simp
qed

theorem load_params_max_tags_narrowed_witness:
  "load_params [''max_tags'' \<mapsto> PInt 0x80000000] =
     Inr \<lparr>p_uri = ''tmr:///dev/ttyUSB0'', p_timeout_ms = 200, p_loop_sleep_ms = 100,
          p_max_tags = 0x80000000, p_epc_buf_size = 256\<rparr>
   \<and> sint (0x80000000 :: cint) = signed_take_bit 31 (sint (0x80000000 :: int64))
   \<and> sint (0x80000000 :: cint) = - 2147483648"
proof -
  have l: "load_params [''max_tags'' \<mapsto> PInt 0x80000000] =
     Inr \<lparr>p_uri = ''tmr:///dev/ttyUSB0'', p_timeout_ms = 200, p_loop_sleep_ms = 100,
          p_max_tags = 0x80000000, p_epc_buf_size = 256\<rparr>"
    by (simp add: load_params_def declare_int_def declare_string_def narrow_int_def)
  have "sint (p_max_tags \<lparr>p_uri = ''tmr:///dev/ttyUSB0'', p_timeout_ms = 200,
          p_loop_sleep_ms = 100, p_max_tags = 0x80000000 :: cint, p_epc_buf_size = 256\<rparr>)
        = signed_take_bit 31 (sint (0x80000000 :: int64))"
    using load_params_max_tags_narrowed [OF l] by simp
  then show ?thesis using l by simp
qed

subsection \<open>Parameter types\<close>

text \<open>C29: parameter typing.  The constructor gets its configuration exactly
  when every override of the five declared parameters has the type of its
  declaration (a string for \<open>uri\<close>, an integer for the others); overrides
  of other names are ignored.\<close>

theorem load_params_well_typed:
  "(\<exists>p. load_params ov = Inr p) \<longleftrightarrow> list_all (override_ok ov) param_decls"
  unfolding load_params_def declare_string_eq declare_int_eq param_decls_def
  by (simp split: if_splits)

text \<open>C30: a configuration error names the first ill-typed parameter in the
  order of the declarations (lines 23-27): the declarations run in sequence
  and the first that throws ends the constructor.\<close>

theorem load_params_first_ill_typed:
  "load_params ov = Inl e \<longleftrightarrow>
     (\<exists>n t. find (\<lambda>d. \<not> override_ok ov d) param_decls = Some (n, t) \<and> e = InvalidParameterType n)"
  unfolding load_params_def declare_string_eq declare_int_eq param_decls_def
  by (auto split: if_splits)

theorem load_params_well_typed_witness:
  "\<exists>p. load_params [''timeout_ms'' \<mapsto> PInt 50, ''frame'' \<mapsto> PBool True] = Inr p"
proof -
  have "list_all (override_ok [''timeout_ms'' \<mapsto> PInt 50, ''frame'' \<mapsto> PBool True]) param_decls"
    by (simp add: param_decls_def override_ok_def)
  then show ?thesis using load_params_well_typed by blast
qed

theorem load_params_first_ill_typed_witness:
  "load_params [''max_tags'' \<mapsto> PString ''x'', ''uri'' \<mapsto> PInt 3] = Inl (InvalidParameterType ''uri'')"
proof -
  have "find (\<lambda>d. \<not> override_ok [''max_tags'' \<mapsto> PString ''x'', ''uri'' \<mapsto> PInt 3] d) param_decls =
          Some (''uri'', PTString)"
    by (simp add: param_decls_def override_ok_def)
  then show ?thesis using load_params_first_ill_typed by blast
qed

end
