(* ===== verification/ReaderSession.thy ===== *)
theory ReaderSession
  imports Mercury Params
begin

text \<open>
  The reader session: the \<open>RfidTmreaderNode\<close> object's state and its
  lifecycle (\<open>rfid_tmreader_node.cpp\<close>).  The record \<open>node\<close> holds the
  members of the class (lines 116-126): the reader handle \<open>reader_\<close>
  (\<open>None\<close> is \<open>nullptr\<close>), the four \<open>int\<close> settings, the antenna list
  \<open>ants_\<close>, together with the driver's state and the trace of observable
  events so far.  Each driver call goes through a wrapper that threads the
  driver state and records the call with its result.  \<open>open_reader\<close> is the
  startup protocol of lines 37-64 (create, connect, region, initial read plan,
  each failure unwinding what was acquired before it and throwing),
  \<open>rfid_node_ctor\<close> the whole constructor (lines 20-71), \<open>rfid_node_dtor\<close>
  the destructor (lines 73-80).  A throwing constructor returns the object's
  state at the throw: C++ runs no destructor for it.
\<close>

record 'd node =
  reader :: "handle option"
  timeout_ms :: cint
  loop_sleep_ms :: cint
  max_tags :: cint
  epc_buf_size :: cint
  ants :: "cint list"
  world :: 'd
  trace :: "event list"

text \<open>The object before the constructor body runs: the default member
  initialisers of lines 119-126.\<close>

definition node_init :: "'d \<Rightarrow> event list \<Rightarrow> 'd node" where
  "node_init d tr =
     \<lparr>reader = None, timeout_ms = 200, loop_sleep_ms = 100, max_tags = 64,
      epc_buf_size = 256, ants = [], world = d, trace = tr\<rparr>"

definition emit :: "event \<Rightarrow> 'd node \<Rightarrow> 'd node" where
  "emit e s = s\<lparr>trace := trace s @ [e]\<rparr>"

subsection \<open>Driver calls\<close>

text \<open>\<open>mercuryapi_reader_create(&reader_)\<close> writes the handle into
  \<open>reader_\<close> through its out-parameter, whatever its result code.\<close>

definition drv_create :: "'d mercuryapi \<Rightarrow> 'd node \<Rightarrow> mercuryapi_result \<times> 'd node" where
  "drv_create api s =
     (let r = api_create api (world s)
      in (fst r, emit (EvCreate (fst r) (fst (snd r)))
                   (s\<lparr>reader := fst (snd r), world := snd (snd r)\<rparr>)))"

definition drv_connect ::
  "'d mercuryapi \<Rightarrow> handle \<Rightarrow> string \<Rightarrow> 'd node \<Rightarrow> mercuryapi_result \<times> 'd node" where
  "drv_connect api h uri s =
     (let r = api_connect api h uri (world s)
      in (fst r, emit (EvConnect h uri (fst r)) (s\<lparr>world := snd r\<rparr>)))"

definition drv_set_region ::
  "'d mercuryapi \<Rightarrow> handle \<Rightarrow> mercuryapi_region \<Rightarrow> 'd node \<Rightarrow> mercuryapi_result \<times> 'd node" where
  "drv_set_region api h rg s =
     (let r = api_set_region api h rg (world s)
      in (fst r, emit (EvSetRegion h rg (fst r)) (s\<lparr>world := snd r\<rparr>)))"

definition drv_set_read_plan ::
  "'d mercuryapi \<Rightarrow> handle \<Rightarrow> cint list \<Rightarrow> cint \<Rightarrow> 'd node \<Rightarrow> mercuryapi_result \<times> 'd node" where
  "drv_set_read_plan api h as sess s =
     (let r = api_set_read_plan api h as sess (world s)
      in (fst r, emit (EvSetReadPlan h as sess (fst r)) (s\<lparr>world := snd r\<rparr>)))"

definition drv_disconnect :: "'d mercuryapi \<Rightarrow> handle \<Rightarrow> 'd node \<Rightarrow> 'd node" where
  "drv_disconnect api h s = emit (EvDisconnect h) (s\<lparr>world := api_disconnect api h (world s)\<rparr>)"

definition drv_destroy :: "'d mercuryapi \<Rightarrow> handle \<Rightarrow> 'd node \<Rightarrow> 'd node" where
  "drv_destroy api h s = emit (EvDestroy h) (s\<lparr>world := api_destroy api h (world s)\<rparr>)"

text \<open>The teardown sequence the source writes out three times (lines 51-53,
  60-62, 76-78): disconnect, destroy, null the handle.\<close>

definition close_reader :: "'d mercuryapi \<Rightarrow> handle \<Rightarrow> 'd node \<Rightarrow> 'd node" where
  "close_reader api h s = (drv_destroy api h (drv_disconnect api h s))\<lparr>reader := None\<rparr>"

subsection \<open>Startup protocol and constructor\<close>

definition open_reader :: "'d mercuryapi \<Rightarrow> string \<Rightarrow> 'd node \<Rightarrow> (node_error, 'd node) throws" where
  "open_reader api uri s =
     (case drv_create api s of (rc, s1) \<Rightarrow>
      (case reader s1 of
         None \<Rightarrow> Inl (RuntimeError ''mercuryapi_reader_create failed'', s1)
       | Some h \<Rightarrow>
      if rc \<noteq> MERCURYAPI_OK then Inl (RuntimeError ''mercuryapi_reader_create failed'', s1) else
      (case drv_connect api h uri s1 of (rc2, s2) \<Rightarrow>
       if rc2 \<noteq> MERCURYAPI_OK
       then Inl (RuntimeError ''mercuryapi_reader_connect failed'',
                 (drv_destroy api h s2)\<lparr>reader := None\<rparr>)
       else
       (case drv_set_region api h MERCURYAPI_REGION_KR2 s2 of (rc3, s3) \<Rightarrow>
        if rc3 \<noteq> MERCURYAPI_OK
        then Inl (RuntimeError ''mercuryapi_reader_set_region_enum failed'', close_reader api h s3)
        else
        (let s4 = s3\<lparr>ants := [1, 2]\<rparr> in
         case drv_set_read_plan api h (ants s4) (-1) s4 of (rc4, s5) \<Rightarrow>
         if rc4 \<noteq> MERCURYAPI_OK
         then Inl (RuntimeError ''mercuryapi_set_read_plan_gen2 failed'', close_reader api h s5)
         else Inr s5)))))"

text \<open>The constructor: parameters, the publisher on \<open>rfid/tags\<close> with
  queue depth 10, the reader, then the wall timer with period
  \<open>loop_sleep_ms_\<close> (rclcpp's timer factory throws
  \<open>std::invalid_argument\<close> for a negative period) and the start-up log line.\<close>

definition rfid_node_ctor ::
  "'d mercuryapi \<Rightarrow> param_overrides \<Rightarrow> 'd node \<Rightarrow> (node_error, 'd node) throws" where
  "rfid_node_ctor api ov s =
     (case load_params ov of
        Inl e \<Rightarrow> Inl (e, s)
      | Inr p \<Rightarrow>
          tbind (open_reader api (p_uri p)
                  (emit (EvAdvertise ''rfid/tags'' 10)
                    (s\<lparr>timeout_ms := p_timeout_ms p, loop_sleep_ms := p_loop_sleep_ms p,
                       max_tags := p_max_tags p, epc_buf_size := p_epc_buf_size p\<rparr>)))
            (\<lambda>s'. if sint (loop_sleep_ms s') < 0
                  then Inl (InvalidArgument ''timer period cannot be negative'', s')
                  else Inr (emit (EvLogInfo (''RFID node started. uri='' @ p_uri p))
                              (emit (EvTimer (loop_sleep_ms s')) s'))))"

subsection \<open>Destructor\<close>

definition rfid_node_dtor :: "'d mercuryapi \<Rightarrow> 'd node \<Rightarrow> 'd node" where
  "rfid_node_dtor api s = (case reader s of None \<Rightarrow> s | Some h \<Rightarrow> close_reader api h s)"

subsection \<open>Lemmas\<close>

declare emit_def [node_simps] drv_create_def [node_simps] drv_connect_def [node_simps]
  drv_set_region_def [node_simps] drv_set_read_plan_def [node_simps]
  drv_disconnect_def [node_simps] drv_destroy_def [node_simps] close_reader_def [node_simps]

lemma close_reader_trace:
  "trace (close_reader api h s) = trace s @ [EvDisconnect h, EvDestroy h]"
  by (simp add: node_simps)

lemma close_reader_reader [simp]: "reader (close_reader api h s) = None"
  by (simp add: node_simps)

text \<open>The success path of the startup protocol, call by call.\<close>

lemma open_reader_Inr:
  assumes "open_reader api uri s = Inr s'"
  shows "\<exists>h. reader s' = Some h \<and> ants s' = [1, 2] \<and>
           trace s' = trace s @ [EvCreate MERCURYAPI_OK (Some h), EvConnect h uri MERCURYAPI_OK,
                                 EvSetRegion h MERCURYAPI_REGION_KR2 MERCURYAPI_OK,
                                 EvSetReadPlan h [1, 2] (-1) MERCURYAPI_OK] \<and>
           timeout_ms s' = timeout_ms s \<and> loop_sleep_ms s' = loop_sleep_ms s \<and>
           max_tags s' = max_tags s \<and> epc_buf_size s' = epc_buf_size s"
  using assms
  by (auto simp: open_reader_def node_simps Let_def split: if_splits option.splits)

text \<open>Every failure of the startup protocol throws a \<open>std::runtime_error\<close>
  with a null handle and, from a state holding no driver resources, releases
  everything it acquired, provided the driver does not hand out a handle
  together with an error code from \<open>create\<close>.\<close>

lemma open_reader_Inl:
  assumes "open_reader api uri s = Inl (e, s')"
    and "res_of (trace s) = no_resources"
    and "fst (api_create api (world s)) \<noteq> MERCURYAPI_OK \<longrightarrow> fst (snd (api_create api (world s))) = None"
  shows "(\<exists>m. e = RuntimeError m) \<and> reader s' = None \<and> leak_free (trace s')"
  using assms
  by (auto simp: open_reader_def node_simps Let_def leak_free_def split: if_splits option.splits)

definition session_ready :: "'d node \<Rightarrow> bool" where
  "session_ready s \<longleftrightarrow>
     (\<exists>h. reader s = Some h \<and> res_of (trace s) = \<lparr>allocated = {h}, connected = {h}\<rparr> \<and>
          EvSetRegion h MERCURYAPI_REGION_KR2 MERCURYAPI_OK \<in> set (trace s))"

lemma rfid_node_ctor_Inr:
  assumes "rfid_node_ctor api ov s = Inr s'"
  shows "\<exists>p h. load_params ov = Inr p \<and> reader s' = Some h \<and> ants s' = [1, 2] \<and>
           timeout_ms s' = p_timeout_ms p \<and> loop_sleep_ms s' = p_loop_sleep_ms p \<and>
           max_tags s' = p_max_tags p \<and> epc_buf_size s' = p_epc_buf_size p \<and>
           0 \<le> sint (p_loop_sleep_ms p) \<and>
           trace s' = trace s @ [EvAdvertise ''rfid/tags'' 10,
             EvCreate MERCURYAPI_OK (Some h), EvConnect h (p_uri p) MERCURYAPI_OK,
             EvSetRegion h MERCURYAPI_REGION_KR2 MERCURYAPI_OK,
             EvSetReadPlan h [1, 2] (-1) MERCURYAPI_OK,
             EvTimer (p_loop_sleep_ms p), EvLogInfo (''RFID node started. uri='' @ p_uri p)]"
proof -
  obtain p where p: "load_params ov = Inr p"
    using assms by (cases "load_params ov") (simp_all add: rfid_node_ctor_def)
  let ?s0 = "emit (EvAdvertise ''rfid/tags'' 10)
               (s\<lparr>timeout_ms := p_timeout_ms p, loop_sleep_ms := p_loop_sleep_ms p,
                  max_tags := p_max_tags p, epc_buf_size := p_epc_buf_size p\<rparr>)"
  obtain s1 where s1: "open_reader api (p_uri p) ?s0 = Inr s1"
    using assms p by (cases "open_reader api (p_uri p) ?s0") (auto simp: rfid_node_ctor_def)
  have eq: "s' = emit (EvLogInfo (''RFID node started. uri='' @ p_uri p))
                   (emit (EvTimer (loop_sleep_ms s1)) s1)"
   and nn: "\<not> sint (loop_sleep_ms s1) < 0"
    using assms p s1 by (simp_all add: rfid_node_ctor_def split: if_splits)
  from open_reader_Inr [OF s1] obtain h where
    "reader s1 = Some h \<and> ants s1 = [1, 2] \<and>
     trace s1 = trace ?s0 @ [EvCreate MERCURYAPI_OK (Some h), EvConnect h (p_uri p) MERCURYAPI_OK,
                             EvSetRegion h MERCURYAPI_REGION_KR2 MERCURYAPI_OK,
                             EvSetReadPlan h [1, 2] (-1) MERCURYAPI_OK] \<and>
     timeout_ms s1 = timeout_ms ?s0 \<and> loop_sleep_ms s1 = loop_sleep_ms ?s0 \<and>
     max_tags s1 = max_tags ?s0 \<and> epc_buf_size s1 = epc_buf_size ?s0"
    by blast
  with eq nn p show ?thesis by (simp add: node_simps)
qed

text \<open>C8: a constructor that returns has run the startup protocol in the
  specified order and nothing else: publisher, create, connect, region KR2,
  read plan over antennas 1 and 2 with session -1, timer with the configured
  period, start-up log line; the members hold the loaded parameters.\<close>

theorem rfid_node_ctor_success_trace:
  assumes "rfid_node_ctor api ov s = Inr s'"
  shows "\<exists>p h. load_params ov = Inr p \<and> reader s' = Some h \<and> ants s' = [1, 2] \<and>
           max_tags s' = p_max_tags p \<and> epc_buf_size s' = p_epc_buf_size p \<and>
           timeout_ms s' = p_timeout_ms p \<and>
           trace s' = trace s @ [EvAdvertise ''rfid/tags'' 10,
             EvCreate MERCURYAPI_OK (Some h), EvConnect h (p_uri p) MERCURYAPI_OK,
             EvSetRegion h MERCURYAPI_REGION_KR2 MERCURYAPI_OK,
             EvSetReadPlan h [1, 2] (-1) MERCURYAPI_OK,
             EvTimer (p_loop_sleep_ms p), EvLogInfo (''RFID node started. uri='' @ p_uri p)]"
  using rfid_node_ctor_Inr [OF assms] by (elim exE conjE) auto

lemma rfid_node_ctor_Inr_ready:
  assumes "rfid_node_ctor api ov s = Inr s'" and "res_of (trace s) = no_resources"
  shows "session_ready s'"
  using rfid_node_ctor_Inr [OF assms(1)] assms(2) by (auto simp: session_ready_def)

lemma rfid_node_ctor_Inl_timer:
  assumes "rfid_node_ctor api ov s = Inl (InvalidArgument m, s')"
  shows "\<exists>p. load_params ov = Inr p \<and> sint (p_loop_sleep_ms p) < 0"
proof (cases "load_params ov")
  case (Inl e)
  with assms load_params_Inl [OF Inl] show ?thesis by (auto simp: rfid_node_ctor_def)
next
  case (Inr p)
  let ?s0 = "emit (EvAdvertise ''rfid/tags'' 10)
               (s\<lparr>timeout_ms := p_timeout_ms p, loop_sleep_ms := p_loop_sleep_ms p,
                  max_tags := p_max_tags p, epc_buf_size := p_epc_buf_size p\<rparr>)"
  show ?thesis
  proof (cases "open_reader api (p_uri p) ?s0")
    case (Inl es)
    then obtain e1 s1 where o: "open_reader api (p_uri p) ?s0 = Inl (e1, s1)"
      by (cases es) auto
    from o have "\<exists>m'. e1 = RuntimeError m'"
      by (auto simp: open_reader_def node_simps Let_def split: if_splits option.splits)
    with o assms Inr show ?thesis by (auto simp: rfid_node_ctor_def)
  next
    case (Inr s1)
    from open_reader_Inr [OF Inr] have "loop_sleep_ms s1 = p_loop_sleep_ms p"
      by (auto simp: node_simps)
    with Inr assms \<open>load_params ov = Inr p\<close> show ?thesis
      by (auto simp: rfid_node_ctor_def split: if_splits)
  qed
qed

text \<open>C9: a constructed node holds exactly one driver handle, which is
  allocated, connected and configured for region KR2 (the ReaderSession
  invariant of the data model: fully connected-and-configured, or null).\<close>

theorem rfid_node_ctor_session_ready:
  assumes "rfid_node_ctor api ov s = Inr s'" and "res_of (trace s) = no_resources"
  shows "session_ready s'"
  using rfid_node_ctor_Inr_ready [OF assms] .

lemma rfid_node_ctor_Inl_leak:
  assumes "rfid_node_ctor api ov s = Inl (e, s')"
    and "res_of (trace s) = no_resources"
    and "fst (api_create api (world s)) \<noteq> MERCURYAPI_OK \<longrightarrow> fst (snd (api_create api (world s))) = None"
  shows "leak_free (trace s') \<longleftrightarrow> e \<noteq> InvalidArgument ''timer period cannot be negative''"
proof (cases "load_params ov")
  case (Inl e')
  with assms(1,2) load_params_Inl [of ov e'] show ?thesis
    by (auto simp: rfid_node_ctor_def leak_free_def)
next
  case (Inr p)
  let ?s0 = "emit (EvAdvertise ''rfid/tags'' 10)
               (s\<lparr>timeout_ms := p_timeout_ms p, loop_sleep_ms := p_loop_sleep_ms p,
                  max_tags := p_max_tags p, epc_buf_size := p_epc_buf_size p\<rparr>)"
  have r0: "res_of (trace ?s0) = no_resources" and w0: "world ?s0 = world s"
    using assms(2) by (simp_all add: node_simps)
  show ?thesis
  proof (cases "open_reader api (p_uri p) ?s0")
    case (Inl es)
    then obtain e1 s1 where o: "open_reader api (p_uri p) ?s0 = Inl (e1, s1)"
      by (cases es) auto
    with assms(1) Inr have "e = e1" "s' = s1" by (simp_all add: rfid_node_ctor_def)
    with open_reader_Inl [OF o r0] assms(3) w0 show ?thesis by auto
  next
    case (Inr s1)
    with assms(1) \<open>load_params ov = Inr p\<close> have
      e: "e = InvalidArgument ''timer period cannot be negative''" and "s' = s1"
      by (simp_all add: rfid_node_ctor_def split: if_splits)
    from open_reader_Inr [OF Inr] obtain h where
      "trace s1 = trace ?s0 @ [EvCreate MERCURYAPI_OK (Some h),
          EvConnect h (p_uri p) MERCURYAPI_OK, EvSetRegion h MERCURYAPI_REGION_KR2 MERCURYAPI_OK,
          EvSetReadPlan h [1, 2] (-1) MERCURYAPI_OK]"
      by blast
    with r0 e \<open>s' = s1\<close> show ?thesis by (simp add: leak_free_def)
  qed
qed

text \<open>C11: a constructor that throws leaves no driver resource behind, except
  when it throws from the timer factory: a negative \<open>loop_sleep_ms\<close> makes
  \<open>create_wall_timer\<close> throw after the reader was connected and configured,
  and since a throwing constructor runs no destructor the handle stays
  allocated and connected.  (Hypotheses: the process starts with no driver
  resources, and \<open>create\<close> returns no handle with an error code.)\<close>

theorem rfid_node_ctor_failure_leak_iff:
  assumes "rfid_node_ctor api ov s = Inl (e, s')"
    and "res_of (trace s) = no_resources"
    and "fst (api_create api (world s)) \<noteq> MERCURYAPI_OK \<longrightarrow> fst (snd (api_create api (world s))) = None"
  shows "leak_free (trace s') \<longleftrightarrow> e \<noteq> InvalidArgument ''timer period cannot be negative''"
  using rfid_node_ctor_Inl_leak [OF assms] .

text \<open>C20: a \<open>create\<close> that returns an error code together with a
  non-null handle makes the constructor throw without destroying that handle:
  the check of line 38 treats the two failure signs alike but only the null
  one is safe.  Whether the driver can do this is not specified.\<close>

theorem open_reader_create_error_leaks:
  assumes "api_create api (world s) = (MERCURYAPI_ERR n, Some h, d)"
  shows "\<exists>s'. open_reader api uri s =
                Inl (RuntimeError ''mercuryapi_reader_create failed'', s') \<and>
              reader s' = Some h \<and> h \<in> allocated (res_of (trace s'))"
  using assms by (simp add: open_reader_def node_simps)

subsection \<open>Destructor lemmas\<close>

lemma close_reader_releases:
  assumes "res_of (trace s) = \<lparr>allocated = {h}, connected = {h}\<rparr>"
  shows "leak_free (trace (close_reader api h s))"
  using assms by (simp add: close_reader_trace leak_free_def)

lemma session_ready_dtor:
  assumes "session_ready s"
  shows "\<exists>h. reader s = Some h \<and>
           trace (rfid_node_dtor api s) = trace s @ [EvDisconnect h, EvDestroy h] \<and>
           reader (rfid_node_dtor api s) = None \<and> leak_free (trace (rfid_node_dtor api s))"
  using assms close_reader_releases
  by (auto simp: session_ready_def rfid_node_dtor_def close_reader_trace)

text \<open>C13: the destructor is idempotent: a second teardown finds a null
  handle and does nothing, so disconnect and destroy are issued at most once.\<close>

theorem rfid_node_dtor_idempotent:
  "rfid_node_dtor api (rfid_node_dtor api s) = rfid_node_dtor api s"
  by (cases "reader s") (simp_all add: rfid_node_dtor_def)

text \<open>C12: tearing down a ready session disconnects and then destroys its
  handle, in that order, nulls it, and leaves no driver resource held.\<close>

theorem rfid_node_dtor_releases:
  assumes "session_ready s"
  shows "\<exists>h. reader s = Some h \<and>
           trace (rfid_node_dtor api s) = trace s @ [EvDisconnect h, EvDestroy h] \<and>
           reader (rfid_node_dtor api s) = None \<and> leak_free (trace (rfid_node_dtor api s))"
  using session_ready_dtor [OF assms] .

end
