(* ===== verification/ScanLoop.thy ===== *)
theory ScanLoop
  imports ReaderSession
begin

text \<open>
  The scan loop: \<open>RfidTmreaderNode::OnTimer\<close> (lines 83-114 of
  \<open>rfid_tmreader_node.cpp\<close>), run by the wall timer.  For each antenna of
  \<open>ants_\<close> in order, \<open>scan_antenna\<close> restricts the read plan to that antenna
  (a failure skips the antenna), allocates \<open>max_tags_\<close> zero-filled buffers of
  \<open>epc_buf_size_\<close> bytes (a negative size makes \<open>std::vector\<close> throw
  \<open>std::length_error\<close>), reads with the timeout, and, when the read succeeded
  with a positive count, builds the message
  \<open>ant=<antenna> count=<count> <epc_1> ... <epc_count>\<close> and publishes it.
  \<open>append_epcs\<close> is the loop of lines 106-109 that appends the C strings
  \<open>ptrs[0]\<close>, ..., \<open>ptrs[count-1]\<close>; \<open>ptrs\<close> has \<open>max_tags_\<close> entries, one per
  buffer, so reading an index at or past \<open>max_tags_\<close>, or a buffer without a
  terminator, is undefined behaviour.  \<open>epcs_of\<close> and \<open>fmt_msg\<close> are
  the reference reading of the same computation (the strings, then the
  specified format), which the loop is proved to implement.
\<close>

subsection \<open>Definitions\<close>

text \<open>\<open>mercuryapi_read_epcs(reader_, ptrs, lens, max_tags_, &count, timeout_ms_)\<close>.\<close>

definition drv_read_epcs ::
  "'d mercuryapi \<Rightarrow> handle \<Rightarrow> char list list \<Rightarrow> cint list \<Rightarrow> cint \<Rightarrow> cint \<Rightarrow> 'd node \<Rightarrow>
     (mercuryapi_result \<times> cint \<times> char list list) \<times> 'd node" where
  "drv_read_epcs api h bufs lens mx tmo s =
     (let r = api_read_epcs api h bufs lens mx tmo (world s)
      in ((fst r, fst (snd r), fst (snd (snd r))),
          emit (EvReadEpcs h mx tmo (fst r) (fst (snd r))) (s\<lparr>world := snd (snd (snd r))\<rparr>)))"

text \<open>The buffers of lines 91-93 for the node's settings: \<open>max_tags_\<close>
  zero-filled rows of \<open>epc_buf_size_\<close> bytes, and their capacities (the
  sizes are non-negative where they are used).\<close>

definition node_storage :: "'d node \<Rightarrow> char list list" where
  "node_storage s = replicate (nat (sint (max_tags s))) (replicate (nat (sint (epc_buf_size s))) NUL)"

definition node_lens :: "'d node \<Rightarrow> cint list" where
  "node_lens s = replicate (nat (sint (max_tags s))) (epc_buf_size s)"

text \<open>The loop of lines 106-109 over the strings \<open>ptrs\<close> points to: \<open>ptrs[i]\<close>
  exists for \<open>i < ptrs.size()\<close> only, and \<open>+=\<close> reads it up to its terminator.\<close>

function append_epcs :: "char list list \<Rightarrow> nat \<Rightarrow> nat \<Rightarrow> string \<Rightarrow> string option" where
  "append_epcs ptrs n i msg =
     (if i < n then
        (if i < length ptrs then
           (case c_string (ptrs ! i) of
              None \<Rightarrow> None
            | Some e \<Rightarrow> append_epcs ptrs n (Suc i) (msg @ SP # e))
         else None)
      else Some msg)"
  by pat_completeness auto
termination
  by (relation "measure (\<lambda>(rows, n, i, msg). n - i)") auto

declare append_epcs.simps [simp del]

definition msg_header :: "cint \<Rightarrow> cint \<Rightarrow> string" where
  "msg_header ant count = ''ant='' @ std_to_string (sint ant) @ '' count='' @ std_to_string (sint count)"

definition build_msg :: "cint \<Rightarrow> cint \<Rightarrow> char list list \<Rightarrow> string option" where
  "build_msg ant count ptrs = append_epcs ptrs (nat (sint count)) 0 (msg_header ant count)"

definition publish :: "string \<Rightarrow> 'd node \<Rightarrow> 'd node" where
  "publish m s = emit (EvPublish m) s"

text \<open>One iteration of the loop of lines 85-113.  After the read, \<open>ptrs\<close>
  (line 92) holds \<open>max_tags_\<close> pointers, the \<open>i\<close>-th to the \<open>i\<close>-th buffer as the
  driver left it: the first \<open>max_tags_\<close> rows of the driver's result.\<close>

definition scan_antenna ::
  "'d mercuryapi \<Rightarrow> handle \<Rightarrow> 'd node \<Rightarrow> cint \<Rightarrow> (node_error, 'd node) throws" where
  "scan_antenna api h s ant =
     (case drv_set_read_plan api h [ant] (-1) s of (rc, s1) \<Rightarrow>
      if rc \<noteq> MERCURYAPI_OK then Inr s1
      else if sint (epc_buf_size s1) < 0 \<or> sint (max_tags s1) < 0 then Inl (LengthError, s1)
      else
        (case drv_read_epcs api h (node_storage s1) (node_lens s1) (max_tags s1) (timeout_ms s1) s1 of
           ((rc2, count, rows), s2) \<Rightarrow>
             if rc2 = MERCURYAPI_OK \<and> 0 < sint count
             then (case build_msg ant count (take (nat (sint (max_tags s1))) rows) of
                     None \<Rightarrow> Inl (UndefinedBehaviour, s2)
                   | Some m \<Rightarrow> Inr (publish m s2))
             else Inr s2))"

fun scan_ants ::
  "'d mercuryapi \<Rightarrow> handle \<Rightarrow> cint list \<Rightarrow> 'd node \<Rightarrow> (node_error, 'd node) throws" where
  "scan_ants api h [] s = Inr s"
| "scan_ants api h (a # as) s = tbind (scan_antenna api h s a) (scan_ants api h as)"

text \<open>A timer callback with a null \<open>reader_\<close> would pass it to the driver,
  whose contract does not cover that: undefined behaviour.  The timer exists
  only after a successful constructor, so this branch is never taken.\<close>

definition on_timer :: "'d mercuryapi \<Rightarrow> 'd node \<Rightarrow> (node_error, 'd node) throws" where
  "on_timer api s =
     (case reader s of None \<Rightarrow> Inl (UndefinedBehaviour, s) | Some h \<Rightarrow> scan_ants api h (ants s) s)"

subsection \<open>Reference reading of a read result\<close>

definition slot_string :: "char list list \<Rightarrow> nat \<Rightarrow> string option" where
  "slot_string rows j = (if j < length rows then c_string (rows ! j) else None)"

definition epcs_of :: "char list list \<Rightarrow> nat \<Rightarrow> string list option" where
  "epcs_of rows n = those (map (slot_string rows) [0..<n])"

text \<open>The message format of the specification (section 6).\<close>

definition fmt_msg :: "cint \<Rightarrow> cint \<Rightarrow> string list \<Rightarrow> string" where
  "fmt_msg ant count es =
     ''ant='' @ std_to_string (sint ant) @ '' count='' @ std_to_string (sint count) @
     concat (map (\<lambda>e. SP # e) es)"

text \<open>The consumer's reading of a message: two header tokens, then the EPCs.\<close>

definition strip_prefix :: "string \<Rightarrow> string \<Rightarrow> string option" where
  "strip_prefix p xs = (if take (length p) xs = p then Some (drop (length p) xs) else None)"

definition parse_msg :: "string \<Rightarrow> (int \<times> int \<times> string list) option" where
  "parse_msg m =
     (case split_sp m of
        a # c # es \<Rightarrow>
          (case (strip_prefix ''ant='' a, strip_prefix ''count='' c) of
             (Some a', Some c') \<Rightarrow>
               (case (parse_int_str a', parse_int_str c') of
                  (Some x, Some y) \<Rightarrow> Some (x, y, es)
                | _ \<Rightarrow> None)
           | _ \<Rightarrow> None)
      | _ \<Rightarrow> None)"

subsection \<open>The message loop against its reference\<close>

lemma append_epcs_eq:
  "append_epcs rows n i msg =
     map_option (\<lambda>es. msg @ concat (map (\<lambda>e. SP # e) es)) (those (map (slot_string rows) [i..<n]))"
proof (induction rows n i msg rule: append_epcs.induct)
  case (1 rows n i msg)
  show ?case
  proof (cases "i < n")
    case True
    then have upt: "[i..<n] = i # [Suc i..<n]" by (simp add: upt_conv_Cons)
    show ?thesis
    proof (cases "i < length rows")
      case True
      with "1.IH" \<open>i < n\<close> show ?thesis
        by (simp add: append_epcs.simps [of rows n i msg] upt slot_string_def
                 option.map_comp comp_def split: option.splits)
    next
      case False
      with \<open>i < n\<close> show ?thesis
        by (simp add: append_epcs.simps [of rows n i msg] upt slot_string_def)
    qed
  next
    case False
    then show ?thesis by (simp add: append_epcs.simps [of rows n i msg])
  qed
qed

text \<open>C32: the EPC loop of lines 106-109 is equivalent to its reference
  reading: from the header it appends a space and the C string of each of the
  first \<open>n\<close> slots, in slot order, and it has no result (undefined
  behaviour) exactly when one of those slots is missing or unterminated.\<close>

theorem append_epcs_equiv:
  "append_epcs rows n 0 msg = map_option (\<lambda>es. msg @ concat (map (\<lambda>e. SP # e) es)) (epcs_of rows n)"
  by (simp add: append_epcs_eq epcs_of_def)

lemma build_msg_eq:
  "build_msg ant count rows = map_option (fmt_msg ant count) (epcs_of rows (nat (sint count)))"
  by (cases "epcs_of rows (nat (sint count))")
     (simp_all add: build_msg_def append_epcs_eq epcs_of_def fmt_msg_def msg_header_def)

lemma those_length: "those xs = Some ys \<Longrightarrow> length ys = length xs"
  by (induction xs arbitrary: ys) (auto split: option.splits)

lemma epcs_of_length: "epcs_of rows n = Some es \<Longrightarrow> length es = n"
  by (auto simp: epcs_of_def dest: those_length)

lemma those_map_None_iff: "those (map f xs) = None \<longleftrightarrow> (\<exists>x \<in> set xs. f x = None)"
  by (induction xs) (auto split: option.splits)

lemma epcs_of_None_iff:
  "epcs_of rows n = None \<longleftrightarrow> (\<exists>j < n. j \<ge> length rows \<or> NUL \<notin> set (rows ! j))"
  by (auto simp: epcs_of_def those_map_None_iff slot_string_def c_string_def split: if_splits)

text \<open>Reading through the first \<open>m\<close> rows: the loop reads the same strings
  when the count is within them, and past \<open>ptrs\<close> otherwise.\<close>

lemma epcs_of_take:
  "epcs_of (take m rows) n = (if n \<le> m then epcs_of rows n else None)"
proof (cases "n \<le> m")
  case True
  then have eq: "map (slot_string (take m rows)) [0..<n] = map (slot_string rows) [0..<n]"
    by (intro map_cong) (auto simp: slot_string_def)
  show ?thesis unfolding epcs_of_def eq using True by simp
next
  case False
  then have "epcs_of (take m rows) n = None"
    by (auto simp: epcs_of_None_iff intro!: exI [of _ "length (take m rows)"])
  with False show ?thesis by simp
qed

lemma build_msg_take:
  "build_msg ant count (take m rows) =
     (if nat (sint count) \<le> m then map_option (fmt_msg ant count) (epcs_of rows (nat (sint count))) else None)"
  by (simp add: build_msg_eq epcs_of_take)

lemma fmt_header_split:
  "''ant='' @ std_to_string (sint ant) @ '' count='' @ std_to_string (sint count) @ tail =
     (''ant='' @ std_to_string (sint ant)) @ SP # (''count='' @ std_to_string (sint count) @ tail)"
  by simp

subsection \<open>Antenna scoping of a trace\<close>

text \<open>The isolation the scan loop promises, as a property of its events:
  every read happens while the last accepted read plan is a single antenna,
  and every message published names that antenna.  A rejected plan leaves the
  reader's plan unknown (\<open>None\<close>), and a read then would be unscoped.\<close>

fun scoped :: "cint list option \<Rightarrow> event list \<Rightarrow> bool" where
  "scoped p [] = True"
| "scoped p (EvSetReadPlan h as sess rc # es) =
     scoped (if rc = MERCURYAPI_OK then Some as else None) es"
| "scoped p (EvReadEpcs h m t rc c # es) =
     ((case p of Some [a] \<Rightarrow> True | _ \<Rightarrow> False) \<and> scoped p es)"
| "scoped p (EvPublish m # es) =
     ((case p of
         Some [a] \<Rightarrow> strip_prefix (''ant='' @ std_to_string (sint a) @ '' count='') m \<noteq> None
       | _ \<Rightarrow> False) \<and> scoped p es)"
| "scoped p (_ # es) = scoped p es"

text \<open>The part of the node's state a tick must leave alone.\<close>

definition node_cfg :: "'d node \<Rightarrow> handle option \<times> cint \<times> cint \<times> cint \<times> cint \<times> cint list" where
  "node_cfg s = (reader s, timeout_ms s, loop_sleep_ms s, max_tags s, epc_buf_size s, ants s)"

text \<open>What the tick needs of the driver's read with the node's buffers
  (specification section 4.1): a successful read that reports tags reports
  at most \<open>max_tags_\<close> of them and leaves a terminated string in each slot it
  reports.\<close>

definition reads_terminated :: "'d mercuryapi \<Rightarrow> handle \<Rightarrow> 'd node \<Rightarrow> bool" where
  "reads_terminated api h s \<longleftrightarrow>
     (\<forall>d rc c rows d'.
        api_read_epcs api h (node_storage s) (node_lens s) (max_tags s) (timeout_ms s) d =
          (rc, c, rows, d') \<longrightarrow> rc = MERCURYAPI_OK \<longrightarrow> 0 < sint c \<longrightarrow>
        sint c \<le> sint (max_tags s) \<and> epcs_of rows (nat (sint c)) \<noteq> None)"

subsection \<open>One antenna\<close>

declare drv_read_epcs_def [node_simps] publish_def [node_simps]

lemma node_storage_upd [simp]:
  "node_storage (s\<lparr>world := d\<rparr>) = node_storage s" "node_storage (s\<lparr>trace := t\<rparr>) = node_storage s"
  "node_lens (s\<lparr>world := d\<rparr>) = node_lens s" "node_lens (s\<lparr>trace := t\<rparr>) = node_lens s"
  by (simp_all add: node_storage_def node_lens_def)

text \<open>After a successful read-plan call and with non-negative buffer sizes, the
  step is the read followed by the publish decision.\<close>

lemma scan_antenna_read:
  assumes "api_set_read_plan api h [a] (-1) (world s) = (MERCURYAPI_OK, d1)"
    and "0 \<le> sint (max_tags s)" and "0 \<le> sint (epc_buf_size s)"
    and "api_read_epcs api h (node_storage s) (node_lens s) (max_tags s) (timeout_ms s) d1 = (rc, c, rows, d2)"
  shows "scan_antenna api h s a =
           (let s2 = emit (EvReadEpcs h (max_tags s) (timeout_ms s) rc c)
                       (emit (EvSetReadPlan h [a] (-1) MERCURYAPI_OK) (s\<lparr>world := d2\<rparr>))
            in if rc = MERCURYAPI_OK \<and> 0 < sint c
               then (case build_msg a c (take (nat (sint (max_tags s))) rows) of
                       None \<Rightarrow> Inl (UndefinedBehaviour, s2)
                     | Some m \<Rightarrow> Inr (publish m s2))
               else Inr s2)"
  using assms by (simp add: scan_antenna_def node_simps Let_def)

text \<open>C1: when the read plan is accepted, the buffers can be allocated, the
  read succeeds with \<open>0 < k \<le> max_tags\<close> tags and the driver left \<open>k\<close>
  terminated strings in the first \<open>k\<close> slots, the antenna step performs exactly these
  observable actions: the plan call, the read call, and one publication of
  \<open>ant=<a> count=<k> <epc_1> ... <epc_k>\<close> with exactly \<open>k\<close> EPCs in slot order.\<close>

theorem scan_antenna_publishes_exact:
  assumes "api_set_read_plan api h [a] (-1) (world s) = (MERCURYAPI_OK, d1)"
    and "0 \<le> sint (max_tags s)" and "0 \<le> sint (epc_buf_size s)"
    and "api_read_epcs api h (node_storage s) (node_lens s) (max_tags s) (timeout_ms s) d1 =
           (MERCURYAPI_OK, c, rows, d2)"
    and "0 < sint c" and "sint c \<le> sint (max_tags s)" and "epcs_of rows (nat (sint c)) = Some es"
  shows "\<exists>s'. scan_antenna api h s a = Inr s' \<and> length es = nat (sint c) \<and>
           trace s' = trace s @ [EvSetReadPlan h [a] (-1) MERCURYAPI_OK,
             EvReadEpcs h (max_tags s) (timeout_ms s) MERCURYAPI_OK c, EvPublish (fmt_msg a c es)]"
proof -
  have "nat (sint c) \<le> nat (sint (max_tags s))" using assms(6) by simp
  with scan_antenna_read [OF assms(1-4)] assms(5,7) epcs_of_length [OF assms(7)]
  show ?thesis by (simp add: build_msg_take node_simps)
qed

text \<open>C2: a read that fails (any result code other than OK, including the
  driver's no-tag code) or reports no tag publishes nothing: the step ends
  after the read call, silently.\<close>

theorem scan_antenna_silent:
  assumes "api_set_read_plan api h [a] (-1) (world s) = (MERCURYAPI_OK, d1)"
    and "0 \<le> sint (max_tags s)" and "0 \<le> sint (epc_buf_size s)"
    and "api_read_epcs api h (node_storage s) (node_lens s) (max_tags s) (timeout_ms s) d1 =
           (rc, c, rows, d2)"
    and "rc \<noteq> MERCURYAPI_OK \<or> sint c \<le> 0"
  shows "\<exists>s'. scan_antenna api h s a = Inr s' \<and>
           trace s' = trace s @ [EvSetReadPlan h [a] (-1) MERCURYAPI_OK,
                                 EvReadEpcs h (max_tags s) (timeout_ms s) rc c]"
  using scan_antenna_read [OF assms(1-4)] assms(5)
  by (auto simp: node_simps)

text \<open>C6: a rejected read plan skips the antenna: no buffer is allocated, no
  read is attempted, nothing is retried or published, and the step does not
  throw.\<close>

theorem scan_antenna_plan_failure:
  assumes "api_set_read_plan api h [a] (-1) (world s) = (rc, d1)" and "rc \<noteq> MERCURYAPI_OK"
  shows "scan_antenna api h s a = Inr (s\<lparr>world := d1, trace := trace s @ [EvSetReadPlan h [a] (-1) rc]\<rparr>)"
  using assms by (simp add: scan_antenna_def node_simps)

text \<open>The consumer's reading (split at spaces, strip \<open>ant=\<close> and \<open>count=\<close>,
  parse the decimals) inverts the specified format, provided no EPC contains
  a space.\<close>

lemma fmt_msg_parse:
  assumes "\<forall>e \<in> set es. SP \<notin> set e"
  shows "parse_msg (fmt_msg a c es) = Some (sint a, sint c, es)"
proof -
  have "split_sp (fmt_msg a c es) =
          (''ant='' @ std_to_string (sint a)) # split_sp ((''count='' @ std_to_string (sint c)) @
             concat (map (\<lambda>e. SP # e) es))"
    unfolding fmt_msg_def fmt_header_split by (simp add: split_sp_append_space)
  also have "\<dots> = (''ant='' @ std_to_string (sint a)) # (''count='' @ std_to_string (sint c)) # es"
    using assms by (simp add: split_sp_join)
  finally show ?thesis by (simp add: parse_msg_def strip_prefix_def)
qed

text \<open>C7: a message the node builds (lines 104-109) gives back its antenna,
  its count and its EPCs: the consumer's reading of it returns the antenna
  and count the node formatted and the strings of the first \<open>count\<close> slots,
  provided none of them contains a space.\<close>

theorem build_msg_roundtrip:
  assumes "build_msg a c ptrs = Some m" and "epcs_of ptrs (nat (sint c)) = Some es"
    and "\<forall>e \<in> set es. SP \<notin> set e"
  shows "parse_msg m = Some (sint a, sint c, es)"
proof -
  have "m = fmt_msg a c es" using assms(1,2) by (simp add: build_msg_eq)
  then show ?thesis using fmt_msg_parse [OF assms(3)] by simp
qed

text \<open>C16: when the driver reports more tags than there are slots, the loop of
  lines 106-109 reads \<open>ptrs[max_tags_]\<close> past the end of the vector: undefined
  behaviour, whatever the driver wrote.  The node trusts the count it is
  given.\<close>

theorem scan_antenna_count_overflow_ub:
  assumes "api_set_read_plan api h [a] (-1) (world s) = (MERCURYAPI_OK, d1)"
    and "0 \<le> sint (max_tags s)" and "0 \<le> sint (epc_buf_size s)"
    and "api_read_epcs api h (node_storage s) (node_lens s) (max_tags s) (timeout_ms s) d1 =
           (MERCURYAPI_OK, c, rows, d2)"
    and "sint (max_tags s) < sint c"
  shows "\<exists>s'. scan_antenna api h s a = Inl (UndefinedBehaviour, s')"
proof -
  have "\<not> nat (sint c) \<le> nat (sint (max_tags s))" using assms(2,5) by simp
  then show ?thesis
    using scan_antenna_read [OF assms(1-4)] assms(2,5) by (simp add: build_msg_take Let_def)
qed

text \<open>C17: nothing validates \<open>max_tags\<close> and \<open>epc_buf_size\<close>: when either is
  negative, every antenna whose read plan is accepted throws
  \<open>std::length_error\<close> out of the timer callback, which is not the failure
  isolation the scan loop promises.\<close>

theorem scan_antenna_negative_size_throws:
  assumes "api_set_read_plan api h [a] (-1) (world s) = (MERCURYAPI_OK, d1)"
    and "sint (max_tags s) < 0 \<or> sint (epc_buf_size s) < 0"
  shows "scan_antenna api h s a =
           Inl (LengthError, s\<lparr>world := d1, trace := trace s @ [EvSetReadPlan h [a] (-1) MERCURYAPI_OK]\<rparr>)"
  using assms by (auto simp: scan_antenna_def node_simps)

subsection \<open>The whole tick\<close>

lemma scoped_append: "scoped p xs \<Longrightarrow> \<forall>q. scoped q ys \<Longrightarrow> scoped p (xs @ ys)"
  by (induction p xs rule: scoped.induct) (auto split: option.splits list.splits)

lemma build_msg_prefix:
  "build_msg a c rows = Some m \<Longrightarrow>
     strip_prefix (''ant='' @ std_to_string (sint a) @ '' count='') m \<noteq> None"
  by (auto simp: build_msg_eq fmt_msg_def msg_header_def strip_prefix_def)

lemma scan_antenna_Inr:
  assumes "scan_antenna api h s a = Inr s'"
  shows "\<exists>evs. trace s' = trace s @ evs \<and> (\<forall>p. scoped p evs) \<and> plans_requested evs = [[a]] \<and>
           node_cfg s' = node_cfg s \<and> res_of (trace s') = res_of (trace s)"
  using assms
  by (auto simp: scan_antenna_def node_simps node_cfg_def Let_def
           split: if_splits option.splits dest: build_msg_prefix)

text \<open>An induction principle for a completed antenna loop: a relation
  indexed by the antennas scanned, which every completed step establishes
  for its antenna and which composes along the list.\<close>

lemma scan_ants_Inr_induct:
  assumes "scan_ants api h as s = Inr s'" and "Q s"
    and nil: "\<And>s. R [] s s"
    and step: "\<And>s a s'. Q s \<Longrightarrow> scan_antenna api h s a = Inr s' \<Longrightarrow> R [a] s s' \<and> Q s'"
    and trans: "\<And>xs ys s1 s2 s3. R xs s1 s2 \<Longrightarrow> R ys s2 s3 \<Longrightarrow> R (xs @ ys) s1 s3"
  shows "R as s s'"
  using assms(1,2)
proof (induction as arbitrary: s)
  case Nil
  then show ?case using nil by simp
next
  case (Cons a as)
  then obtain s1 where s1: "scan_antenna api h s a = Inr s1" and s': "scan_ants api h as s1 = Inr s'"
    by (cases "scan_antenna api h s a") auto
  from step [OF Cons.prems(2) s1] have "R [a] s s1" and "Q s1" by simp_all
  with Cons.IH [OF s'] trans [of "[a]" s s1 as s'] show ?case by simp
qed

lemma scan_ants_Inr:
  assumes "scan_ants api h as s = Inr s'"
  shows "\<exists>evs. trace s' = trace s @ evs \<and> (\<forall>p. scoped p evs) \<and>
           plans_requested evs = map (\<lambda>a. [a]) as \<and>
           node_cfg s' = node_cfg s \<and> res_of (trace s') = res_of (trace s)"
proof (rule scan_ants_Inr_induct [OF assms, where Q = "\<lambda>_. True"])
  fix xs ys and s1 s2 s3 :: "'a node"
  assume "\<exists>evs. trace s2 = trace s1 @ evs \<and> (\<forall>p. scoped p evs) \<and>
            plans_requested evs = map (\<lambda>a. [a]) xs \<and>
            node_cfg s2 = node_cfg s1 \<and> res_of (trace s2) = res_of (trace s1)"
    and "\<exists>evs. trace s3 = trace s2 @ evs \<and> (\<forall>p. scoped p evs) \<and>
            plans_requested evs = map (\<lambda>a. [a]) ys \<and>
            node_cfg s3 = node_cfg s2 \<and> res_of (trace s3) = res_of (trace s2)"
  then obtain evs1 evs2 where
    e: "trace s2 = trace s1 @ evs1" "\<forall>p. scoped p evs1" "plans_requested evs1 = map (\<lambda>a. [a]) xs"
       "node_cfg s2 = node_cfg s1" "res_of (trace s2) = res_of (trace s1)"
       "trace s3 = trace s2 @ evs2" "\<forall>p. scoped p evs2" "plans_requested evs2 = map (\<lambda>a. [a]) ys"
       "node_cfg s3 = node_cfg s2" "res_of (trace s3) = res_of (trace s2)"
    by blast
  have "\<forall>p. scoped p (evs1 @ evs2)" using e(2,7) scoped_append by blast
  with e show "\<exists>evs. trace s3 = trace s1 @ evs \<and> (\<forall>p. scoped p evs) \<and>
            plans_requested evs = map (\<lambda>a. [a]) (xs @ ys) \<and>
            node_cfg s3 = node_cfg s1 \<and> res_of (trace s3) = res_of (trace s1)"
    by (intro exI [of _ "evs1 @ evs2"]) simp
qed (use scan_antenna_Inr in auto)

lemma on_timer_Inr:
  assumes "on_timer api s = Inr s'"
  shows "\<exists>evs. trace s' = trace s @ evs \<and> (\<forall>p. scoped p evs) \<and>
           plans_requested evs = map (\<lambda>a. [a]) (ants s) \<and>
           node_cfg s' = node_cfg s \<and> res_of (trace s') = res_of (trace s)"
  using assms scan_ants_Inr by (auto simp: on_timer_def split: option.splits)

text \<open>C4: a tick that completes has requested, in the configured order, a
  read plan for every antenna of \<open>ants_\<close>, each restricted to that single
  antenna, and no other plan: a failure on one antenna never stops the
  others.\<close>

theorem on_timer_scans_every_antenna:
  assumes "on_timer api s = Inr s'"
  shows "\<exists>evs. trace s' = trace s @ evs \<and> plans_requested evs = map (\<lambda>a. [a]) (ants s)"
  using on_timer_Inr [OF assms] by blast

text \<open>C5: within a tick every read happens under an accepted single-antenna
  plan and every published message names the antenna of that plan: no EPC of
  one antenna is reported under another.\<close>

theorem on_timer_scoped:
  assumes "on_timer api s = Inr s'"
  shows "\<exists>evs. trace s' = trace s @ evs \<and> scoped None evs"
  using on_timer_Inr [OF assms] by blast

lemma scan_antenna_total:
  assumes "0 \<le> sint (max_tags s)" and "0 \<le> sint (epc_buf_size s)"
    and "reads_terminated api h s"
  shows "\<exists>s'. scan_antenna api h s a = Inr s'"
proof (cases "fst (api_set_read_plan api h [a] (-1) (world s)) = MERCURYAPI_OK")
  case True
  obtain d1 where p: "api_set_read_plan api h [a] (-1) (world s) = (MERCURYAPI_OK, d1)"
    using True by (cases "api_set_read_plan api h [a] (-1) (world s)") auto
  obtain rc c rows d2 where r:
    "api_read_epcs api h (node_storage s) (node_lens s) (max_tags s) (timeout_ms s) d1 = (rc, c, rows, d2)"
    by (cases "api_read_epcs api h (node_storage s) (node_lens s) (max_tags s) (timeout_ms s) d1") auto
  have ok: "rc = MERCURYAPI_OK \<longrightarrow> 0 < sint c \<longrightarrow>
             nat (sint c) \<le> nat (sint (max_tags s)) \<and> epcs_of rows (nat (sint c)) \<noteq> None"
    using assms(3) r unfolding reads_terminated_def by (metis nat_mono)
  show ?thesis
    using scan_antenna_read [OF p assms(1,2) r] ok by (auto simp: build_msg_take Let_def)
next
  case False
  then show ?thesis by (simp add: scan_antenna_def node_simps Let_def)
qed

text \<open>An induction principle for a loop that completes: if from every
  invariant state each antenna step completes, establishing a relation that
  composes along the antenna list and keeping the invariant, the loop
  completes with the composed relation.\<close>

lemma scan_ants_exists_induct:
  assumes "Q s"
    and nil: "\<And>s. R [] s s"
    and step: "\<And>s a. Q s \<Longrightarrow> \<exists>s'. scan_antenna api h s a = Inr s' \<and> R [a] s s' \<and> Q s'"
    and trans: "\<And>xs ys s1 s2 s3. R xs s1 s2 \<Longrightarrow> R ys s2 s3 \<Longrightarrow> R (xs @ ys) s1 s3"
  shows "\<exists>s'. scan_ants api h as s = Inr s' \<and> R as s s'"
  using assms(1)
proof (induction as arbitrary: s)
  case Nil
  then show ?case using nil by simp
next
  case (Cons a as)
  obtain s1 where s1: "scan_antenna api h s a = Inr s1" and r1: "R [a] s s1" and q1: "Q s1"
    using step [OF Cons.prems] by blast
  obtain s' where s': "scan_ants api h as s1 = Inr s'" and r2: "R as s1 s'"
    using Cons.IH [OF q1] by blast
  from s1 s' trans [OF r1 r2] show ?case by simp
qed

lemma node_cfg_eqs:
  assumes "node_cfg s' = node_cfg s"
  shows "node_storage s' = node_storage s" "node_lens s' = node_lens s" "max_tags s' = max_tags s"
    "epc_buf_size s' = epc_buf_size s" "timeout_ms s' = timeout_ms s"
    "reads_terminated api h s' = reads_terminated api h s"
  using assms by (simp_all add: node_cfg_def node_storage_def node_lens_def reads_terminated_def)

lemma scan_ants_total:
  assumes "0 \<le> sint (max_tags s)" and "0 \<le> sint (epc_buf_size s)"
    and "reads_terminated api h s"
  shows "\<exists>s'. scan_ants api h as s = Inr s'"
proof -
  have "\<exists>s'. scan_ants api h as s = Inr s' \<and> True"
  proof (rule scan_ants_exists_induct [where Q = "\<lambda>s1. node_cfg s1 = node_cfg s"])
    fix s1 :: "'a node" and a
    assume c: "node_cfg s1 = node_cfg s"
    note e = node_cfg_eqs [OF c]
    have "0 \<le> sint (max_tags s1)" and "0 \<le> sint (epc_buf_size s1)"
      and "reads_terminated api h s1"
      using assms unfolding e .
    then obtain s2 where t: "scan_antenna api h s1 a = Inr s2"
      by (blast dest: scan_antenna_total)
    moreover have "node_cfg s2 = node_cfg s" using scan_antenna_Inr [OF t] c by (elim exE conjE) simp
    ultimately show "\<exists>s2. scan_antenna api h s1 a = Inr s2 \<and> True \<and> node_cfg s2 = node_cfg s"
      by blast
  qed simp_all
  then show ?thesis by blast
qed

text \<open>C3: failure isolation.  With a handle, non-negative buffer sizes and a
  driver that reports at most \<open>max_tags_\<close> tags, each a terminated string in
  its slot (\<open>reads_terminated\<close>), a tick
  always completes, whatever the driver answers to the read-plan and read
  calls: rejected plans, read errors and empty reads are absorbed.\<close>

theorem on_timer_total:
  assumes "reader s = Some h"
    and "0 \<le> sint (max_tags s)" and "0 \<le> sint (epc_buf_size s)"
    and "reads_terminated api h s"
  shows "\<exists>s'. on_timer api s = Inr s'"
  using scan_ants_total [OF assms(2-4)] assms(1) by (simp add: on_timer_def)

text \<open>C10: a tick keeps the session invariant: the handle, the settings and
  the antenna list are untouched, and it acquires and releases no driver
  resource.\<close>

theorem on_timer_preserves_session:
  assumes "session_ready s" and "on_timer api s = Inr s'"
  shows "session_ready s' \<and> node_cfg s' = node_cfg s"
proof -
  obtain evs where "trace s' = trace s @ evs" "node_cfg s' = node_cfg s"
      "res_of (trace s') = res_of (trace s)"
    using on_timer_Inr [OF assms(2)] by blast
  with assms(1) show ?thesis by (auto simp: session_ready_def node_cfg_def)
qed

subsection \<open>State at the end of a tick, normal or exceptional\<close>

definition outcome_state :: "('e, 's) throws \<Rightarrow> 's" where
  "outcome_state r = (case r of Inl (e, s) \<Rightarrow> s | Inr s \<Rightarrow> s)"

lemma outcome_state_simps [simp]:
  "outcome_state (Inl (e, s)) = s" "outcome_state (Inr s) = s"
  by (simp_all add: outcome_state_def)

lemma scan_antenna_state:
  "\<exists>evs. trace (outcome_state (scan_antenna api h s a)) = trace s @ evs \<and>
     node_cfg (outcome_state (scan_antenna api h s a)) = node_cfg s \<and>
     res_of (trace (outcome_state (scan_antenna api h s a))) = res_of (trace s)"
  by (auto simp: scan_antenna_def node_simps node_cfg_def Let_def split: if_splits option.splits)

text \<open>An induction principle for the antenna loop: a relation between the
  state before and after a step, reflexive and transitive, that every
  antenna step establishes from states satisfying an invariant the completed
  steps keep, holds between the start and the end of the loop, normal or
  exceptional.\<close>

lemma scan_ants_outcome_induct:
  assumes "Q s"
    and refl: "\<And>s. Q s \<Longrightarrow> R s s"
    and step: "\<And>s a. Q s \<Longrightarrow> R s (outcome_state (scan_antenna api h s a))"
    and keep: "\<And>s a s'. Q s \<Longrightarrow> scan_antenna api h s a = Inr s' \<Longrightarrow> Q s'"
    and trans: "\<And>s1 s2 s3. R s1 s2 \<Longrightarrow> R s2 s3 \<Longrightarrow> R s1 s3"
  shows "R s (outcome_state (scan_ants api h as s))"
  using assms(1)
proof (induction as arbitrary: s)
  case Nil
  then show ?case by (simp add: refl)
next
  case (Cons a as)
  show ?case
  proof (cases "scan_antenna api h s a")
    case (Inl es)
    then show ?thesis using step [OF Cons.prems, of a] by (cases es) auto
  next
    case (Inr s1)
    then have "R s s1" using step [OF Cons.prems, of a] by simp
    moreover have "R s1 (outcome_state (scan_ants api h as s1))"
      using Cons.IH keep [OF Cons.prems Inr] by blast
    ultimately show ?thesis using Inr trans by simp
  qed
qed

text \<open>Likewise for the exception a loop can end with: if every antenna step
  from an invariant state throws only exceptions of a set \<open>E\<close>, so does the
  loop.\<close>

lemma scan_ants_error_induct:
  assumes "scan_ants api h as s = Inl (e, s')" and "Q s"
    and step: "\<And>s a e s'. Q s \<Longrightarrow> scan_antenna api h s a = Inl (e, s') \<Longrightarrow> e \<in> E"
    and keep: "\<And>s a s'. Q s \<Longrightarrow> scan_antenna api h s a = Inr s' \<Longrightarrow> Q s'"
  shows "e \<in> E"
  using assms(1,2)
proof (induction as arbitrary: s)
  case Nil
  then show ?case by simp
next
  case (Cons a as)
  show ?case
  proof (cases "scan_antenna api h s a")
    case (Inl es)
    with Cons.prems step show ?thesis by (cases es) auto
  next
    case (Inr s1)
    with Cons.prems keep show ?thesis by (auto intro: Cons.IH)
  qed
qed

lemma scan_ants_state:
  "\<exists>evs. trace (outcome_state (scan_ants api h as s)) = trace s @ evs \<and>
     node_cfg (outcome_state (scan_ants api h as s)) = node_cfg s \<and>
     res_of (trace (outcome_state (scan_ants api h as s))) = res_of (trace s)"
  by (rule scan_ants_outcome_induct [where Q = "\<lambda>_. True"]) (use scan_antenna_state in auto)

lemma on_timer_state:
  "\<exists>evs. trace (outcome_state (on_timer api s)) = trace s @ evs \<and>
     node_cfg (outcome_state (on_timer api s)) = node_cfg s \<and>
     res_of (trace (outcome_state (on_timer api s))) = res_of (trace s)"
  using scan_ants_state by (auto simp: on_timer_def split: option.splits)

end
