(* ===== verification/Node.thy ===== *)
theory Node
  imports ScanLoop
begin

text \<open>
  The process (\<open>main\<close>, lines 129-139 of \<open>rfid_tmreader_node.cpp\<close>):
  \<open>rclcpp::init\<close>, then \<open>rclcpp::spin\<close> on a freshly constructed node inside
  a \<open>try\<close> block, \<open>Fatal: <what>\<close> on standard error for any exception, then
  \<open>rclcpp::shutdown\<close> and exit status 0.  \<open>spin\<close> runs the timer callback
  once per firing; the process runs until it is interrupted, so \<open>spin\<close> takes
  the number of firings before the interrupt (after which \<open>rclcpp::spin\<close>
  returns).  The node is owned by the temporary \<open>shared_ptr\<close> of the spin
  call: it is destroyed when spin returns or throws, before the handler runs;
  a constructor that throws leaves no object to destroy.  A run that reaches
  undefined behaviour has no modelled outcome (\<open>None\<close>).
\<close>

fun spin :: "'d mercuryapi \<Rightarrow> nat \<Rightarrow> 'd node \<Rightarrow> (node_error, 'd node) throws" where
  "spin api 0 s = Inr s"
| "spin api (Suc n) s = tbind (on_timer api s) (spin api n)"

text \<open>\<open>e.what()\<close> of the exceptions that reach \<open>main\<close> (rclcpp's parameter
  message is abbreviated to its fixed prefix and the parameter name).\<close>

fun what_msg :: "node_error \<Rightarrow> string" where
  "what_msg (InvalidParameterType n) = ''parameter '' @ CHR 0x27 # n @ CHR 0x27 # '' has invalid type''"
| "what_msg (RuntimeError m) = m"
| "what_msg (InvalidArgument m) = m"
| "what_msg LengthError = ''cannot create std::vector larger than max_size()''"
| "what_msg UndefinedBehaviour = []"

definition fatal_line :: "node_error \<Rightarrow> string" where
  "fatal_line e = ''Fatal: '' @ what_msg e @ [CHR 0x0A]"

definition rfid_main ::
  "'d mercuryapi \<Rightarrow> param_overrides \<Rightarrow> 'd \<Rightarrow> nat \<Rightarrow> (int \<times> event list) option" where
  "rfid_main api ov d n =
     (case rfid_node_ctor api ov (node_init d [EvRclInit]) of
        Inl (e, s) \<Rightarrow>
          if e = UndefinedBehaviour then None
          else Some (0, trace s @ [EvStderr (fatal_line e), EvRclShutdown])
      | Inr s \<Rightarrow>
          (case spin api n s of
             Inl (e, s') \<Rightarrow>
               if e = UndefinedBehaviour then None
               else Some (0, trace (rfid_node_dtor api s') @ [EvStderr (fatal_line e), EvRclShutdown])
           | Inr s' \<Rightarrow> Some (0, trace (rfid_node_dtor api s') @ [EvRclShutdown])))"

subsection \<open>Lemmas\<close>

text \<open>The same principle for the timer firings of \<open>spin\<close>.\<close>

lemma spin_outcome_induct:
  assumes "Q s"
    and refl: "\<And>s. Q s \<Longrightarrow> R s s"
    and step: "\<And>s. Q s \<Longrightarrow> R s (outcome_state (on_timer api s))"
    and keep: "\<And>s s'. Q s \<Longrightarrow> on_timer api s = Inr s' \<Longrightarrow> Q s'"
    and trans: "\<And>s1 s2 s3. R s1 s2 \<Longrightarrow> R s2 s3 \<Longrightarrow> R s1 s3"
  shows "R s (outcome_state (spin api n s))"
  using assms(1)
proof (induction n arbitrary: s)
  case 0
  then show ?case by (simp add: refl)
next
  case (Suc n)
  show ?case
  proof (cases "on_timer api s")
    case (Inl es)
    then show ?thesis using step [OF Suc.prems] by (cases es) auto
  next
    case (Inr s1)
    then have "R s s1" using step [OF Suc.prems] by simp
    moreover have "R s1 (outcome_state (spin api n s1))"
      using Suc.IH keep [OF Suc.prems Inr] by blast
    ultimately show ?thesis using Inr trans by simp
  qed
qed

lemma spin_error_induct:
  assumes "spin api n s = Inl (e, s')" and "Q s"
    and step: "\<And>s e s'. Q s \<Longrightarrow> on_timer api s = Inl (e, s') \<Longrightarrow> e \<in> E"
    and keep: "\<And>s s'. Q s \<Longrightarrow> on_timer api s = Inr s' \<Longrightarrow> Q s'"
  shows "e \<in> E"
  using assms(1,2)
proof (induction n arbitrary: s)
  case 0
  then show ?case by simp
next
  case (Suc n)
  show ?case
  proof (cases "on_timer api s")
    case (Inl es)
    with Suc.prems step show ?thesis by (cases es) auto
  next
    case (Inr s1)
    with Suc.prems keep show ?thesis by (auto intro: Suc.IH)
  qed
qed

lemma spin_state:
  "\<exists>evs. trace (outcome_state (spin api n s)) = trace s @ evs \<and>
     node_cfg (outcome_state (spin api n s)) = node_cfg s \<and>
     res_of (trace (outcome_state (spin api n s))) = res_of (trace s)"
  by (rule spin_outcome_induct [where Q = "\<lambda>_. True"]) (use on_timer_state in auto)

lemma spin_session_ready:
  assumes "session_ready s"
  shows "session_ready (outcome_state (spin api n s))"
  using spin_state [of api n s] assms by (auto simp: session_ready_def node_cfg_def)

lemma leak_free_append_io:
  "leak_free (tr @ [EvStderr m, EvRclShutdown]) = leak_free tr"
  "leak_free (tr @ [EvRclShutdown]) = leak_free tr"
  by (simp_all add: leak_free_def)

text \<open>C15: a constructor failure reaches \<open>main\<close>, which writes one
  \<open>Fatal:\<close> line, shuts rclcpp down and exits with status 0: no tick runs, and
  the failure is not visible in the exit status.\<close>

theorem rfid_main_ctor_failure:
  assumes "rfid_node_ctor api ov (node_init d [EvRclInit]) = Inl (e, s)"
    and "e \<noteq> UndefinedBehaviour"
  shows "rfid_main api ov d n = Some (0, trace s @ [EvStderr (fatal_line e), EvRclShutdown])"
  using assms by (simp add: rfid_main_def)

text \<open>C14: a whole run of the process, however many timer firings it lasts
  and whatever the driver answers, ends holding no driver resource: the
  constructor unwinds its own failures, ticks acquire nothing, and the node's
  destruction after spin (normal or exceptional) disconnects and destroys
  the handle.  Hypotheses: \<open>create\<close> returns no handle with an error code,
  and the timer period is not negative (see C11).\<close>

theorem rfid_main_leak_free:
  assumes "rfid_main api ov d n = Some (c, tr)"
    and "fst (api_create api d) \<noteq> MERCURYAPI_OK \<longrightarrow> fst (snd (api_create api d)) = None"
    and "\<forall>p. load_params ov = Inr p \<longrightarrow> 0 \<le> sint (p_loop_sleep_ms p)"
  shows "c = 0 \<and> leak_free tr"
proof -
  let ?s0 = "node_init d [EvRclInit]"
  have r0: "res_of (trace ?s0) = no_resources" and w0: "world ?s0 = d"
    by (simp_all add: node_init_def res_of_def)
  show ?thesis
  proof (cases "rfid_node_ctor api ov ?s0")
    case (Inl es)
    then obtain e s where ctor: "rfid_node_ctor api ov ?s0 = Inl (e, s)" by (cases es) auto
    have "e \<noteq> InvalidArgument ''timer period cannot be negative''"
      using rfid_node_ctor_Inl_timer [of api ov ?s0 _ s] ctor assms(3) by force
    then have "leak_free (trace s)"
      using rfid_node_ctor_Inl_leak [OF ctor r0] assms(2) w0 by simp
    with ctor assms(1) show ?thesis
      by (auto simp: rfid_main_def leak_free_append_io split: if_splits)
  next
    case (Inr s)
    have "session_ready (outcome_state (spin api n s))"
      using spin_session_ready rfid_node_ctor_Inr_ready [OF Inr r0] by blast
    then have "leak_free (trace (rfid_node_dtor api (outcome_state (spin api n s))))"
      using session_ready_dtor by blast
    with Inr assms(1) show ?thesis
      by (auto simp: rfid_main_def leak_free_append_io split: sum.splits if_splits)
  qed
qed

text \<open>C31: an ill-typed parameter override stops the process before any
  other action: \<open>main\<close> writes one \<open>Fatal:\<close> line naming the parameter,
  shuts rclcpp down and exits with status 0; no publisher, no timer and no
  driver call is made.\<close>

theorem rfid_main_param_error:
  assumes "load_params ov = Inl e"
  shows "rfid_main api ov d n = Some (0, [EvRclInit, EvStderr (fatal_line e), EvRclShutdown])"
  using assms load_params_Inl [OF assms]
  by (auto simp: rfid_main_def rfid_node_ctor_def node_init_def)

end
