(* ===== verification/Contract.thy ===== *)
theory Contract
  imports Node
begin

text \<open>
  The driver's read contract (specification section 4.1, \<open>readEpcs\<close>) and
  what the node gets from it.  Given tag buffers whose number matches the
  maximum count and whose capacities are passed truthfully, the driver writes
  only inside the buffers (each keeps its length), and a successful read
  reports between 0 and \<open>maxTags\<close> tags, each slot it reports holding a
  terminator when the slot has room for one.  Under the contract the tick
  never reads past a buffer, so the node keeps running and \<open>main\<close> always
  returns, unless \<open>epc_buf_size\<close> is 0: then no slot has room for a
  terminator and the first tag read makes \<open>OnTimer\<close> read past its buffer.
\<close>

definition read_contract :: "'d mercuryapi \<Rightarrow> bool" where
  "read_contract api \<longleftrightarrow>
     (\<forall>h bufs lens mx tmo d rc c rows d'.
        api_read_epcs api h bufs lens mx tmo d = (rc, c, rows, d') \<longrightarrow>
        length bufs = nat (sint mx) \<longrightarrow> list_all2 (\<lambda>r l. sint l = int (length r)) bufs lens \<longrightarrow>
        list_all2 (\<lambda>r r'. length r' = length r) bufs rows \<and>
        (rc = MERCURYAPI_OK \<longrightarrow> 0 \<le> sint c \<and> sint c \<le> sint mx \<and>
           (\<forall>j < nat (sint c). bufs ! j \<noteq> [] \<longrightarrow> NUL \<in> set (rows ! j))))"

subsection \<open>Lemmas\<close>

text \<open>The node's buffers (lines 91-93) meet the contract's precondition.\<close>

lemma node_buffers_pre:
  assumes "0 \<le> sint (max_tags s)" and "0 \<le> sint (epc_buf_size s)"
  shows "length (node_storage s) = nat (sint (max_tags s))"
    and "list_all2 (\<lambda>r l. sint l = int (length r)) (node_storage s) (node_lens s)"
  using assms by (auto simp: node_storage_def node_lens_def list_all2_conv_all_nth)

lemma contract_reads_terminated:
  assumes "read_contract api" and "0 \<le> sint (max_tags s)" and "0 < sint (epc_buf_size s)"
  shows "reads_terminated api h s"
  unfolding reads_terminated_def
proof (intro allI impI)
  fix d rc c rows d'
  assume r: "api_read_epcs api h (node_storage s) (node_lens s) (max_tags s) (timeout_ms s) d =
               (rc, c, rows, d')" and ok: "rc = MERCURYAPI_OK" and pos: "0 < sint c"
  have "0 \<le> sint (epc_buf_size s)" using assms(3) by simp
  note pre = node_buffers_pre [OF assms(2) this]
  have len: "list_all2 (\<lambda>r r'. length r' = length r) (node_storage s) rows"
    and le: "sint c \<le> sint (max_tags s)"
    and nul: "\<forall>j < nat (sint c). node_storage s ! j \<noteq> [] \<longrightarrow> NUL \<in> set (rows ! j)"
    using assms(1) r pre ok unfolding read_contract_def by blast+
  have "length rows = nat (sint (max_tags s))"
    using len pre(1) by (simp add: list_all2_lengthD)
  moreover have "\<forall>j < nat (sint (max_tags s)). node_storage s ! j \<noteq> []"
    using assms(3) by (simp add: node_storage_def)
  ultimately show "sint c \<le> sint (max_tags s) \<and> epcs_of rows (nat (sint c)) \<noteq> None"
    using nul le pos by (auto simp: epcs_of_None_iff)
qed

lemma sint_pos_of_nonzero: "0 \<le> sint (x :: cint) \<Longrightarrow> x \<noteq> 0 \<Longrightarrow> 0 < sint x"
  by (simp add: order_le_less signed_eq_0_iff)

text \<open>Under the contract the only way a tick can fail is
  \<open>std::length_error\<close> from a negative size; undefined behaviour needs
  \<open>epc_buf_size = 0\<close>.\<close>

lemma scan_antenna_no_ub:
  assumes "read_contract api" and "epc_buf_size s \<noteq> 0"
  shows "scan_antenna api h s a \<noteq> Inl (UndefinedBehaviour, s')"
proof (cases "sint (max_tags s) < 0 \<or> sint (epc_buf_size s) < 0")
  case True
  then show ?thesis by (auto simp: scan_antenna_def node_simps Let_def)
next
  case False
  then have m: "0 \<le> sint (max_tags s)" and e: "0 < sint (epc_buf_size s)"
    using assms(2) sint_pos_of_nonzero by auto
  obtain s1 where "scan_antenna api h s a = Inr s1"
    using scan_antenna_total [OF m _ contract_reads_terminated [OF assms(1) m e]] e by fastforce
  then show ?thesis by simp
qed

lemma scan_ants_no_ub:
  assumes "read_contract api" and "epc_buf_size s \<noteq> 0"
  shows "scan_ants api h as s \<noteq> Inl (UndefinedBehaviour, s')"
proof
  assume "scan_ants api h as s = Inl (UndefinedBehaviour, s')"
  then have "UndefinedBehaviour \<in> - {UndefinedBehaviour}"
  proof (rule scan_ants_error_induct [where Q = "\<lambda>s. epc_buf_size s \<noteq> 0"])
    show "epc_buf_size s \<noteq> 0" by (rule assms(2))
  next
    fix s a e s'
    assume "epc_buf_size s \<noteq> 0" and "scan_antenna api h s a = Inl (e, s')"
    then show "e \<in> - {UndefinedBehaviour}" using scan_antenna_no_ub [OF assms(1)] by auto
  next
    fix s a s'
    assume "epc_buf_size s \<noteq> 0" and t: "scan_antenna api h s a = Inr s'"
    then show "epc_buf_size s' \<noteq> 0" using scan_antenna_Inr [OF t] by (auto simp: node_cfg_def)
  qed
  then show False by simp
qed

lemma spin_no_ub:
  assumes "read_contract api" and "reader s = Some h" and "epc_buf_size s \<noteq> 0"
  shows "spin api n s \<noteq> Inl (UndefinedBehaviour, s')"
proof
  assume "spin api n s = Inl (UndefinedBehaviour, s')"
  then have "UndefinedBehaviour \<in> - {UndefinedBehaviour}"
  proof (rule spin_error_induct [where Q = "\<lambda>s. reader s = Some h \<and> epc_buf_size s \<noteq> 0"])
    show "reader s = Some h \<and> epc_buf_size s \<noteq> 0" using assms(2,3) by simp
  next
    fix s e s'
    assume "reader s = Some h \<and> epc_buf_size s \<noteq> 0" and "on_timer api s = Inl (e, s')"
    then show "e \<in> - {UndefinedBehaviour}"
      using scan_ants_no_ub [OF assms(1), of s h "ants s"] by (auto simp: on_timer_def)
  next
    fix s s'
    assume "reader s = Some h \<and> epc_buf_size s \<noteq> 0" and t: "on_timer api s = Inr s'"
    then show "reader s' = Some h \<and> epc_buf_size s' \<noteq> 0"
      using on_timer_Inr [OF t] by (auto simp: node_cfg_def)
  qed
  then show False by simp
qed

lemma rfid_node_ctor_Inl_not_ub:
  assumes "rfid_node_ctor api ov s = Inl (e, s')"
  shows "e \<noteq> UndefinedBehaviour"
  using assms load_params_Inl [of ov]
  by (auto simp: rfid_node_ctor_def open_reader_def node_simps Let_def
           split: sum.splits if_splits option.splits)

subsection \<open>Buffer size, progress and return\<close>

text \<open>C23: with \<open>epc_buf_size = 0\<close> the buffers of line 91 are empty, so a
  driver that writes only within them leaves no terminator, and the first
  \<open>msg.data += ptrs[0]\<close> reads past the buffer as soon as a read
  reports a tag: undefined behaviour, whatever the tags are.\<close>

theorem scan_antenna_zero_buffer_ub:
  assumes "api_set_read_plan api h [a] (-1) (world s) = (MERCURYAPI_OK, d1)"
    and "0 \<le> sint (max_tags s)" and "epc_buf_size s = 0"
    and "api_read_epcs api h (node_storage s) (node_lens s) (max_tags s) (timeout_ms s) d1 =
           (MERCURYAPI_OK, c, rows, d2)"
    and "list_all2 (\<lambda>r r'. length r' = length r) (node_storage s) rows"
    and "0 < sint c"
  shows "\<exists>s'. scan_antenna api h s a = Inl (UndefinedBehaviour, s')"
proof -
  have "\<forall>r \<in> set rows. r = []"
    using assms(3,5) by (auto simp: node_storage_def list_all2_conv_all_nth in_set_conv_nth)
  then have "0 \<ge> length rows \<or> NUL \<notin> set (rows ! 0)"
    by (cases rows) auto
  then have "\<exists>j < nat (sint c). j \<ge> length rows \<or> NUL \<notin> set (rows ! j)"
    using assms(6) by (intro exI [of _ 0]) simp
  then have "epcs_of rows (nat (sint c)) = None"
    by (simp only: epcs_of_None_iff)
  then show ?thesis
    using scan_antenna_read [OF assms(1,2) _ assms(4)] assms(3,6) by (simp add: build_msg_take Let_def)
qed

text \<open>C24: under the driver's read contract, a ready node with
  non-negative tag slots of positive size keeps running: every number of
  timer firings completes, whatever the driver answers (rejected plans, read
  errors, empty reads).\<close>

theorem spin_progress:
  assumes "read_contract api" and "reader s = Some h"
    and "0 \<le> sint (max_tags s)" and "0 < sint (epc_buf_size s)"
  shows "\<exists>s'. spin api n s = Inr s'"
  using assms(2-4)
proof (induction n arbitrary: s)
  case 0
  then show ?case by simp
next
  case (Suc n)
  have "0 \<le> sint (epc_buf_size s)" using Suc.prems(3) by simp
  from scan_ants_total [OF Suc.prems(2) this contract_reads_terminated [OF assms(1) Suc.prems(2,3)]]
  obtain s1 where t: "on_timer api s = Inr s1"
    using Suc.prems(1) by (auto simp: on_timer_def)
  then have "node_cfg s1 = node_cfg s"
    using on_timer_Inr [OF t] by blast
  with t Suc.IH [of s1] Suc.prems show ?case by (simp add: node_cfg_def)
qed

text \<open>C25: under the driver's read contract, and unless the
  configured buffer size is 0, the process always reaches \<open>return 0\<close>:
  for every number of timer firings before the interrupt, \<open>main\<close> ends with
  an exit status and never runs into undefined behaviour.\<close>

theorem rfid_main_returns:
  assumes "read_contract api"
    and "\<forall>p. load_params ov = Inr p \<longrightarrow> p_epc_buf_size p \<noteq> 0"
  shows "\<exists>tr. rfid_main api ov d n = Some (0, tr)"
proof (cases "rfid_node_ctor api ov (node_init d [EvRclInit])")
  case (Inl es)
  then obtain e s where ctor: "rfid_node_ctor api ov (node_init d [EvRclInit]) = Inl (e, s)"
    by (cases es) auto
  with rfid_node_ctor_Inl_not_ub [OF ctor] show ?thesis by (simp add: rfid_main_def)
next
  case (Inr s)
  from rfid_node_ctor_Inr [OF Inr] obtain p h where
    "load_params ov = Inr p" "reader s = Some h" "epc_buf_size s = p_epc_buf_size p"
    by blast
  with assms(2) have r: "reader s = Some h" and e: "epc_buf_size s \<noteq> 0" by auto
  show ?thesis
  proof (cases "spin api n s")
    case (Inl es)
    then obtain e s' where sp: "spin api n s = Inl (e, s')" by (cases es) auto
    with spin_no_ub [OF assms(1) r e, of n s'] have "e \<noteq> UndefinedBehaviour" by auto
    with Inr sp show ?thesis by (simp add: rfid_main_def)
  next
    case (Inr s')
    with \<open>rfid_node_ctor api ov (node_init d [EvRclInit]) = Inr s\<close> show ?thesis
      by (simp add: rfid_main_def)
  qed
qed

end
