(* ===== verification/SimReader.thy ===== *)
theory SimReader
  imports Contract
begin

text \<open>
  A reference MercuryAPI driver, modelled from the driver contract the
  specification states (section 4.1; the driver is not part of the
  repository): \<open>create\<close> hands out fresh handles, \<open>set_read_plan\<close> records
  the antenna subset, \<open>read_epcs\<close> returns the tags in the field of the planned
  antennas, at most \<open>max_tags\<close> of them, each written into its buffer as a C
  string truncated to the buffer's capacity minus one, and the no-tag code
  when there is none.  Faults are injected per operation and antenna.  The
  driver is executable, so it serves as the concrete input of the
  witnesses.
\<close>

datatype sim_op = OpCreate | OpCreateLeaky | OpConnect | OpRegion | OpPlan cint | OpRead cint

record sim =
  sim_next :: handle
  sim_plan :: "cint list"
  sim_field :: "(cint \<times> string list) list"
  sim_fail :: "sim_op list"

definition field_of :: "sim \<Rightarrow> cint \<Rightarrow> string list" where
  "field_of d a = (case map_of (sim_field d) a of None \<Rightarrow> [] | Some ts \<Rightarrow> ts)"

definition sim_create :: "sim \<Rightarrow> mercuryapi_result \<times> handle option \<times> sim" where
  "sim_create d =
     (if OpCreate \<in> set (sim_fail d) then (MERCURYAPI_ERR 1, None, d)
      else if OpCreateLeaky \<in> set (sim_fail d)
      then (MERCURYAPI_ERR 1, Some (sim_next d), d\<lparr>sim_next := Suc (sim_next d)\<rparr>)
      else (MERCURYAPI_OK, Some (sim_next d), d\<lparr>sim_next := Suc (sim_next d)\<rparr>))"

definition sim_status :: "sim_op \<Rightarrow> sim \<Rightarrow> mercuryapi_result" where
  "sim_status op d = (if op \<in> set (sim_fail d) then MERCURYAPI_ERR 2 else MERCURYAPI_OK)"

definition sim_set_plan :: "cint list \<Rightarrow> sim \<Rightarrow> mercuryapi_result \<times> sim" where
  "sim_set_plan as d =
     (if list_ex (\<lambda>a. OpPlan a \<in> set (sim_fail d)) as then (MERCURYAPI_ERR 3, d)
      else (MERCURYAPI_OK, d\<lparr>sim_plan := as\<rparr>))"

text \<open>Writing a tag into a buffer of capacity \<open>length row\<close>: at most
  capacity minus one bytes, then the terminator; the rest is left as it was.\<close>

definition write_cstr :: "char list \<Rightarrow> string \<Rightarrow> char list" where
  "write_cstr row t =
     (if row = [] then row
      else take (length row - 1) t @ NUL # drop (Suc (min (length t) (length row - 1))) row)"

fun write_tags :: "string list \<Rightarrow> char list list \<Rightarrow> char list list" where
  "write_tags (t # ts) (r # rs) = write_cstr r t # write_tags ts rs"
| "write_tags _ rs = rs"

definition sim_read ::
  "char list list \<Rightarrow> cint \<Rightarrow> sim \<Rightarrow> mercuryapi_result \<times> cint \<times> char list list \<times> sim" where
  "sim_read bufs mx d =
     (if list_ex (\<lambda>a. OpRead a \<in> set (sim_fail d)) (sim_plan d) then (MERCURYAPI_ERR 4, 0, bufs, d)
      else
        (let tags = concat (map (field_of d) (sim_plan d));
             k = min (length tags) (nat (sint mx))
         in if k = 0 then (MERCURYAPI_NO_TAG, 0, bufs, d)
            else (MERCURYAPI_OK, word_of_int (int k), write_tags (take k tags) bufs, d)))"

definition sim_api :: "sim mercuryapi" where
  "sim_api =
     \<lparr>api_create = sim_create,
      api_connect = (\<lambda>h uri d. (sim_status OpConnect d, d)),
      api_set_region = (\<lambda>h rg d. (sim_status OpRegion d, d)),
      api_set_read_plan = (\<lambda>h as sess d. sim_set_plan as d),
      api_read_epcs = (\<lambda>h bufs lens mx tmo d. sim_read bufs mx d),
      api_disconnect = (\<lambda>h d. d),
      api_destroy = (\<lambda>h d. d)\<rparr>"

definition sim_world :: "(cint \<times> string list) list \<Rightarrow> sim_op list \<Rightarrow> sim" where
  "sim_world fld fl = \<lparr>sim_next = 1, sim_plan = [], sim_field = fld, sim_fail = fl\<rparr>"

lemmas sim_defs = sim_api_def sim_create_def sim_status_def sim_set_plan_def sim_read_def
  field_of_def write_cstr_def sim_world_def

lemma write_tags_replicate:
  "write_tags ts (replicate n r) = map (write_cstr r) (take n ts) @ replicate (n - length ts) r"
proof (induction ts arbitrary: n)
  case Nil
  then show ?case by (cases n) simp_all
next
  case (Cons t ts)
  then show ?case by (cases n) simp_all
qed

text \<open>The unfolding rules that evaluate a run of the node on this driver.\<close>

lemmas run_simps = rfid_main_def rfid_node_ctor_def load_params_def declare_int_def
  declare_string_def narrow_int_def open_reader_def node_simps sim_defs node_init_def Let_def
  on_timer_def scan_antenna_def build_msg_eq epcs_of_def slot_string_def c_string_def
  fmt_msg_def msg_header_def std_to_string_def dec_nat.simps digit_char_def
  node_storage_def node_lens_def rfid_node_dtor_def write_tags_replicate upt_conv_Cons
  nth_append

subsection \<open>The driver's read contract\<close>

lemma write_cstr_nul: "r \<noteq> [] \<Longrightarrow> NUL \<in> set (write_cstr r t)"
  by (simp add: write_cstr_def)

lemma sint_word_of_nat_small:
  "k \<le> nat (sint (mx::cint)) \<Longrightarrow> sint (word_of_int (int k) :: cint) = int k"
proof -
  assume k: "k \<le> nat (sint mx)"
  have "sint mx < 2 ^ 31" using sint_lt [of mx] by simp
  moreover have "int k \<le> max 0 (sint mx)" using k by auto
  ultimately have "int k < 2 ^ 31" by simp
  then show ?thesis using sint_sbintrunc' [of "int k", where 'a = 32] by (simp add: signed_take_bit_int_eq_self)
qed

lemma sim_read_terminated:
  assumes "0 < sz" and "sim_read (replicate (nat (sint mx)) (replicate sz NUL)) mx d = (rc, c, rows, d')"
    and "rc = MERCURYAPI_OK"
  shows "sint c \<le> sint mx \<and> epcs_of rows (nat (sint c)) \<noteq> None"
proof -
  define tags where "tags = concat (map (field_of d) (sim_plan d))"
  define k where "k = min (length tags) (nat (sint mx))"
  define B where "B = replicate (nat (sint mx)) (replicate sz NUL)"
  have nf: "\<not> list_ex (\<lambda>a. OpRead a \<in> set (sim_fail d)) (sim_plan d)"
    using assms(2,3) by (auto simp: sim_read_def split: if_splits)
  have eq: "sim_read B mx d =
      (if k = 0 then (MERCURYAPI_NO_TAG, 0, B, d)
       else (MERCURYAPI_OK, word_of_int (int k), write_tags (take k tags) B, d))"
    unfolding sim_read_def tags_def k_def using nf by (simp add: Let_def)
  have k0: "k \<noteq> 0" and c: "c = word_of_int (int k)" and rows: "rows = write_tags (take k tags) B"
    using assms(2,3) eq unfolding B_def by (auto split: if_splits)
  have kle: "k \<le> nat (sint mx)" by (simp add: k_def)
  have sc: "sint c = int k" using c sint_word_of_nat_small [OF kle] by simp
  moreover have "\<forall>j < k. j < length rows \<and> NUL \<in> set (rows ! j)"
    using assms(1) kle by (auto simp: rows B_def write_tags_replicate nth_append write_cstr_nul)
  moreover have "sint c \<le> sint mx" using sc kle k0 by linarith
  ultimately show ?thesis by (auto simp: epcs_of_None_iff)
qed
lemma write_cstr_length [simp]: "length (write_cstr r t) = length r"
  by (cases r) (auto simp: write_cstr_def min_def)

lemma write_tags_length [simp]: "length (write_tags ts rs) = length rs"
  by (induction ts rs rule: write_tags.induct) simp_all

lemma write_tags_nth:
  "j < length ts \<Longrightarrow> j < length rs \<Longrightarrow> write_tags ts rs ! j = write_cstr (rs ! j) (ts ! j)"
  by (induction ts rs arbitrary: j rule: write_tags.induct) (auto simp: nth_Cons split: nat.splits)

lemma write_tags_within: "list_all2 (\<lambda>r r'. length r' = length r) rs (write_tags ts rs)"
  by (induction ts rs rule: write_tags.induct) (auto simp: list_all2_conv_all_nth nth_Cons split: nat.splits)

text \<open>The reference driver keeps the read contract the node relies on.\<close>

lemma sim_read_contract: "read_contract sim_api"
  unfolding read_contract_def
proof (intro allI impI)
  fix h bufs lens mx tmo d rc c rows d'
  assume r: "api_read_epcs sim_api h bufs lens mx tmo d = (rc, c, rows, d')"
    and len: "length bufs = nat (sint mx)"
  define tags where "tags = concat (map (field_of d) (sim_plan d))"
  define k where "k = min (length tags) (nat (sint mx))"
  have refl: "list_all2 (\<lambda>r r'. length r' = length r) bufs bufs"
    by (simp add: list_all2_conv_all_nth)
  have sr: "sim_read bufs mx d = (rc, c, rows, d')" using r by (simp add: sim_api_def)
  have eq: "sim_read bufs mx d =
      (if list_ex (\<lambda>a. OpRead a \<in> set (sim_fail d)) (sim_plan d) then (MERCURYAPI_ERR 4, 0, bufs, d)
       else if k = 0 then (MERCURYAPI_NO_TAG, 0, bufs, d)
       else (MERCURYAPI_OK, word_of_int (int k), write_tags (take k tags) bufs, d))"
    unfolding sim_read_def tags_def k_def by (simp add: Let_def)
  show "list_all2 (\<lambda>r r'. length r' = length r) bufs rows \<and>
        (rc = MERCURYAPI_OK \<longrightarrow> 0 \<le> sint c \<and> sint c \<le> sint mx \<and>
           (\<forall>j < nat (sint c). bufs ! j \<noteq> [] \<longrightarrow> NUL \<in> set (rows ! j)))"
  proof (cases "list_ex (\<lambda>a. OpRead a \<in> set (sim_fail d)) (sim_plan d) \<or> k = 0")
    case True
    then have "rows = bufs \<and> rc \<noteq> MERCURYAPI_OK"
      using sr eq by (auto split: if_splits)
    with refl show ?thesis by simp
  next
    case False
    then have eq: "rc = MERCURYAPI_OK \<and> c = word_of_int (int k) \<and> rows = write_tags (take k tags) bufs"
      using sr eq by auto
    have kle: "k \<le> nat (sint mx)" by (simp add: k_def)
    have c: "sint c = int k" using eq sint_word_of_nat_small [OF kle] by simp
    have "int k \<le> sint mx" using kle False by linarith
    moreover have "\<forall>j < k. bufs ! j \<noteq> [] \<longrightarrow> NUL \<in> set (rows ! j)"
      using eq kle len by (auto simp: write_tags_nth k_def write_cstr_nul)
    ultimately show ?thesis using eq c write_tags_within [of bufs] by auto
  qed
qed

subsection \<open>Witnesses\<close>

text \<open>A constructed-looking node with two slots of eight bytes, antennas 1
  and 2, on a given driver state.\<close>

definition demo_node :: "sim \<Rightarrow> sim node" where
  "demo_node d =
     \<lparr>reader = Some 1, timeout_ms = 200, loop_sleep_ms = 100, max_tags = 2, epc_buf_size = 8,
      ants = [1, 2], world = d, trace = []\<rparr>"

definition field12 :: sim where
  "field12 = sim_world [(1, [''E1'', ''E2''])] []"

lemma demo_plan_ok:
  "api_set_read_plan sim_api 1 [a] (-1) (world (demo_node field12)) =
     (MERCURYAPI_OK, field12\<lparr>sim_plan := [a]\<rparr>)"
  by (simp add: sim_defs demo_node_def field12_def)

lemma demo_sizes: "0 \<le> sint (max_tags (demo_node d))" "0 \<le> sint (epc_buf_size (demo_node d))"
  by (simp_all add: demo_node_def)

theorem scan_antenna_publishes_exact_witness:
  "\<exists>s'. scan_antenna sim_api 1 (demo_node field12) 1 = Inr s' \<and>
     length [''E1'', ''E2''] = nat (sint (2 :: cint)) \<and>
     trace s' = trace (demo_node field12) @ [EvSetReadPlan 1 [1] (-1) MERCURYAPI_OK,
       EvReadEpcs 1 (max_tags (demo_node field12)) (timeout_ms (demo_node field12)) MERCURYAPI_OK 2,
       EvPublish (fmt_msg 1 2 [''E1'', ''E2''])]"
proof -
  let ?rows = "write_tags [''E1'', ''E2''] (node_storage (demo_node field12))"
  have r: "api_read_epcs sim_api 1 (node_storage (demo_node field12)) (node_lens (demo_node field12))
             (max_tags (demo_node field12)) (timeout_ms (demo_node field12)) (field12\<lparr>sim_plan := [1]\<rparr>) =
           (MERCURYAPI_OK, 2, ?rows, field12\<lparr>sim_plan := [1]\<rparr>)"
    by (simp add: sim_defs demo_node_def field12_def node_storage_def Let_def)
  have c: "0 < sint (2 :: cint)" by simp
  have e: "epcs_of ?rows (nat (sint (2 :: cint))) = Some [''E1'', ''E2'']"
    by (simp add: demo_node_def node_storage_def write_tags_replicate epcs_of_def slot_string_def
                  c_string_def write_cstr_def upt_conv_Cons nth_append)
  have m: "sint (2 :: cint) \<le> sint (max_tags (demo_node field12))" by (simp add: demo_node_def)
  show ?thesis by (rule scan_antenna_publishes_exact [OF demo_plan_ok demo_sizes r c m e])
qed

theorem scan_antenna_silent_witness:
  "\<exists>s'. scan_antenna sim_api 1 (demo_node field12) 2 = Inr s' \<and>
     trace s' = trace (demo_node field12) @ [EvSetReadPlan 1 [2] (-1) MERCURYAPI_OK,
       EvReadEpcs 1 (max_tags (demo_node field12)) (timeout_ms (demo_node field12)) MERCURYAPI_NO_TAG 0]"
proof -
  have r: "api_read_epcs sim_api 1 (node_storage (demo_node field12)) (node_lens (demo_node field12))
             (max_tags (demo_node field12)) (timeout_ms (demo_node field12)) (field12\<lparr>sim_plan := [2]\<rparr>) =
           (MERCURYAPI_NO_TAG, 0, node_storage (demo_node field12), field12\<lparr>sim_plan := [2]\<rparr>)"
    by (simp add: sim_defs demo_node_def field12_def)
  have n: "MERCURYAPI_NO_TAG \<noteq> MERCURYAPI_OK \<or> sint (0 :: cint) \<le> 0" by simp
  show ?thesis by (rule scan_antenna_silent [OF demo_plan_ok demo_sizes r n])
qed

theorem scan_antenna_plan_failure_witness:
  "scan_antenna sim_api 1 (demo_node (sim_world [] [OpPlan 1])) 1 =
     Inr ((demo_node (sim_world [] [OpPlan 1]))\<lparr>world := sim_world [] [OpPlan 1],
        trace := trace (demo_node (sim_world [] [OpPlan 1])) @ [EvSetReadPlan 1 [1] (-1) (MERCURYAPI_ERR 3)]\<rparr>)"
proof -
  have p: "api_set_read_plan sim_api 1 [1] (-1) (world (demo_node (sim_world [] [OpPlan 1]))) =
             (MERCURYAPI_ERR 3, sim_world [] [OpPlan 1])"
    by (simp add: sim_defs demo_node_def)
  show ?thesis by (rule scan_antenna_plan_failure [OF p]) simp
qed

theorem build_msg_roundtrip_witness:
  "build_msg 1 2 [''E1'' @ [NUL], ''E2'' @ [NUL, NUL]] = Some ''ant=1 count=2 E1 E2'' \<and>
   parse_msg ''ant=1 count=2 E1 E2'' = Some (1, 2, [''E1'', ''E2''])"
proof -
  have b: "build_msg 1 2 [''E1'' @ [NUL], ''E2'' @ [NUL, NUL]] = Some ''ant=1 count=2 E1 E2''"
    by (simp add: build_msg_eq epcs_of_def slot_string_def c_string_def upt_conv_Cons
                  fmt_msg_def std_to_string_def dec_nat.simps digit_char_def)
  have e: "epcs_of [''E1'' @ [NUL], ''E2'' @ [NUL, NUL]] (nat (sint (2 :: cint))) = Some [''E1'', ''E2'']"
    by (simp add: epcs_of_def slot_string_def c_string_def upt_conv_Cons)
  have "\<forall>e \<in> set [''E1'', ''E2'']. SP \<notin> set e" by simp
  from build_msg_roundtrip [OF b e this] b show ?thesis by simp
qed

text \<open>A faulty driver that reports more tags than it was given slots.\<close>

definition liar_api :: "sim mercuryapi" where
  "liar_api = sim_api\<lparr>api_read_epcs := (\<lambda>h bufs lens mx tmo d. (MERCURYAPI_OK, mx + 1, bufs, d))\<rparr>"

theorem scan_antenna_count_overflow_ub_witness:
  "\<exists>s'. scan_antenna liar_api 1 (demo_node field12) 1 = Inl (UndefinedBehaviour, s')"
proof -
  have p: "api_set_read_plan liar_api 1 [1] (-1) (world (demo_node field12)) =
             (MERCURYAPI_OK, field12\<lparr>sim_plan := [1]\<rparr>)"
    by (simp add: liar_api_def sim_defs demo_node_def field12_def)
  have r: "api_read_epcs liar_api 1 (node_storage (demo_node field12)) (node_lens (demo_node field12))
             (max_tags (demo_node field12)) (timeout_ms (demo_node field12)) (field12\<lparr>sim_plan := [1]\<rparr>) =
           (MERCURYAPI_OK, 3, node_storage (demo_node field12), field12\<lparr>sim_plan := [1]\<rparr>)"
    by (simp add: liar_api_def demo_node_def)
  have o: "sint (max_tags (demo_node field12)) < sint (3 :: cint)" by (simp add: demo_node_def)
  show ?thesis by (rule scan_antenna_count_overflow_ub [OF p demo_sizes r o])
qed

theorem scan_antenna_negative_size_throws_witness:
  "scan_antenna sim_api 1 ((demo_node field12)\<lparr>max_tags := -1\<rparr>) 1 =
     Inl (LengthError, (demo_node field12)\<lparr>max_tags := -1, world := field12\<lparr>sim_plan := [1]\<rparr>,
                          trace := [EvSetReadPlan 1 [1] (-1) MERCURYAPI_OK]\<rparr>)"
proof -
  have p: "api_set_read_plan sim_api 1 [1] (-1) (world ((demo_node field12)\<lparr>max_tags := -1\<rparr>)) =
             (MERCURYAPI_OK, field12\<lparr>sim_plan := [1]\<rparr>)"
    using demo_plan_ok by simp
  have n: "sint (max_tags ((demo_node field12)\<lparr>max_tags := -1\<rparr>)) < 0 \<or>
           sint (epc_buf_size ((demo_node field12)\<lparr>max_tags := -1\<rparr>)) < 0"
    by simp
  show ?thesis using scan_antenna_negative_size_throws [OF p n] by (simp add: demo_node_def)
qed

lemma demo_tick: "\<exists>s'. on_timer sim_api (demo_node field12) = Inr s'"
  by (simp add: on_timer_def demo_node_def field12_def scan_antenna_def node_simps sim_defs Let_def
                node_storage_def node_lens_def build_msg_eq write_tags_replicate epcs_of_def
                slot_string_def c_string_def upt_conv_Cons nth_append)

theorem on_timer_scans_every_antenna_witness:
  "\<exists>s' evs. on_timer sim_api (demo_node field12) = Inr s' \<and>
     trace s' = trace (demo_node field12) @ evs \<and> plans_requested evs = [[1], [2]]"
proof -
  obtain s' where t: "on_timer sim_api (demo_node field12) = Inr s'" using demo_tick by blast
  show ?thesis using on_timer_scans_every_antenna [OF t] t by (auto simp: demo_node_def)
qed

theorem on_timer_scoped_witness:
  "\<exists>s' evs. on_timer sim_api (demo_node field12) = Inr s' \<and>
     trace s' = trace (demo_node field12) @ evs \<and> scoped None evs"
proof -
  obtain s' where t: "on_timer sim_api (demo_node field12) = Inr s'" using demo_tick by blast
  show ?thesis using on_timer_scoped [OF t] t by blast
qed

theorem on_timer_total_witness:
  "\<exists>s'. on_timer sim_api (demo_node (sim_world [(1, [''E1''])] [OpPlan 2, OpRead 1])) = Inr s'"
proof -
  let ?s = "demo_node (sim_world [(1, [''E1''])] [OpPlan 2, OpRead 1])"
  have h: "reader ?s = Some 1" by (simp add: demo_node_def)
  have st: "node_storage ?s = replicate (nat (sint (max_tags ?s))) (replicate 8 NUL)"
    by (simp add: demo_node_def node_storage_def)
  have "reads_terminated sim_api 1 ?s"
    unfolding reads_terminated_def
  proof (intro allI impI)
    fix d rc c rows d'
    assume a: "api_read_epcs sim_api 1 (node_storage ?s) (node_lens ?s) (max_tags ?s) (timeout_ms ?s) d =
                 (rc, c, rows, d')" and ok: "rc = MERCURYAPI_OK"
    from a have "sim_read (replicate (nat (sint (max_tags ?s))) (replicate 8 NUL)) (max_tags ?s) d =
                   (rc, c, rows, d')"
      by (simp add: sim_api_def st)
    from sim_read_terminated [OF _ this ok]
    show "sint c \<le> sint (max_tags ?s) \<and> epcs_of rows (nat (sint c)) \<noteq> None" by simp
  qed
  then show ?thesis by (rule on_timer_total [OF h demo_sizes])
qed

text \<open>The node the constructor builds on the reference driver, with two tag
  slots of eight bytes.\<close>

definition small_ov :: param_overrides where
  "small_ov = [''max_tags'' \<mapsto> PInt 2, ''epc_buf_size'' \<mapsto> PInt 8]"

definition started :: "sim node" where
  "started =
     \<lparr>reader = Some 1, timeout_ms = 200, loop_sleep_ms = 100, max_tags = 2, epc_buf_size = 8,
      ants = [1, 2], world = field12\<lparr>sim_next := 2, sim_plan := [1, 2]\<rparr>,
      trace = [EvAdvertise ''rfid/tags'' 10, EvCreate MERCURYAPI_OK (Some 1),
               EvConnect 1 ''tmr:///dev/ttyUSB0'' MERCURYAPI_OK,
               EvSetRegion 1 MERCURYAPI_REGION_KR2 MERCURYAPI_OK,
               EvSetReadPlan 1 [1, 2] (-1) MERCURYAPI_OK, EvTimer 100,
               EvLogInfo (''RFID node started. uri='' @ ''tmr:///dev/ttyUSB0'')]\<rparr>"

lemma ctor_started: "rfid_node_ctor sim_api small_ov (node_init field12 []) = Inr started"
  by (simp add: run_simps small_ov_def started_def field12_def)

lemma init_no_resources: "res_of (trace (node_init d [])) = no_resources"
  by (simp add: node_init_def)

theorem rfid_node_ctor_success_trace_witness:
  "\<exists>p h. load_params small_ov = Inr p \<and> reader started = Some h \<and> ants started = [1, 2] \<and>
     max_tags started = p_max_tags p \<and> epc_buf_size started = p_epc_buf_size p \<and>
     timeout_ms started = p_timeout_ms p \<and>
     trace started = trace (node_init field12 []) @ [EvAdvertise ''rfid/tags'' 10,
       EvCreate MERCURYAPI_OK (Some h), EvConnect h (p_uri p) MERCURYAPI_OK,
       EvSetRegion h MERCURYAPI_REGION_KR2 MERCURYAPI_OK,
       EvSetReadPlan h [1, 2] (-1) MERCURYAPI_OK,
       EvTimer (p_loop_sleep_ms p), EvLogInfo (''RFID node started. uri='' @ p_uri p)]"
  by (rule rfid_node_ctor_success_trace [OF ctor_started])

theorem rfid_node_ctor_session_ready_witness: "session_ready started"
  by (rule rfid_node_ctor_session_ready [OF ctor_started init_no_resources])

lemma started_ready: "session_ready started"
  by (auto simp: session_ready_def started_def res_of_def no_resources_def)

lemma started_tick: "\<exists>s'. on_timer sim_api started = Inr s'"
  by (simp add: on_timer_def started_def field12_def scan_antenna_def node_simps sim_defs Let_def
                node_storage_def node_lens_def build_msg_eq write_tags_replicate epcs_of_def
                slot_string_def c_string_def upt_conv_Cons nth_append)

theorem on_timer_preserves_session_witness:
  "\<exists>s'. on_timer sim_api started = Inr s' \<and> session_ready s' \<and> node_cfg s' = node_cfg started"
proof -
  obtain s' where t: "on_timer sim_api started = Inr s'" using started_tick by blast
  show ?thesis using on_timer_preserves_session [OF started_ready t] t by blast
qed

theorem rfid_node_dtor_releases_witness:
  "\<exists>h. reader started = Some h \<and>
     trace (rfid_node_dtor sim_api started) = trace started @ [EvDisconnect h, EvDestroy h] \<and>
     reader (rfid_node_dtor sim_api started) = None \<and> leak_free (trace (rfid_node_dtor sim_api started))"
  by (rule rfid_node_dtor_releases [OF started_ready])

text \<open>A negative timer period: the constructor throws after the reader was
  configured, and the handle is left allocated and connected.\<close>

definition neg_sleep_ov :: param_overrides where
  "neg_sleep_ov = small_ov(''loop_sleep_ms'' \<mapsto> PInt (-5))"

lemma ctor_neg_sleep:
  "\<exists>s. rfid_node_ctor sim_api neg_sleep_ov (node_init field12 []) =
         Inl (InvalidArgument ''timer period cannot be negative'', s)"
  by (simp add: run_simps neg_sleep_ov_def small_ov_def field12_def)

lemma field12_create: "fst (api_create sim_api field12) = MERCURYAPI_OK"
  by (simp add: sim_defs field12_def)

theorem rfid_node_ctor_failure_leak_iff_witness:
  "\<exists>s. rfid_node_ctor sim_api neg_sleep_ov (node_init field12 []) =
         Inl (InvalidArgument ''timer period cannot be negative'', s) \<and> \<not> leak_free (trace s)"
proof -
  obtain s where c: "rfid_node_ctor sim_api neg_sleep_ov (node_init field12 []) =
                       Inl (InvalidArgument ''timer period cannot be negative'', s)"
    using ctor_neg_sleep by blast
  have "fst (api_create sim_api (world (node_init field12 []))) \<noteq> MERCURYAPI_OK \<longrightarrow>
        fst (snd (api_create sim_api (world (node_init field12 [])))) = None"
    using field12_create by (simp add: node_init_def)
  from rfid_node_ctor_failure_leak_iff [OF c init_no_resources this] c show ?thesis by blast
qed

theorem open_reader_create_error_leaks_witness:
  "\<exists>s'. open_reader sim_api ''tmr:///dev/ttyUSB0'' (node_init (sim_world [] [OpCreateLeaky]) []) =
          Inl (RuntimeError ''mercuryapi_reader_create failed'', s') \<and>
        reader s' = Some 1 \<and> 1 \<in> allocated (res_of (trace s'))"
proof -
  have "api_create sim_api (world (node_init (sim_world [] [OpCreateLeaky]) [])) =
          (MERCURYAPI_ERR 1, Some 1, (sim_world [] [OpCreateLeaky])\<lparr>sim_next := 2\<rparr>)"
    by (simp add: sim_defs node_init_def)
  then show ?thesis by (rule open_reader_create_error_leaks)
qed

theorem rfid_main_ctor_failure_witness:
  "\<exists>e s. rfid_node_ctor sim_api small_ov (node_init (sim_world [] [OpConnect]) [EvRclInit]) = Inl (e, s) \<and>
     rfid_main sim_api small_ov (sim_world [] [OpConnect]) 3 =
       Some (0, trace s @ [EvStderr (fatal_line e), EvRclShutdown])"
proof -
  obtain s where c: "rfid_node_ctor sim_api small_ov (node_init (sim_world [] [OpConnect]) [EvRclInit]) =
                       Inl (RuntimeError ''mercuryapi_reader_connect failed'', s)"
    by (simp add: run_simps small_ov_def)
  have "RuntimeError ''mercuryapi_reader_connect failed'' \<noteq> UndefinedBehaviour" by simp
  from rfid_main_ctor_failure [OF c this] c show ?thesis by blast
qed

theorem rfid_main_leak_free_witness:
  "\<exists>tr. rfid_main sim_api small_ov field12 (Suc (Suc 0)) = Some (0, tr) \<and> leak_free tr"
proof -
  have "\<exists>c tr. rfid_main sim_api small_ov field12 (Suc (Suc 0)) = Some (c, tr)"
    by (simp add: run_simps small_ov_def field12_def node_cfg_def
                  write_tags_replicate epcs_of_def slot_string_def upt_conv_Cons)
  then obtain c tr where m: "rfid_main sim_api small_ov field12 (Suc (Suc 0)) = Some (c, tr)"
    by blast
  have cr: "fst (api_create sim_api field12) \<noteq> MERCURYAPI_OK \<longrightarrow>
            fst (snd (api_create sim_api field12)) = None"
    using field12_create by simp
  have ls: "\<forall>p. load_params small_ov = Inr p \<longrightarrow> 0 \<le> sint (p_loop_sleep_ms p)"
    by (simp add: small_ov_def load_params_def declare_int_def declare_string_def narrow_int_def)
  from rfid_main_leak_free [OF m cr ls] m show ?thesis by blast
qed

end
