(* ===== verification/TickSpec.thy ===== *)
theory TickSpec
  imports Contract
begin

text \<open>
  The specification's per-tick algorithm (section 4.2) as an abstract
  program, and the refinement of \<open>OnTimer\<close> into it.  The abstract reader
  has the two operations the pseudocode uses: \<open>setReadPlan([a])\<close>, which
  succeeds or not, and \<open>readEpcs\<close>, which fails or returns a list of EPCs
  (possibly empty); both act on the reader's state \<open>'d\<close>.  The tick scans the
  antennas in order; for each one a rejected plan, a failed read or an empty
  read is silent, and a non-empty read publishes
  \<open>ant=<a> count=<k> <epc_1> ... <epc_k>\<close> with \<open>k\<close> the number of EPCs.
  \<open>abs_plan\<close> and \<open>abs_read\<close> read a concrete driver as such an abstract
  reader (the node's own buffers and settings fixed); the refinement theorem
  says that under the driver's read contract a tick of the node publishes
  exactly what the abstract tick publishes and leaves the driver in the
  state the abstract tick leaves it.  Over the abstract tick follow the
  bounds on what is published and the isolation of the antennas: for a
  reader whose answers for an antenna depend on that antenna only, each
  antenna contributes exactly the messages of its own answers.
\<close>

datatype read_outcome = ReadFailed | ReadTags "string list"

text \<open>The message of the specification (section 6), with the count taken
  from the EPCs themselves.\<close>

definition spec_msg :: "cint \<Rightarrow> string list \<Rightarrow> string" where
  "spec_msg a es =
     ''ant='' @ std_to_string (sint a) @ '' count='' @ std_to_string (int (length es)) @
     concat (map (\<lambda>e. SP # e) es)"

definition spec_antenna ::
  "('d \<Rightarrow> cint \<Rightarrow> bool \<times> 'd) \<Rightarrow> ('d \<Rightarrow> read_outcome \<times> 'd) \<Rightarrow> cint \<Rightarrow> 'd \<Rightarrow> string list \<times> 'd" where
  "spec_antenna plan read a d =
     (case plan d a of (ok, d1) \<Rightarrow>
        if \<not> ok then ([], d1)
        else (case read d1 of
                (ReadFailed, d2) \<Rightarrow> ([], d2)
              | (ReadTags es, d2) \<Rightarrow> (if es = [] then [] else [spec_msg a es], d2)))"

fun tick_spec ::
  "('d \<Rightarrow> cint \<Rightarrow> bool \<times> 'd) \<Rightarrow> ('d \<Rightarrow> read_outcome \<times> 'd) \<Rightarrow> cint list \<Rightarrow> 'd \<Rightarrow> string list \<times> 'd" where
  "tick_spec plan read [] d = ([], d)"
| "tick_spec plan read (a # as) d =
     (case spec_antenna plan read a d of (ms, d1) \<Rightarrow>
        (case tick_spec plan read as d1 of (ms', d2) \<Rightarrow> (ms @ ms', d2)))"

text \<open>What the specification publishes for one antenna, given whether its plan
  was accepted and what its read returned.\<close>

definition ant_msgs :: "cint \<Rightarrow> bool \<Rightarrow> read_outcome \<Rightarrow> string list" where
  "ant_msgs a ok r =
     (if ok then (case r of ReadFailed \<Rightarrow> [] | ReadTags es \<Rightarrow> if es = [] then [] else [spec_msg a es])
      else [])"

subsection \<open>The driver as an abstract reader\<close>

definition abs_plan :: "'d mercuryapi \<Rightarrow> handle \<Rightarrow> 'd \<Rightarrow> cint \<Rightarrow> bool \<times> 'd" where
  "abs_plan api h d a =
     (case api_set_read_plan api h [a] (-1) d of (rc, d1) \<Rightarrow> (rc = MERCURYAPI_OK, d1))"

text \<open>A read with the node's buffers and settings, its slots read through
  \<open>ptrs\<close> as lines 103-109 do.  A result the contract excludes (a count past
  the slots, a reported slot without a terminator) is read as a failure.\<close>

definition abs_read :: "'d mercuryapi \<Rightarrow> handle \<Rightarrow> 'd node \<Rightarrow> 'd \<Rightarrow> read_outcome \<times> 'd" where
  "abs_read api h s d =
     (case api_read_epcs api h (node_storage s) (node_lens s) (max_tags s) (timeout_ms s) d of
        (rc, c, rows, d2) \<Rightarrow>
          if rc \<noteq> MERCURYAPI_OK then (ReadFailed, d2)
          else if sint c \<le> 0 then (ReadTags [], d2)
          else (case epcs_of (take (nat (sint (max_tags s))) rows) (nat (sint c)) of
                  None \<Rightarrow> (ReadFailed, d2)
                | Some es \<Rightarrow> (ReadTags es, d2)))"

subsection \<open>Lemmas\<close>

lemma fmt_msg_spec_msg:
  assumes "epcs_of rows (nat (sint c)) = Some es" and "0 < sint c"
  shows "fmt_msg a c es = spec_msg a es"
proof -
  have "int (length es) = sint c" using epcs_of_length [OF assms(1)] assms(2) by simp
  then show ?thesis by (simp add: fmt_msg_def spec_msg_def)
qed

lemma abs_read_cfg:
  assumes "node_cfg s' = node_cfg s"
  shows "abs_read api h s' = abs_read api h s"
  unfolding abs_read_def node_cfg_eqs(1-3,5) [OF assms] ..

lemma scan_antenna_refines:
  assumes "0 \<le> sint (max_tags s)" and "0 \<le> sint (epc_buf_size s)"
    and "reads_terminated api h s"
  shows "\<exists>s' evs. scan_antenna api h s a = Inr s' \<and> trace s' = trace s @ evs \<and>
           (published evs, world s') = spec_antenna (abs_plan api h) (abs_read api h s) a (world s)"
proof (cases "api_set_read_plan api h [a] (-1) (world s)")
  case (Pair rc d1)
  show ?thesis
  proof (cases "rc = MERCURYAPI_OK")
    case False
    with Pair show ?thesis
      by (simp add: scan_antenna_def spec_antenna_def abs_plan_def node_simps)
  next
    case True
    obtain rc2 c rows d2 where r:
      "api_read_epcs api h (node_storage s) (node_lens s) (max_tags s) (timeout_ms s) d1 = (rc2, c, rows, d2)"
      by (cases "api_read_epcs api h (node_storage s) (node_lens s) (max_tags s) (timeout_ms s) d1") auto
    have p: "api_set_read_plan api h [a] (-1) (world s) = (MERCURYAPI_OK, d1)" using Pair True by simp
    have sp: "spec_antenna (abs_plan api h) (abs_read api h s) a (world s) =
                (if rc2 = MERCURYAPI_OK \<and> 0 < sint c
                 then (case epcs_of (take (nat (sint (max_tags s))) rows) (nat (sint c)) of
                         None \<Rightarrow> ([], d2)
                       | Some es \<Rightarrow> (if es = [] then [] else [spec_msg a es], d2))
                 else ([], d2))"
    proof -
      have ap: "abs_plan api h (world s) a = (True, d1)" by (simp add: abs_plan_def p)
      have ar: "abs_read api h s d1 =
                  (if rc2 \<noteq> MERCURYAPI_OK then (ReadFailed, d2)
                   else if sint c \<le> 0 then (ReadTags [], d2)
                   else (case epcs_of (take (nat (sint (max_tags s))) rows) (nat (sint c)) of
                           None \<Rightarrow> (ReadFailed, d2) | Some es \<Rightarrow> (ReadTags es, d2)))"
        by (simp add: abs_read_def r)
      show ?thesis
        by (cases "epcs_of (take (nat (sint (max_tags s))) rows) (nat (sint c))")
           (simp_all add: spec_antenna_def ap ar)
    qed
    show ?thesis
    proof (cases "rc2 = MERCURYAPI_OK \<and> 0 < sint c")
      case False
      with scan_antenna_read [OF p assms(1,2) r] sp show ?thesis
        by (auto simp: node_simps)
    next
      case True
      then have "sint c \<le> sint (max_tags s) \<and> epcs_of rows (nat (sint c)) \<noteq> None"
        using assms(3) r unfolding reads_terminated_def by blast
      then obtain es where "epcs_of rows (nat (sint c)) = Some es"
        and "nat (sint c) \<le> nat (sint (max_tags s))"
        by (auto simp: nat_mono)
      then have e: "epcs_of (take (nat (sint (max_tags s))) rows) (nat (sint c)) = Some es"
        by (simp add: epcs_of_take)
      have "es \<noteq> []" using epcs_of_length [OF e] True by auto
      with scan_antenna_read [OF p assms(1,2) r] sp True e fmt_msg_spec_msg [OF e, of a]
      show ?thesis by (auto simp: node_simps build_msg_eq)
    qed
  qed
qed

lemma tick_spec_append:
  "tick_spec plan read (xs @ ys) d =
     (case tick_spec plan read xs d of (ms, d1) \<Rightarrow>
        (case tick_spec plan read ys d1 of (ms', d2) \<Rightarrow> (ms @ ms', d2)))"
  by (induction xs arbitrary: d) (auto split: prod.splits)

lemma scan_ants_refines:
  assumes "0 \<le> sint (max_tags s)" and "0 \<le> sint (epc_buf_size s)"
    and "reads_terminated api h s"
  shows "\<exists>s' evs. scan_ants api h as s = Inr s' \<and> trace s' = trace s @ evs \<and>
           (published evs, world s') = tick_spec (abs_plan api h) (abs_read api h s) as (world s)"
proof -
  let ?R = "\<lambda>xs s1 s2. \<exists>evs. trace s2 = trace s1 @ evs \<and>
              (published evs, world s2) = tick_spec (abs_plan api h) (abs_read api h s) xs (world s1)"
  have "\<exists>s'. scan_ants api h as s = Inr s' \<and> ?R as s s'"
  proof (rule scan_ants_exists_induct [where Q = "\<lambda>s1. node_cfg s1 = node_cfg s" and R = ?R])
    fix s1 :: "'a node" and a
    assume c: "node_cfg s1 = node_cfg s"
    note e = node_cfg_eqs [OF c]
    have "0 \<le> sint (max_tags s1)" and "0 \<le> sint (epc_buf_size s1)"
      and "reads_terminated api h s1"
      using assms unfolding e .
    from scan_antenna_refines [OF this, of a] obtain s2 evs where
      t: "scan_antenna api h s1 a = Inr s2" and tr: "trace s2 = trace s1 @ evs"
      and sp: "(published evs, world s2) = spec_antenna (abs_plan api h) (abs_read api h s1) a (world s1)"
      by blast
    have "node_cfg s2 = node_cfg s" using scan_antenna_Inr [OF t] c by (elim exE conjE) simp
    moreover have "?R [a] s1 s2"
      using tr sp abs_read_cfg [OF c] by (auto split: prod.splits)
    ultimately show "\<exists>s2. scan_antenna api h s1 a = Inr s2 \<and> ?R [a] s1 s2 \<and> node_cfg s2 = node_cfg s"
      using t by blast
  next
    fix xs ys and s1 s2 s3 :: "'a node"
    assume "?R xs s1 s2" and "?R ys s2 s3"
    then obtain evs1 evs2 where
      e: "trace s2 = trace s1 @ evs1"
         "(published evs1, world s2) = tick_spec (abs_plan api h) (abs_read api h s) xs (world s1)"
         "trace s3 = trace s2 @ evs2"
         "(published evs2, world s3) = tick_spec (abs_plan api h) (abs_read api h s) ys (world s2)"
      by blast
    then show "?R (xs @ ys) s1 s3"
      by (intro exI [of _ "evs1 @ evs2"]) (simp add: tick_spec_append flip: e(2,4))
  qed simp_all
  then show ?thesis by blast
qed

text \<open>C26: refinement of the tick.  Under the driver's read contract, with a
  handle and non-negative slots of positive size, a tick of the node
  completes, and the messages it publishes and the driver state it leaves are
  those of the specification's per-tick algorithm run on the driver read as an
  abstract reader.\<close>

theorem on_timer_refines_tick_spec:
  assumes "read_contract api" and "reader s = Some h"
    and "0 \<le> sint (max_tags s)" and "0 < sint (epc_buf_size s)"
  shows "\<exists>s' evs. on_timer api s = Inr s' \<and> trace s' = trace s @ evs \<and>
           (published evs, world s') =
             tick_spec (abs_plan api h) (abs_read api h s) (ants s) (world s)"
proof -
  have "0 \<le> sint (epc_buf_size s)" using assms(4) by simp
  from scan_ants_refines [OF assms(3) this contract_reads_terminated [OF assms(1,3,4)]]
  show ?thesis using assms(2) by (simp add: on_timer_def)
qed

subsection \<open>What a tick publishes\<close>

text \<open>In the abstract tick every message names an antenna of the list and
  carries a non-empty list of EPCs that the reader returned.\<close>

lemma tick_spec_msgs:
  assumes "\<forall>d d' es. read d = (ReadTags es, d') \<longrightarrow> length es \<le> K"
  shows "\<forall>m \<in> set (fst (tick_spec plan read as d)).
           \<exists>a es. m = spec_msg a es \<and> a \<in> set as \<and> 0 < length es \<and> length es \<le> K"
proof (induction as arbitrary: d)
  case Nil
  then show ?case by simp
next
  case (Cons a as)
  obtain ms d1 where sa: "spec_antenna plan read a d = (ms, d1)"
    by (cases "spec_antenna plan read a d") auto
  obtain ms' d2 where ts: "tick_spec plan read as d1 = (ms', d2)"
    by (cases "tick_spec plan read as d1") auto
  have "\<forall>m \<in> set (fst (spec_antenna plan read a d)).
          \<exists>es. m = spec_msg a es \<and> 0 < length es \<and> length es \<le> K"
    using assms by (auto simp: spec_antenna_def split: prod.splits read_outcome.splits)
  then have A: "\<forall>m \<in> set ms. \<exists>es. m = spec_msg a es \<and> 0 < length es \<and> length es \<le> K"
    using sa by simp
  have B: "\<forall>m \<in> set ms'. \<exists>b es. m = spec_msg b es \<and> b \<in> set as \<and> 0 < length es \<and> length es \<le> K"
    using Cons.IH [of d1] ts by simp
  have fe: "fst (tick_spec plan read (a # as) d) = ms @ ms'" using sa ts by simp
  show ?case unfolding fe
  proof
    fix m
    assume "m \<in> set (ms @ ms')"
    then consider "m \<in> set ms" | "m \<in> set ms'" by auto
    then show "\<exists>b es. m = spec_msg b es \<and> b \<in> set (a # as) \<and> 0 < length es \<and> length es \<le> K"
    proof cases
      case 1
      then obtain es where "m = spec_msg a es" "0 < length es" "length es \<le> K" using A by blast
      then show ?thesis by auto
    next
      case 2
      then obtain b es where "m = spec_msg b es" "b \<in> set as" "0 < length es" "length es \<le> K"
        using B by blast
      then show ?thesis by auto
    qed
  qed
qed

lemma abs_read_bound:
  assumes "read_contract api" and "0 \<le> sint (max_tags s)" and "0 \<le> sint (epc_buf_size s)"
    and "abs_read api h s d = (ReadTags es, d')"
  shows "int (length es) \<le> sint (max_tags s)"
proof -
  obtain rc c rows d2 where r:
    "api_read_epcs api h (node_storage s) (node_lens s) (max_tags s) (timeout_ms s) d = (rc, c, rows, d2)"
    by (cases "api_read_epcs api h (node_storage s) (node_lens s) (max_tags s) (timeout_ms s) d") auto
  note pre = node_buffers_pre [OF assms(2,3)]
  show ?thesis
  proof (cases "rc = MERCURYAPI_OK \<and> 0 < sint c")
    case True
    then have e: "epcs_of (take (nat (sint (max_tags s))) rows) (nat (sint c)) = Some es"
      using assms(4) r by (auto simp: abs_read_def split: option.splits)
    have "sint c \<le> sint (max_tags s)"
      using assms(1) r pre True unfolding read_contract_def by blast
    with epcs_of_length [OF e] True show ?thesis by simp
  next
    case False
    then have "es = []" using assms(4) r by (auto simp: abs_read_def split: if_splits)
    with assms(2) show ?thesis by simp
  qed
qed

text \<open>C33: under the driver's read contract every message a tick publishes
  has the specified form for one of the configured antennas, with between 1
  and \<open>max_tags\<close> EPCs and \<open>count=\<close> their number: a saturated read is
  reported with \<open>count = max_tags\<close> and never more (section 4.2).\<close>

theorem on_timer_message_bounds:
  assumes "read_contract api" and "reader s = Some h"
    and "0 \<le> sint (max_tags s)" and "0 < sint (epc_buf_size s)"
  shows "\<exists>s' evs. on_timer api s = Inr s' \<and> trace s' = trace s @ evs \<and>
           (\<forall>m \<in> set (published evs). \<exists>a es. m = spec_msg a es \<and> a \<in> set (ants s) \<and>
              0 < length es \<and> int (length es) \<le> sint (max_tags s))"
proof -
  have e0: "0 \<le> sint (epc_buf_size s)" using assms(4) by simp
  obtain s' evs where sc: "scan_ants api h (ants s) s = Inr s'" and tr: "trace s' = trace s @ evs"
    and pw: "(published evs, world s') = tick_spec (abs_plan api h) (abs_read api h s) (ants s) (world s)"
    using scan_ants_refines [OF assms(3) e0 contract_reads_terminated [OF assms(1,3,4)], where as = "ants s"]
    by blast
  have t: "on_timer api s = Inr s'" using sc assms(2) by (simp add: on_timer_def)
  have p: "published evs = fst (tick_spec (abs_plan api h) (abs_read api h s) (ants s) (world s))"
    using pw by (metis fst_conv)
  have "\<forall>d d' es. abs_read api h s d = (ReadTags es, d') \<longrightarrow> length es \<le> nat (sint (max_tags s))"
    using abs_read_bound [OF assms(1,3) e0] by fastforce
  note msgs = tick_spec_msgs [OF this, of "abs_plan api h" "ants s" "world s"]
  have "\<forall>m \<in> set (published evs). \<exists>a es. m = spec_msg a es \<and> a \<in> set (ants s) \<and>
           0 < length es \<and> int (length es) \<le> sint (max_tags s)"
  proof
    fix m
    assume "m \<in> set (published evs)"
    then obtain a es where "m = spec_msg a es" "a \<in> set (ants s)" "0 < length es"
        "length es \<le> nat (sint (max_tags s))"
      using msgs p by auto
    moreover have "int (length es) \<le> sint (max_tags s)"
      using \<open>length es \<le> nat (sint (max_tags s))\<close> assms(3) by linarith
    ultimately show "\<exists>a es. m = spec_msg a es \<and> a \<in> set (ants s) \<and>
           0 < length es \<and> int (length es) \<le> sint (max_tags s)" by blast
  qed
  with t tr show ?thesis by blast
qed

subsection \<open>Isolation of the antennas\<close>

text \<open>When, on the reader states an invariant \<open>I\<close> describes, the answers
  for an antenna depend on that antenna only, the abstract tick publishes the
  messages of each antenna's own answers, in antenna order.\<close>

lemma spec_antenna_isolated:
  assumes "I d"
    and "\<forall>d a. I d \<longrightarrow> I (snd (plan d a)) \<and> (fst (plan d a) \<longrightarrow> I (snd (read (snd (plan d a)))))"
    and "\<forall>d a. I d \<longrightarrow> fst (plan d a) = ok a \<and> (ok a \<longrightarrow> fst (read (snd (plan d a))) = res a)"
  shows "fst (spec_antenna plan read a d) = ant_msgs a (ok a) (res a) \<and>
         I (snd (spec_antenna plan read a d))"
proof -
  obtain b d1 where p: "plan d a = (b, d1)" by (cases "plan d a") auto
  have b: "b = ok a" and i1: "I d1" using assms p by (metis fst_conv snd_conv)+
  show ?thesis
  proof (cases "ok a")
    case False
    with p b i1 show ?thesis by (simp add: spec_antenna_def ant_msgs_def)
  next
    case True
    obtain r d2 where rd: "read d1 = (r, d2)" by (cases "read d1") auto
    have "r = res a" and "I d2" using assms True p b rd by (metis fst_conv snd_conv)+
    with p b rd True show ?thesis
      by (simp add: spec_antenna_def ant_msgs_def split: read_outcome.splits)
  qed
qed

lemma tick_spec_isolated:
  assumes "I d"
    and "\<forall>d a. I d \<longrightarrow> I (snd (plan d a)) \<and> (fst (plan d a) \<longrightarrow> I (snd (read (snd (plan d a)))))"
    and "\<forall>d a. I d \<longrightarrow> fst (plan d a) = ok a \<and> (ok a \<longrightarrow> fst (read (snd (plan d a))) = res a)"
  shows "fst (tick_spec plan read as d) = concat (map (\<lambda>a. ant_msgs a (ok a) (res a)) as)"
  using assms(1)
proof (induction as arbitrary: d)
  case Nil
  then show ?case by simp
next
  case (Cons a as)
  obtain ms d1 where sa: "spec_antenna plan read a d = (ms, d1)"
    by (cases "spec_antenna plan read a d") auto
  with spec_antenna_isolated [OF Cons.prems assms(2,3), of a]
  have "ms = ant_msgs a (ok a) (res a)" and "I d1" by simp_all
  moreover obtain ms' d2 where "tick_spec plan read as d1 = (ms', d2)"
    by (cases "tick_spec plan read as d1") auto
  ultimately show ?case using sa Cons.IH [of d1] by simp
qed

text \<open>C36: isolation of the antennas (section 8).  Under the driver's read
  contract, for a driver whose answers to the plan and the read of an
  antenna depend on that antenna only (on the driver states an invariant
  \<open>I\<close> describes), a tick publishes, in antenna order, exactly the messages
  each antenna's own answers determine: what the driver answers for one
  antenna has no effect on the messages of another.\<close>

theorem on_timer_antenna_isolation:
  assumes "read_contract api" and "reader s = Some h"
    and "0 \<le> sint (max_tags s)" and "0 < sint (epc_buf_size s)"
    and "I (world s)"
    and "\<forall>d a. I d \<longrightarrow> I (snd (abs_plan api h d a)) \<and>
           (fst (abs_plan api h d a) \<longrightarrow> I (snd (abs_read api h s (snd (abs_plan api h d a)))))"
    and "\<forall>d a. I d \<longrightarrow> fst (abs_plan api h d a) = ok a \<and>
           (ok a \<longrightarrow> fst (abs_read api h s (snd (abs_plan api h d a))) = res a)"
  shows "\<exists>s' evs. on_timer api s = Inr s' \<and> trace s' = trace s @ evs \<and>
           published evs = concat (map (\<lambda>a. ant_msgs a (ok a) (res a)) (ants s))"
proof -
  have e0: "0 \<le> sint (epc_buf_size s)" using assms(4) by simp
  obtain s' evs where sc: "scan_ants api h (ants s) s = Inr s'" and tr: "trace s' = trace s @ evs"
    and pw: "(published evs, world s') = tick_spec (abs_plan api h) (abs_read api h s) (ants s) (world s)"
    using scan_ants_refines [OF assms(3) e0 contract_reads_terminated [OF assms(1,3,4)], where as = "ants s"]
    by blast
  have "published evs = fst (tick_spec (abs_plan api h) (abs_read api h s) (ants s) (world s))"
    using pw by (metis fst_conv)
  also have "\<dots> = concat (map (\<lambda>a. ant_msgs a (ok a) (res a)) (ants s))"
    by (rule tick_spec_isolated [OF assms(5-7)])
  finally show ?thesis using sc tr assms(2) by (simp add: on_timer_def)
qed

end
