(* ===== verification/Timing.thy ===== *)
theory Timing
  imports ScanLoop
begin

text \<open>
  The timing discipline of the specification (section 5): \<open>readEpcs\<close>
  blocks for at most its timeout, so a tick over \<open>N\<close> antennas blocks for at
  most \<open>N * timeoutMs\<close>, which the configuration should keep below the timer
  period \<open>loopSleepMs\<close>.  The observable part is the list of timeouts the
  node passes to the driver's read calls (line 101): a completed tick makes
  at most one read per antenna, each with the configured \<open>timeout_ms_\<close>, and
  exactly one read per accepted read plan, so the bound is reached whenever
  the driver accepts the plans.  The source's default configuration breaks
  the discipline: two antennas with a 200 ms timeout give a worst case of
  400 ms against a 100 ms period.
\<close>

fun read_timeouts :: "event list \<Rightarrow> cint list" where
  "read_timeouts [] = []"
| "read_timeouts (EvReadEpcs h m t rc c # es) = t # read_timeouts es"
| "read_timeouts (_ # es) = read_timeouts es"

text \<open>The worst-case blocking time of the reads of a trace, in ms.\<close>

definition blocking_bound :: "event list \<Rightarrow> int" where
  "blocking_bound es = sum_list (map sint (read_timeouts es))"

text \<open>The number of read-plan calls of a trace that the driver accepted.\<close>

fun accepted_plans :: "event list \<Rightarrow> nat" where
  "accepted_plans [] = 0"
| "accepted_plans (EvSetReadPlan h as sess rc # es) =
     (if rc = MERCURYAPI_OK then Suc (accepted_plans es) else accepted_plans es)"
| "accepted_plans (_ # es) = accepted_plans es"

subsection \<open>Lemmas\<close>

lemma read_timeouts_append [simp]:
  "read_timeouts (xs @ ys) = read_timeouts xs @ read_timeouts ys"
  by (induction xs rule: read_timeouts.induct) simp_all

lemma accepted_plans_append [simp]:
  "accepted_plans (xs @ ys) = accepted_plans xs + accepted_plans ys"
  by (induction xs rule: accepted_plans.induct) simp_all

lemma scan_antenna_reads_accepted:
  assumes "scan_antenna api h s a = Inr s'"
  shows "\<exists>evs. trace s' = trace s @ evs \<and> read_timeouts evs = replicate (accepted_plans evs) (timeout_ms s)"
  using assms
  by (auto simp: scan_antenna_def node_simps Let_def split: if_splits option.splits)

lemma scan_ants_reads_accepted:
  assumes "scan_ants api h as s = Inr s'"
  shows "\<exists>evs. trace s' = trace s @ evs \<and> read_timeouts evs = replicate (accepted_plans evs) (timeout_ms s)"
proof (rule scan_ants_Inr_induct [OF assms, where Q = "\<lambda>s1. timeout_ms s1 = timeout_ms s"
    and R = "\<lambda>xs s1 s2. \<exists>evs. trace s2 = trace s1 @ evs \<and>
               read_timeouts evs = replicate (accepted_plans evs) (timeout_ms s)"])
  fix s1 a s2
  assume q: "timeout_ms s1 = timeout_ms s" and t: "scan_antenna api h s1 a = Inr s2"
  have "timeout_ms s2 = timeout_ms s1"
    using scan_antenna_Inr [OF t] by (auto simp: node_cfg_def)
  with scan_antenna_reads_accepted [OF t] q
  show "(\<exists>evs. trace s2 = trace s1 @ evs \<and>
           read_timeouts evs = replicate (accepted_plans evs) (timeout_ms s)) \<and> timeout_ms s2 = timeout_ms s"
    by simp
next
  fix xs ys :: "cint list" and s1 s2 s3 :: "'a node"
  assume "\<exists>evs. trace s2 = trace s1 @ evs \<and> read_timeouts evs = replicate (accepted_plans evs) (timeout_ms s)"
    and "\<exists>evs. trace s3 = trace s2 @ evs \<and> read_timeouts evs = replicate (accepted_plans evs) (timeout_ms s)"
  then show "\<exists>evs. trace s3 = trace s1 @ evs \<and>
          read_timeouts evs = replicate (accepted_plans evs) (timeout_ms s)"
    by (elim exE conjE) (intro exI, auto simp: replicate_add)
qed simp_all

lemma scan_antenna_reads:
  assumes "scan_antenna api h s a = Inr s'"
  shows "\<exists>evs. trace s' = trace s @ evs \<and> read_timeouts evs \<in> {[], [timeout_ms s]}"
  using assms
  by (auto simp: scan_antenna_def node_simps Let_def split: if_splits option.splits)

lemma scan_ants_reads:
  assumes "scan_ants api h as s = Inr s'"
  shows "\<exists>evs. trace s' = trace s @ evs \<and> set (read_timeouts evs) \<subseteq> {timeout_ms s} \<and>
           length (read_timeouts evs) \<le> length as"
proof (rule scan_ants_Inr_induct [OF assms, where Q = "\<lambda>s1. timeout_ms s1 = timeout_ms s"
    and R = "\<lambda>xs s1 s2. \<exists>evs. trace s2 = trace s1 @ evs \<and>
               set (read_timeouts evs) \<subseteq> {timeout_ms s} \<and> length (read_timeouts evs) \<le> length xs"])
  fix s1 a s2
  assume q: "timeout_ms s1 = timeout_ms s" and t: "scan_antenna api h s1 a = Inr s2"
  obtain evs where "trace s2 = trace s1 @ evs" "read_timeouts evs \<in> {[], [timeout_ms s1]}"
    using scan_antenna_reads [OF t] by blast
  moreover have "timeout_ms s2 = timeout_ms s1"
    using scan_antenna_Inr [OF t] by (auto simp: node_cfg_def)
  ultimately show "(\<exists>evs. trace s2 = trace s1 @ evs \<and> set (read_timeouts evs) \<subseteq> {timeout_ms s} \<and>
           length (read_timeouts evs) \<le> length [a]) \<and> timeout_ms s2 = timeout_ms s"
    using q by auto
next
  fix xs ys :: "cint list" and s1 s2 s3 :: "'a node"
  assume "\<exists>evs. trace s2 = trace s1 @ evs \<and> set (read_timeouts evs) \<subseteq> {timeout_ms s} \<and>
            length (read_timeouts evs) \<le> length xs"
    and "\<exists>evs. trace s3 = trace s2 @ evs \<and> set (read_timeouts evs) \<subseteq> {timeout_ms s} \<and>
            length (read_timeouts evs) \<le> length ys"
  then show "\<exists>evs. trace s3 = trace s1 @ evs \<and> set (read_timeouts evs) \<subseteq> {timeout_ms s} \<and>
          length (read_timeouts evs) \<le> length (xs @ ys)"
    by (elim exE conjE) (intro exI, auto)
qed simp_all

lemma sum_list_const_bound:
  assumes "set xs \<subseteq> {t}" and "length xs \<le> n" and "0 \<le> t"
  shows "sum_list xs \<le> int n * t"
proof -
  have "xs = replicate (length xs) t"
    using assms(1) by (auto simp: replicate_length_same [symmetric] intro: replicate_eqI)
  then have "sum_list xs = int (length xs) * t" by (metis sum_list_replicate of_nat_mult mult.commute)
  also have "\<dots> \<le> int n * t" using assms(2,3) by (simp add: mult_right_mono)
  finally show ?thesis .
qed

subsection \<open>The blocking time of a tick\<close>

text \<open>C27: a completed tick makes at most one read call per configured
  antenna, each with the configured timeout, so with a non-negative timeout
  its reads block for at most \<open>N * timeout_ms\<close> (the bound of section 5).\<close>

theorem on_timer_blocking_bound:
  assumes "on_timer api s = Inr s'" and "0 \<le> sint (timeout_ms s)"
  shows "\<exists>evs. trace s' = trace s @ evs \<and> length (read_timeouts evs) \<le> length (ants s) \<and>
           blocking_bound evs \<le> int (length (ants s)) * sint (timeout_ms s)"
proof -
  obtain h where "scan_ants api h (ants s) s = Inr s'"
    using assms(1) by (auto simp: on_timer_def split: option.splits)
  from scan_ants_reads [OF this] obtain evs where
    e: "trace s' = trace s @ evs" "set (read_timeouts evs) \<subseteq> {timeout_ms s}"
       "length (read_timeouts evs) \<le> length (ants s)"
    by blast
  have "set (map sint (read_timeouts evs)) \<subseteq> {sint (timeout_ms s)}" using e(2) by auto
  from sum_list_const_bound [OF this _ assms(2)] e(3)
  have "blocking_bound evs \<le> int (length (ants s)) * sint (timeout_ms s)"
    by (simp add: blocking_bound_def)
  with e show ?thesis by blast
qed

text \<open>C28: the bound of C27 is reached.  A completed tick makes exactly one
  read per read plan the driver accepted, each with the configured timeout,
  so its reads may block for \<open>timeout_ms\<close> times the accepted plans: with every
  plan accepted, \<open>N * timeout_ms\<close>.  With the source's defaults (two antennas,
  200 ms) that is 400 ms per tick against a timer period of 100 ms.\<close>

theorem on_timer_blocking_exact:
  assumes "on_timer api s = Inr s'"
  shows "\<exists>evs. trace s' = trace s @ evs \<and>
           read_timeouts evs = replicate (accepted_plans evs) (timeout_ms s) \<and>
           blocking_bound evs = int (accepted_plans evs) * sint (timeout_ms s)"
proof -
  obtain h where "scan_ants api h (ants s) s = Inr s'"
    using assms by (auto simp: on_timer_def split: option.splits)
  from scan_ants_reads_accepted [OF this] obtain evs where
    e: "trace s' = trace s @ evs" "read_timeouts evs = replicate (accepted_plans evs) (timeout_ms s)"
    by blast
  then have "blocking_bound evs = int (accepted_plans evs) * sint (timeout_ms s)"
    by (simp add: blocking_bound_def sum_list_replicate)
  with e show ?thesis by blast
qed

end
