(* ===== verification/Handles.thy ===== *)
theory Handles
  imports Node
begin

text \<open>
  The handle discipline of the reader session (specification section 4.1: one
  exclusively owned handle, released exactly once).  \<open>handle_safe\<close> reads a
  trace with the handle that is live at each point: \<open>create\<close> makes the
  handle it returns live (only when none is), \<open>destroy\<close> must name the live
  handle and ends it, and every other driver call must name the live handle.
  So a safe trace has no call before \<open>create\<close>, no call on a destroyed or
  foreign handle, and no second \<open>destroy\<close>.  The node keeps \<open>reader_\<close>
  equal to the live handle of its trace, and every run of \<open>main\<close> is safe.
\<close>

fun handle_safe :: "handle option \<Rightarrow> event list \<Rightarrow> bool" where
  "handle_safe l [] = True"
| "handle_safe l (EvCreate rc h # es) = (l = None \<and> handle_safe h es)"
| "handle_safe l (EvDestroy h # es) = (l = Some h \<and> handle_safe None es)"
| "handle_safe l (EvConnect h u rc # es) = (l = Some h \<and> handle_safe l es)"
| "handle_safe l (EvSetRegion h r rc # es) = (l = Some h \<and> handle_safe l es)"
| "handle_safe l (EvSetReadPlan h as sess rc # es) = (l = Some h \<and> handle_safe l es)"
| "handle_safe l (EvReadEpcs h m t rc c # es) = (l = Some h \<and> handle_safe l es)"
| "handle_safe l (EvDisconnect h # es) = (l = Some h \<and> handle_safe l es)"
| "handle_safe l (_ # es) = handle_safe l es"

fun live_after :: "handle option \<Rightarrow> event list \<Rightarrow> handle option" where
  "live_after l [] = l"
| "live_after l (EvCreate rc h # es) = live_after h es"
| "live_after l (EvDestroy h # es) = live_after None es"
| "live_after l (_ # es) = live_after l es"

text \<open>The session's handle invariant: the trace is safe and \<open>reader_\<close> is its
  live handle.\<close>

definition handle_inv :: "'d node \<Rightarrow> bool" where
  "handle_inv s \<longleftrightarrow> handle_safe None (trace s) \<and> live_after None (trace s) = reader s"

subsection \<open>Lemmas\<close>

lemma handle_safe_append [simp]:
  "handle_safe l (xs @ ys) \<longleftrightarrow> handle_safe l xs \<and> handle_safe (live_after l xs) ys"
  by (induction l xs rule: handle_safe.induct) simp_all

lemma live_after_append [simp]: "live_after l (xs @ ys) = live_after (live_after l xs) ys"
  by (induction l xs rule: live_after.induct) simp_all

lemma node_init_handle_inv: "handle_inv (node_init d [EvRclInit])"
  by (simp add: handle_inv_def node_init_def)

lemma rfid_node_ctor_handle_inv:
  assumes "handle_inv s" and "reader s = None"
  shows "handle_inv (outcome_state (rfid_node_ctor api ov s))"
  using assms
  by (auto simp: handle_inv_def rfid_node_ctor_def open_reader_def node_simps Let_def
           split: sum.splits if_splits option.splits)

lemma scan_antenna_handle_inv:
  assumes "handle_inv s" and "reader s = Some h"
  shows "handle_inv (outcome_state (scan_antenna api h s a))"
  using assms
  by (auto simp: handle_inv_def scan_antenna_def node_simps Let_def split: if_splits option.splits)

lemma scan_ants_handle_inv:
  assumes "handle_inv s" and "reader s = Some h"
  shows "handle_inv (outcome_state (scan_ants api h as s))"
proof (rule scan_ants_outcome_induct [where Q = "\<lambda>s. handle_inv s \<and> reader s = Some h"
                                       and R = "\<lambda>_ s'. handle_inv s'"])
  fix s a s'
  assume "handle_inv s \<and> reader s = Some h" and "scan_antenna api h s a = Inr s'"
  then show "handle_inv s' \<and> reader s' = Some h"
    using scan_antenna_handle_inv [of s h api a] scan_antenna_Inr [of api h s a s']
    by (auto simp: node_cfg_def)
qed (use assms scan_antenna_handle_inv in auto)

lemma spin_handle_inv:
  assumes "handle_inv s" and "reader s = Some h"
  shows "handle_inv (outcome_state (spin api n s))"
proof (rule spin_outcome_induct [where Q = "\<lambda>s. handle_inv s \<and> reader s = Some h"
                                   and R = "\<lambda>_ s'. handle_inv s'"])
  show "\<And>s. handle_inv s \<and> reader s = Some h \<Longrightarrow> handle_inv (outcome_state (on_timer api s))"
    using scan_ants_handle_inv by (auto simp: on_timer_def)
  show "\<And>s s'. handle_inv s \<and> reader s = Some h \<Longrightarrow> on_timer api s = Inr s' \<Longrightarrow>
          handle_inv s' \<and> reader s' = Some h"
  proof -
    fix s s'
    assume q: "handle_inv s \<and> reader s = Some h" and t: "on_timer api s = Inr s'"
    then show "handle_inv s' \<and> reader s' = Some h"
      using scan_ants_handle_inv [of s h api "ants s"] on_timer_Inr [OF t]
      by (auto simp: on_timer_def node_cfg_def)
  qed
qed (use assms in auto)

lemma rfid_node_dtor_handle_inv:
  assumes "handle_inv s"
  shows "handle_inv (rfid_node_dtor api s) \<and> reader (rfid_node_dtor api s) = None"
  using assms by (auto simp: handle_inv_def rfid_node_dtor_def node_simps split: option.splits)

text \<open>C34: every run of the process keeps the handle discipline: no driver
  call before \<open>create\<close>, every call on the handle \<open>create\<close> returned, no
  call after \<open>destroy\<close> and no second \<open>destroy\<close>, whether the constructor,
  a tick or nothing throws.\<close>

theorem rfid_main_handle_safe:
  assumes "rfid_main api ov d n = Some (c, tr)"
  shows "handle_safe None tr"
proof (cases "rfid_node_ctor api ov (node_init d [EvRclInit])")
  case (Inl es)
  then obtain e s where ctor: "rfid_node_ctor api ov (node_init d [EvRclInit]) = Inl (e, s)"
    by (cases es) auto
  have "handle_inv s"
    using rfid_node_ctor_handle_inv [OF node_init_handle_inv, of d api ov] ctor
    by (simp add: node_init_def)
  with ctor assms show ?thesis
    by (auto simp: rfid_main_def handle_inv_def split: if_splits)
next
  case (Inr s)
  have i0: "handle_inv s"
    using rfid_node_ctor_handle_inv [OF node_init_handle_inv, of d api ov] Inr
    by (simp add: node_init_def)
  obtain p h where "reader s = Some h"
    using rfid_node_ctor_Inr [OF Inr] by blast
  from spin_handle_inv [OF i0 this, of api n]
  have "handle_inv (rfid_node_dtor api (outcome_state (spin api n s)))"
    using rfid_node_dtor_handle_inv by blast
  with Inr assms show ?thesis
    by (auto simp: rfid_main_def handle_inv_def split: sum.splits if_splits)
qed

end
