(* ===== verification/SimRuns.thy ===== *)
theory SimRuns
  imports SimReader TickSpec Timing Handles
begin

text \<open>
  Runs of the node on the reference driver for the theorems that rest on the
  driver's read contract: the contract holds for the reference driver
  (\<open>sim_read_contract\<close>), so these runs instantiate the contract theorems.
\<close>

subsection \<open>The driver contract\<close>

theorem scan_antenna_zero_buffer_ub_witness:
  "\<exists>s'. scan_antenna sim_api 1 ((demo_node field12)\<lparr>epc_buf_size := 0\<rparr>) 1 =
          Inl (UndefinedBehaviour, s')"
proof -
  let ?s = "(demo_node field12)\<lparr>epc_buf_size := 0\<rparr>"
  let ?rows = "write_tags [''E1'', ''E2''] (node_storage ?s)"
  have p: "api_set_read_plan sim_api 1 [1] (-1) (world ?s) = (MERCURYAPI_OK, field12\<lparr>sim_plan := [1]\<rparr>)"
    using demo_plan_ok by simp
  have m: "0 \<le> sint (max_tags ?s)" by (simp add: demo_node_def)
  have z: "epc_buf_size ?s = 0" by simp
  have r: "api_read_epcs sim_api 1 (node_storage ?s) (node_lens ?s) (max_tags ?s) (timeout_ms ?s)
             (field12\<lparr>sim_plan := [1]\<rparr>) = (MERCURYAPI_OK, 2, ?rows, field12\<lparr>sim_plan := [1]\<rparr>)"
    by (simp add: sim_defs demo_node_def field12_def node_storage_def Let_def)
  have w: "list_all2 (\<lambda>r r'. length r' = length r) (node_storage ?s) ?rows"
    by (rule write_tags_within)
  have c: "0 < sint (2 :: cint)" by simp
  show ?thesis by (rule scan_antenna_zero_buffer_ub [OF p m z r w c])
qed

theorem spin_progress_witness: "\<exists>s'. spin sim_api 3 started = Inr s'"
proof -
  have "reader started = Some 1" "0 \<le> sint (max_tags started)" "0 < sint (epc_buf_size started)"
    by (simp_all add: started_def)
  from spin_progress [OF sim_read_contract this] show ?thesis .
qed

theorem rfid_main_returns_witness: "\<exists>tr. rfid_main sim_api small_ov field12 5 = Some (0, tr)"
proof -
  have "\<forall>p. load_params small_ov = Inr p \<longrightarrow> p_epc_buf_size p \<noteq> 0"
    by (simp add: small_ov_def load_params_def declare_int_def declare_string_def narrow_int_def)
  from rfid_main_returns [OF sim_read_contract this] show ?thesis .
qed

subsection \<open>The tick specification\<close>

lemma started_tick_spec:
  "fst (tick_spec (abs_plan sim_api 1) (abs_read sim_api 1 started) (ants started) (world started)) =
     [''ant=1 count=2 E1 E2'']"
  by (simp add: started_def field12_def abs_plan_def abs_read_def spec_antenna_def spec_msg_def
                sim_defs Let_def node_storage_def node_lens_def write_tags_replicate epcs_of_def
                slot_string_def c_string_def upt_conv_Cons nth_append std_to_string_def
                dec_nat.simps digit_char_def)

theorem on_timer_refines_tick_spec_witness:
  "\<exists>s' evs. on_timer sim_api started = Inr s' \<and> trace s' = trace started @ evs \<and>
     (published evs, world s') =
       tick_spec (abs_plan sim_api 1) (abs_read sim_api 1 started) (ants started) (world started) \<and>
     published evs = [''ant=1 count=2 E1 E2'']"
proof -
  have "reader started = Some 1" "0 \<le> sint (max_tags started)" "0 < sint (epc_buf_size started)"
    by (simp_all add: started_def)
  from on_timer_refines_tick_spec [OF sim_read_contract this] started_tick_spec
  show ?thesis by (metis fst_conv)
qed

theorem on_timer_message_bounds_witness:
  "\<exists>s' evs. on_timer sim_api started = Inr s' \<and> trace s' = trace started @ evs \<and>
     (\<forall>m \<in> set (published evs). \<exists>a es. m = spec_msg a es \<and> a \<in> set (ants started) \<and>
        0 < length es \<and> int (length es) \<le> sint (max_tags started))"
proof -
  have "reader started = Some 1" "0 \<le> sint (max_tags started)" "0 < sint (epc_buf_size started)"
    by (simp_all add: started_def)
  from on_timer_message_bounds [OF sim_read_contract this] show ?thesis .
qed

text \<open>The reference driver's plan call only records the plan, and its read
  leaves its state alone.\<close>

lemma sim_abs_plan:
  "sim_fail d = [] \<Longrightarrow> abs_plan sim_api h d a = (True, d\<lparr>sim_plan := [a]\<rparr>)"
  by (simp add: abs_plan_def sim_api_def sim_set_plan_def)

lemma sim_abs_read_state: "snd (abs_read sim_api h s d) = d"
  by (simp add: abs_read_def sim_api_def sim_read_def Let_def split: prod.splits option.splits)

theorem on_timer_antenna_isolation_witness:
  "\<exists>s' evs. on_timer sim_api started = Inr s' \<and> trace s' = trace started @ evs \<and>
     published evs = concat (map (\<lambda>a. ant_msgs a True
        (fst (abs_read sim_api 1 started (field12\<lparr>sim_next := 2, sim_plan := [a]\<rparr>)))) (ants started)) \<and>
     published evs = [''ant=1 count=2 E1 E2'']"
proof -
  let ?I = "\<lambda>d. \<exists>p. d = field12\<lparr>sim_next := 2, sim_plan := p\<rparr>"
  let ?res = "\<lambda>a. fst (abs_read sim_api 1 started (field12\<lparr>sim_next := 2, sim_plan := [a]\<rparr>))"
  have h: "reader started = Some 1" "0 \<le> sint (max_tags started)" "0 < sint (epc_buf_size started)"
    by (simp_all add: started_def)
  have i: "?I (world started)" by (auto simp: started_def)
  have c: "\<forall>d a. ?I d \<longrightarrow> ?I (snd (abs_plan sim_api 1 d a)) \<and>
      (fst (abs_plan sim_api 1 d a) \<longrightarrow> ?I (snd (abs_read sim_api 1 started (snd (abs_plan sim_api 1 d a)))))"
    by (auto simp: sim_abs_plan sim_abs_read_state field12_def sim_world_def)
  have r: "\<forall>d a. ?I d \<longrightarrow> fst (abs_plan sim_api 1 d a) = True \<and>
      (True \<longrightarrow> fst (abs_read sim_api 1 started (snd (abs_plan sim_api 1 d a))) = ?res a)"
    by (auto simp: sim_abs_plan field12_def sim_world_def)
  have v: "concat (map (\<lambda>a. ant_msgs a True (?res a)) (ants started)) = [''ant=1 count=2 E1 E2'']"
    by (simp add: started_def field12_def abs_read_def ant_msgs_def spec_msg_def
                  sim_defs Let_def node_storage_def node_lens_def write_tags_replicate epcs_of_def
                  slot_string_def c_string_def upt_conv_Cons nth_append std_to_string_def
                  dec_nat.simps digit_char_def)
  from on_timer_antenna_isolation [OF sim_read_contract h i c r] v show ?thesis by auto
qed

subsection \<open>Timing\<close>

lemma started_tick_reads:
  "blocking_bound (drop (length (trace started)) (trace (projr (on_timer sim_api started)))) = 400"
  by (simp add: on_timer_def started_def field12_def scan_antenna_def node_simps sim_defs Let_def
                node_storage_def node_lens_def build_msg_eq write_tags_replicate epcs_of_def
                slot_string_def c_string_def upt_conv_Cons nth_append blocking_bound_def)

theorem on_timer_blocking_bound_witness:
  "\<exists>s' evs. on_timer sim_api started = Inr s' \<and> trace s' = trace started @ evs \<and>
     length (read_timeouts evs) \<le> length (ants started) \<and>
     blocking_bound evs \<le> int (length (ants started)) * sint (timeout_ms started) \<and>
     blocking_bound evs = 400"
proof -
  obtain s' where t: "on_timer sim_api started = Inr s'" using started_tick by blast
  have "0 \<le> sint (timeout_ms started)" by (simp add: started_def)
  from on_timer_blocking_bound [OF t this] obtain evs where
    e: "trace s' = trace started @ evs" "length (read_timeouts evs) \<le> length (ants started)"
       "blocking_bound evs \<le> int (length (ants started)) * sint (timeout_ms started)"
    by blast
  have "blocking_bound evs = 400" using started_tick_reads t e(1) by simp
  with t e show ?thesis by blast
qed

lemma started_tick_plans:
  "accepted_plans (drop (length (trace started)) (trace (projr (on_timer sim_api started)))) = 2"
  by (simp add: on_timer_def started_def field12_def scan_antenna_def node_simps sim_defs Let_def
                node_storage_def node_lens_def build_msg_eq write_tags_replicate epcs_of_def
                slot_string_def c_string_def upt_conv_Cons nth_append)

theorem on_timer_blocking_exact_witness:
  "\<exists>s' evs. on_timer sim_api started = Inr s' \<and> trace s' = trace started @ evs \<and>
     accepted_plans evs = 2 \<and> read_timeouts evs = [200, 200] \<and> blocking_bound evs = 400 \<and>
     sint (loop_sleep_ms started) = 100"
proof -
  obtain s' where t: "on_timer sim_api started = Inr s'" using started_tick by blast
  from on_timer_blocking_exact [OF t] obtain evs where
    e: "trace s' = trace started @ evs" "read_timeouts evs = replicate (accepted_plans evs) (timeout_ms started)"
       "blocking_bound evs = int (accepted_plans evs) * sint (timeout_ms started)"
    by blast
  have a: "accepted_plans evs = 2" using started_tick_plans t e(1) by simp
  have "read_timeouts evs = [200, 200]" using e(2) a by (simp add: started_def numeral_2_eq_2)
  moreover have "blocking_bound evs = 400" using e(3) a by (simp add: started_def)
  ultimately show ?thesis using t e(1) a by (simp add: started_def)
qed

subsection \<open>Configuration errors\<close>

theorem rfid_main_param_error_witness:
  "rfid_main sim_api [''uri'' \<mapsto> PInt 3] field12 1 =
     Some (0, [EvRclInit, EvStderr (fatal_line (InvalidParameterType ''uri'')), EvRclShutdown]) \<and>
   fatal_line (InvalidParameterType ''uri'') = ''Fatal: parameter '' @ CHR 0x27 # ''uri'' @ CHR 0x27 # '' has invalid type'' @ [CHR 0x0A]"
proof -
  have "load_params [''uri'' \<mapsto> PInt 3] = Inl (InvalidParameterType ''uri'')"
    by (simp add: load_params_def declare_string_def)
  from rfid_main_param_error [OF this] show ?thesis by (simp add: fatal_line_def)
qed

subsection \<open>Handle discipline\<close>

theorem rfid_main_handle_safe_witness:
  "\<exists>tr. rfid_main sim_api small_ov field12 (Suc (Suc 0)) = Some (0, tr) \<and> handle_safe None tr"
proof -
  have "\<exists>tr. rfid_main sim_api small_ov field12 (Suc (Suc 0)) = Some (0, tr)"
    by (simp add: run_simps small_ov_def field12_def node_cfg_def
                  write_tags_replicate epcs_of_def slot_string_def upt_conv_Cons)
  then obtain tr where m: "rfid_main sim_api small_ov field12 (Suc (Suc 0)) = Some (0, tr)" by blast
  from rfid_main_handle_safe [OF m] m show ?thesis by blast
qed

end
