(* ===== verification/Lifecycle.thy ===== *)
theory Lifecycle
  imports Contract
begin

text \<open>
  The node's lifecycle as a state machine (specification section 4.2: a single
  running state, entered after construction succeeds, left only by process
  termination).  A phase is the process before construction (with the
  driver's initial state), the running node, or the exited process with its
  complete event trace.  \<open>lifecycle\<close> has one rule per way the program moves:
  construction succeeds or throws, a timer firing completes or throws, or the
  process is interrupted; an exit destroys the node as \<open>main\<close> does.  The
  reachable phases are those reachable from \<open>Booting\<close>; every reachable
  running phase is a ready session and every reachable exit holds no driver
  resource.  \<open>rfid_main\<close> is shown to be one path of this relation, and,
  under the driver's read contract, every reachable running phase can take a
  timer firing and stay running.
\<close>

datatype 'd phase = Booting 'd | Running "'d node" | Exited "event list"

inductive lifecycle :: "'d mercuryapi \<Rightarrow> param_overrides \<Rightarrow> 'd phase \<Rightarrow> 'd phase \<Rightarrow> bool"
  for api ov where
  construct:
    "rfid_node_ctor api ov (node_init d [EvRclInit]) = Inr s \<Longrightarrow>
     lifecycle api ov (Booting d) (Running s)"
| construct_fail:
    "rfid_node_ctor api ov (node_init d [EvRclInit]) = Inl (e, s) \<Longrightarrow> e \<noteq> UndefinedBehaviour \<Longrightarrow>
     lifecycle api ov (Booting d) (Exited (trace s @ [EvStderr (fatal_line e), EvRclShutdown]))"
| tick:
    "on_timer api s = Inr s' \<Longrightarrow> lifecycle api ov (Running s) (Running s')"
| tick_fail:
    "on_timer api s = Inl (e, s') \<Longrightarrow> e \<noteq> UndefinedBehaviour \<Longrightarrow>
     lifecycle api ov (Running s)
       (Exited (trace (rfid_node_dtor api s') @ [EvStderr (fatal_line e), EvRclShutdown]))"
| interrupt:
    "lifecycle api ov (Running s) (Exited (trace (rfid_node_dtor api s) @ [EvRclShutdown]))"

inductive_cases lifecycle_ExitedE: "lifecycle api ov (Exited tr) q"
inductive_cases lifecycle_RunningE: "lifecycle api ov (Running s) q"
inductive_cases lifecycle_BootingE: "lifecycle api ov (Booting d) q"

inductive reachable_phase :: "'d mercuryapi \<Rightarrow> param_overrides \<Rightarrow> 'd \<Rightarrow> 'd phase \<Rightarrow> bool"
  for api ov d where
  start: "reachable_phase api ov d (Booting d)"
| step: "reachable_phase api ov d p \<Longrightarrow> lifecycle api ov p q \<Longrightarrow> reachable_phase api ov d q"

text \<open>What each phase must satisfy.\<close>

fun phase_ok :: "'d phase \<Rightarrow> bool" where
  "phase_ok (Booting d) = True"
| "phase_ok (Running s) = session_ready s"
| "phase_ok (Exited tr) = leak_free tr"

subsection \<open>Lemmas\<close>

lemma exited_final: "\<not> lifecycle api ov (Exited tr) q"
  by (auto elim: lifecycle_ExitedE)

lemma reachable_booting: "reachable_phase api ov d p \<Longrightarrow> p = Booting d' \<Longrightarrow> d' = d"
  by (induction rule: reachable_phase.induct) (auto elim: lifecycle.cases)

lemma on_timer_ready:
  assumes "session_ready s"
  shows "session_ready (outcome_state (on_timer api s))"
  using on_timer_state [of api s] assms by (auto simp: session_ready_def node_cfg_def)

text \<open>One step from a phase that is fine leads to a phase that is fine, under
  the two hypotheses of the whole-run theorem about the initial driver state
  and the parameters.\<close>

lemma lifecycle_phase_ok:
  assumes "lifecycle api ov p q" and "phase_ok p"
    and "\<And>d'. p = Booting d' \<Longrightarrow>
           fst (api_create api d') \<noteq> MERCURYAPI_OK \<longrightarrow> fst (snd (api_create api d')) = None"
    and "\<forall>p. load_params ov = Inr p \<longrightarrow> 0 \<le> sint (p_loop_sleep_ms p)"
  shows "phase_ok q"
  using assms
proof (induction rule: lifecycle.induct)
  case (construct d s)
  have "res_of (trace (node_init d [EvRclInit])) = no_resources"
    by (simp add: node_init_def res_of_def)
  with construct.hyps show ?case by (simp add: rfid_node_ctor_Inr_ready)
next
  case (construct_fail d e s)
  have r0: "res_of (trace (node_init d [EvRclInit])) = no_resources"
    by (simp add: node_init_def res_of_def)
  have cr: "fst (api_create api (world (node_init d [EvRclInit]))) \<noteq> MERCURYAPI_OK \<longrightarrow>
            fst (snd (api_create api (world (node_init d [EvRclInit])))) = None"
    using construct_fail.prems(2) by (simp add: node_init_def)
  have "e \<noteq> InvalidArgument ''timer period cannot be negative''"
    using rfid_node_ctor_Inl_timer [of api ov _ _ s] construct_fail.hyps(1) construct_fail.prems(3)
    by force
  with rfid_node_ctor_Inl_leak [OF construct_fail.hyps(1) r0 cr] show ?case
    by (simp add: leak_free_append_io)
next
  case (tick s s')
  then show ?case using on_timer_ready [of s api] by simp
next
  case (tick_fail s e s')
  then have "session_ready s'" using on_timer_ready [of s api] by simp
  then show ?case using session_ready_dtor [of s' api] by (auto simp: leak_free_append_io)
next
  case (interrupt s)
  then show ?case using session_ready_dtor [of s api] by (auto simp: leak_free_append_io)
qed

text \<open>C21: every phase reachable from the start satisfies its invariant: a
  running node is a ready session (one allocated, connected, configured
  handle), and an exited process holds no driver resource; by rule induction
  over the reachable phases, under the hypotheses of C14.\<close>

theorem reachable_phase_invariant:
  assumes "reachable_phase api ov d p"
    and "fst (api_create api d) \<noteq> MERCURYAPI_OK \<longrightarrow> fst (snd (api_create api d)) = None"
    and "\<forall>p. load_params ov = Inr p \<longrightarrow> 0 \<le> sint (p_loop_sleep_ms p)"
  shows "phase_ok p"
  using assms
proof (induction rule: reachable_phase.induct)
  case start
  then show ?case by simp
next
  case (step p q)
  show ?case
  proof (rule lifecycle_phase_ok [OF step.hyps(2)])
    show "phase_ok p" using step.IH step.prems by blast
  next
    fix d'
    assume "p = Booting d'"
    with step.hyps(1) have "d' = d" by (rule reachable_booting)
    with step.prems(1)
    show "fst (api_create api d') \<noteq> MERCURYAPI_OK \<longrightarrow> fst (snd (api_create api d')) = None"
      by simp
  next
    show "\<forall>p. load_params ov = Inr p \<longrightarrow> 0 \<le> sint (p_loop_sleep_ms p)"
      using step.prems(2) .
  qed
qed

lemma spin_reachable:
  assumes "reachable_phase api ov d (Running s)"
  shows "(case spin api n s of
            Inl (e, s') \<Rightarrow> e = UndefinedBehaviour \<or>
              reachable_phase api ov d
                (Exited (trace (rfid_node_dtor api s') @ [EvStderr (fatal_line e), EvRclShutdown]))
          | Inr s' \<Rightarrow> reachable_phase api ov d (Running s'))"
  using assms
proof (induction n arbitrary: s)
  case 0
  then show ?case by simp
next
  case (Suc n)
  show ?case
  proof (cases "on_timer api s")
    case (Inl es)
    then obtain e s' where t: "on_timer api s = Inl (e, s')" by (cases es) auto
    show ?thesis
    proof (cases "e = UndefinedBehaviour")
      case True
      with t show ?thesis by simp
    next
      case False
      with t Suc.prems show ?thesis by (auto intro: reachable_phase.step lifecycle.tick_fail)
    qed
  next
    case (Inr s1)
    then have "reachable_phase api ov d (Running s1)"
      using Suc.prems by (auto intro: reachable_phase.step lifecycle.tick)
    with Inr Suc.IH [of s1] show ?thesis by simp
  qed
qed

text \<open>C22: the process \<open>main\<close> refines the lifecycle: every outcome of
  \<open>rfid_main\<close>, for any number of timer firings, is an exit phase reachable
  by the lifecycle relation, with exit status 0.\<close>

theorem rfid_main_refines_lifecycle:
  assumes "rfid_main api ov d n = Some (c, tr)"
  shows "c = 0 \<and> reachable_phase api ov d (Exited tr)"
proof (cases "rfid_node_ctor api ov (node_init d [EvRclInit])")
  case (Inl es)
  then obtain e s where ctor: "rfid_node_ctor api ov (node_init d [EvRclInit]) = Inl (e, s)"
    by (cases es) auto
  with assms have "e \<noteq> UndefinedBehaviour" and "c = 0"
    and "tr = trace s @ [EvStderr (fatal_line e), EvRclShutdown]"
    by (auto simp: rfid_main_def split: if_splits)
  with ctor show ?thesis
    by (auto intro: reachable_phase.step [OF reachable_phase.start] lifecycle.construct_fail)
next
  case (Inr s)
  then have run: "reachable_phase api ov d (Running s)"
    by (auto intro: reachable_phase.step [OF reachable_phase.start] lifecycle.construct)
  show ?thesis
  proof (cases "spin api n s")
    case (Inl es)
    then obtain e s' where sp: "spin api n s = Inl (e, s')" by (cases es) auto
    with assms Inr have "e \<noteq> UndefinedBehaviour" and "c = 0"
      and "tr = trace (rfid_node_dtor api s') @ [EvStderr (fatal_line e), EvRclShutdown]"
      by (auto simp: rfid_main_def split: if_splits)
    with spin_reachable [OF run, of n] sp show ?thesis by simp
  next
    case (Inr s')
    with assms \<open>rfid_node_ctor api ov (node_init d [EvRclInit]) = Inr s\<close>
    have "c = 0" and "tr = trace (rfid_node_dtor api s') @ [EvRclShutdown]"
      by (auto simp: rfid_main_def)
    moreover have "reachable_phase api ov d (Running s')"
      using spin_reachable [OF run, of n] Inr by simp
    ultimately show ?thesis
      by (auto intro: reachable_phase.step lifecycle.interrupt)
  qed
qed

lemma reachable_running_cfg:
  assumes "reachable_phase api ov d q" and "q = Running s"
  shows "\<exists>p h. load_params ov = Inr p \<and> reader s = Some h \<and>
           max_tags s = p_max_tags p \<and> epc_buf_size s = p_epc_buf_size p"
  using assms
proof (induction arbitrary: s rule: reachable_phase.induct)
  case start
  then show ?case by simp
next
  case (step p q)
  from step.hyps(2) step.prems show ?case
  proof (cases rule: lifecycle.cases)
    case (construct d' s')
    then have "rfid_node_ctor api ov (node_init d' [EvRclInit]) = Inr s" using step.prems by simp
    from rfid_node_ctor_Inr [OF this] show ?thesis by blast
  next
    case (tick s0 s')
    then have "on_timer api s0 = Inr s" using step.prems by simp
    then have "node_cfg s = node_cfg s0" using on_timer_Inr [of api s0 s] by blast
    with tick step.IH [of s0] show ?thesis by (auto simp: node_cfg_def)
  qed auto
qed

text \<open>C35: progress of the lifecycle.  Under the driver's read contract and a
  configuration with non-negative slots of positive size, every running
  phase reachable from the start can take a timer firing and stay running:
  the only ways out of the running state are the interrupt and the errors the
  contract or the configuration exclude.\<close>

theorem lifecycle_progress:
  assumes "reachable_phase api ov d (Running s)" and "read_contract api"
    and "\<forall>p. load_params ov = Inr p \<longrightarrow> 0 \<le> sint (p_max_tags p) \<and> 0 < sint (p_epc_buf_size p)"
  shows "\<exists>s'. lifecycle api ov (Running s) (Running s')"
proof -
  obtain p h where p: "load_params ov = Inr p" and r: "reader s = Some h"
    and m: "max_tags s = p_max_tags p" and e: "epc_buf_size s = p_epc_buf_size p"
    using reachable_running_cfg [OF assms(1) refl] by blast
  have m0: "0 \<le> sint (max_tags s)" and e0: "0 < sint (epc_buf_size s)"
    using assms(3) p m e by auto
  have "0 \<le> sint (epc_buf_size s)" using e0 by simp
  from scan_ants_total [OF m0 this contract_reads_terminated [OF assms(2) m0 e0], where as = "ants s"]
  obtain s' where "on_timer api s = Inr s'" using r by (auto simp: on_timer_def)
  then show ?thesis by (blast intro: lifecycle.tick)
qed

end
