(* ===== verification/Spec2Isabelle.thy ===== *)
theory Spec2Isabelle
  imports SimRuns Lifecycle
begin

text \<open>
  \<^bold>\<open>A verification development for the RFID reader node
  (\<open>src/ros2_ws/src/rfid_tmreader_node/src/rfid_tmreader_node.cpp\<close>).\<close>

  \<^bold>\<open>The program.\<close>  One C++ file: the ROS 2 node \<open>RfidTmreaderNode\<close> and
  \<open>main\<close>.  The constructor declares five parameters, creates the publisher
  on \<open>rfid/tags\<close>, opens one MercuryAPI reader (create, connect, region KR2,
  read plan over antennas 1 and 2, each failure unwinding what was acquired
  and throwing) and starts a wall timer.  The timer callback \<open>OnTimer\<close>
  scans each antenna in order: read plan restricted to that antenna, a read
  into freshly allocated buffers, and, for a successful read with a positive
  count, one message \<open>ant=<a> count=<k> <epc_1> ... <epc_k>\<close>.  The
  destructor disconnects and destroys the reader.  \<open>main\<close> spins the node,
  reports any exception on standard error and exits with status 0.

  \<^bold>\<open>Theories.\<close>
  \<^item> \<open>Prelude\<close>: \<open>int\<close> as \<open>32 word\<close>, \<open>int64_t\<close> as \<open>64 word\<close>; the
    exceptions as a datatype and the sequencing of throwing steps (\<open>sbind\<close>,
    \<open>tbind\<close>, where a throw carries the object's state at the throw);
    \<open>std::to_string\<close> (\<open>std_to_string\<close>), reading a \<open>char*\<close>
    (\<open>c_string\<close>); and, for round trips, decimal parsing and splitting at
    spaces.
  \<^item> \<open>Mercury\<close>: the driver interface as a record of operations over an
    abstract driver state, so that every theorem about the node holds for
    every driver; the observable event trace (every driver call with its
    result, every publication, log and stderr line); the resource accounting
    over a trace (handles allocated and connected) and \<open>leak_free\<close>.
  \<^item> \<open>Params\<close>: parameter declaration with overrides (lines 23-33),
    \<open>load_params\<close>, and the narrowing of 64-bit parameters into \<open>int\<close>.
  \<^item> \<open>ReaderSession\<close>: the object's members as the record \<open>node\<close>, one
    wrapper per driver call, the startup protocol \<open>open_reader\<close> (lines
    37-64), the constructor \<open>rfid_node_ctor\<close> (20-71), the destructor
    \<open>rfid_node_dtor\<close> (73-80), the invariant \<open>session_ready\<close>.
  \<^item> \<open>ScanLoop\<close>: \<open>scan_antenna\<close> (the body of the loop of lines 85-113),
    \<open>scan_ants\<close>, \<open>on_timer\<close>, the message loop \<open>append_epcs\<close> over the
    strings \<open>ptrs\<close> points to (\<open>max_tags_\<close> entries: the first \<open>max_tags_\<close>
    rows the driver left), its reference reading \<open>epcs_of\<close>, the
    specification's message format \<open>fmt_msg\<close> (spelled out, independent of
    the code's \<open>msg_header\<close>), the consumer's \<open>parse_msg\<close>, the antenna-scoping
    predicate \<open>scoped\<close> on traces, and \<open>reads_terminated\<close>, what a tick needs
    of the driver's read.
  \<^item> \<open>Node\<close>: \<open>spin\<close> (a given number of timer firings before the process
    is interrupted) and \<open>rfid_main\<close> (lines 129-139).
  \<^item> \<open>Lifecycle\<close>: the process as an inductive step relation over phases
    (\<open>Booting\<close>, \<open>Running\<close>, \<open>Exited\<close>) with one rule per way the program
    moves (construction succeeds or throws, a tick completes or throws, an
    interrupt), its reachable phases, the phase invariant by rule induction,
    the refinement of \<open>rfid_main\<close> into the relation, and its progress
    under the read contract.
  \<^item> \<open>Contract\<close>: the driver's read contract (specification section
    4.1: the driver writes only inside the buffers it is given and reports at
    most \<open>maxTags\<close> tags, each terminated when its buffer has room), and
    what the node gets from it: no undefined behaviour, progress of the
    running node, return of \<open>main\<close>; and the \<open>epc_buf_size = 0\<close> case,
    where no buffer has room and the first tag read runs past a buffer.
  \<^item> \<open>TickSpec\<close>: the specification's per-tick algorithm (section 4.2)
    as an abstract program \<open>tick_spec\<close> over an abstract reader (plan
    accepted or not; read failed or a list of EPCs), the reading of a driver
    as such a reader (\<open>abs_plan\<close>, \<open>abs_read\<close>: the plan call of line 86,
    the read of lines 99-103 with its test), and the refinement of
    \<open>on_timer\<close> into it.
  \<^item> \<open>Timing\<close>: the timeouts a tick passes to its read calls, their sum
    (the worst-case blocking time of section 5) and the number of read plans
    the driver accepted.
  \<^item> \<open>Handles\<close>: the handle discipline of a trace (\<open>handle_safe\<close>: no
    call before \<open>create\<close>, every call on the live handle, none after
    \<open>destroy\<close>, no second \<open>destroy\<close>), the invariant that \<open>reader_\<close> is the
    live handle, kept by the constructor, the ticks and the destructor.
  \<^item> \<open>SimReader\<close>: a reference driver built from the specification's driver
    contract (section 4.1), executable, with fault injection, proved to keep
    the read contract; the witnesses of the theorems with hypotheses are
    evaluated on it (\<open>SimRuns\<close> holds those of the last three theories).
  \<^item> this theory: this documentation and the witnesses of the lifecycle
    theorems, which run the constructor and \<open>main\<close> on the reference
    driver.

  \<^bold>\<open>What is proved.\<close>  The scan loop: the exact actions of an antenna step
  on every branch (publish exactly one well-formed message with exactly
  \<open>k\<close> EPCs; silence on a failed or empty read; skip on a rejected plan), the
  message loop equivalent to its reference, the message round trip, failure
  isolation (a tick completes whatever the driver answers, every antenna is
  attempted in order, every read and message is scoped to a single-antenna
  plan), the preservation of the session invariant, the refinement of a
  tick into the specification's per-tick algorithm and, over it, the
  isolation of the antennas (a driver's answers for one antenna have no
  effect on the messages of another).  The reader
  session: the exact startup trace, the invariant after construction, the
  characterisation of leak freedom on constructor failure, the destructor's
  release and idempotence.  The process: exit status 0 on fatal errors,
  leak freedom of whole runs, the lifecycle invariant over all reachable
  phases and the refinement of \<open>main\<close> into the lifecycle relation;
  under the read contract, progress of the running node and return of
  \<open>main\<close> for every number of timer firings.  The parameters: the value each
  one takes (its override or the source's default), narrowing, the typing
  of overrides and the error for the first ill-typed one.  Timing: at most
  one read per antenna per tick, exactly one per accepted plan, each with
  the configured timeout, so the bound \<open>N * timeout_ms\<close> is reached.  Under the contract every published message names a
  configured antenna and carries between 1 and \<open>max_tags\<close> EPCs; every run
  keeps the handle discipline.

  \<^bold>\<open>What modelling showed.\<close>  A negative \<open>loop_sleep_ms\<close> makes the timer
  factory throw after the reader is configured, and the handle leaks (no
  destructor runs for a throwing constructor); negative or wrapped
  \<open>max_tags\<close>/\<open>epc_buf_size\<close> make every tick throw
  \<open>std::length_error\<close> out of the callback, ending the process; an
  \<open>epc_buf_size\<close> of 0 makes the first tag read run past a buffer; a count
  larger than \<open>max_tags_\<close> is read past the \<open>ptrs\<close> vector; \<open>create\<close> returning an
  error with a handle leaks it; \<open>main\<close> exits 0 on fatal errors; the
  default configuration (two antennas, 200 ms timeout, 100 ms period)
  breaks the specification's timing discipline.

  \<^bold>\<open>Bounds and fuel.\<close>  The only unbounded loop is the ROS executor: \<open>spin\<close>
  takes the number of timer firings, every theorem about it holds for every
  number, and progress and return are proved for every number.  The inner
  loops are structural or have a measure (\<open>append_epcs\<close>: \<open>n - i\<close>).
  Integers are kept at their C++ width (\<open>sint\<close> reads a counter).  The
  reference driver's witnesses use two slots of eight bytes, which exercises
  every branch of the scan loop at a fraction of the default 64 x 256.

  \<^bold>\<open>Plan.\<close>  Built in the order of importance: the scan loop (the
  core), the reader session, the process and its lifecycle, the
  parameters, then the driver contract, the tick specification and its
  refinement, timing and parameter typing.  Then the message
  bounds over the tick specification, the handle discipline and the
  progress of the lifecycle.  The loop proofs share six
  induction principles: \<open>scan_ants_outcome_induct\<close> and
  \<open>spin_outcome_induct\<close> for relations between the state before and after
  the antenna loop and the timer firings, \<open>scan_ants_error_induct\<close> and
  \<open>spin_error_induct\<close> for the exceptions they can end with,
  \<open>scan_ants_Inr_induct\<close> for what a completed loop did, antenna by
  antenna, and \<open>scan_ants_exists_induct\<close> for a loop that is shown to
  complete.  Every part of the source with behaviour is modelled; what is
  left out is listed below with the reason.

  \<^bold>\<open>Not modelled.\<close>  rclcpp itself (executor, publisher queue, logging
  back end, timer timing): the node only calls it, and what the node relies
  on is kept as events of the trace (publisher and timer creation, each
  publication and log line) and as the number of timer firings of
  \<open>spin\<close>; the wall-clock time between firings is not observable in the
  source.  Memory exhaustion in the buffer allocation (\<open>std::bad_alloc\<close>),
  the MercuryAPI driver's internals (not in the repository: its contract is
  the interface, \<open>read_contract\<close> and the reference driver), and the
  contents of rclcpp's exception messages beyond their fixed prefix.  The
  unmapped lines of the source are the includes, the class head and access
  labels, which carry no behaviour.
\<close>

subsection \<open>Witnesses for the lifecycle\<close>

lemma ctor_started_rclinit:
  "rfid_node_ctor sim_api small_ov (node_init field12 [EvRclInit]) =
     Inr (started\<lparr>trace := EvRclInit # trace started\<rparr>)"
  by (simp add: run_simps small_ov_def started_def field12_def)

theorem reachable_phase_invariant_witness:
  "phase_ok (Running (started\<lparr>trace := EvRclInit # trace started\<rparr>) :: sim phase)"
proof -
  have r: "reachable_phase sim_api small_ov field12 (Running (started\<lparr>trace := EvRclInit # trace started\<rparr>))"
    by (rule reachable_phase.step [OF reachable_phase.start lifecycle.construct [OF ctor_started_rclinit]])
  have cr: "fst (api_create sim_api field12) \<noteq> MERCURYAPI_OK \<longrightarrow>
            fst (snd (api_create sim_api field12)) = None"
    using field12_create by simp
  have ls: "\<forall>p. load_params small_ov = Inr p \<longrightarrow> 0 \<le> sint (p_loop_sleep_ms p)"
    by (simp add: small_ov_def load_params_def declare_int_def declare_string_def narrow_int_def)
  show ?thesis by (rule reachable_phase_invariant [OF r cr ls])
qed

theorem rfid_main_refines_lifecycle_witness:
  "\<exists>tr. rfid_main sim_api small_ov field12 (Suc 0) = Some (0, tr) \<and>
        reachable_phase sim_api small_ov field12 (Exited tr)"
proof -
  have "\<exists>c tr. rfid_main sim_api small_ov field12 (Suc 0) = Some (c, tr)"
    by (simp add: run_simps small_ov_def field12_def)
  then obtain c tr where m: "rfid_main sim_api small_ov field12 (Suc 0) = Some (c, tr)"
    by blast
  from rfid_main_refines_lifecycle [OF m] m show ?thesis by blast
qed

theorem lifecycle_progress_witness:
  "\<exists>s'. lifecycle sim_api small_ov (Running (started\<lparr>trace := EvRclInit # trace started\<rparr>)) (Running s')"
proof -
  have r: "reachable_phase sim_api small_ov field12 (Running (started\<lparr>trace := EvRclInit # trace started\<rparr>))"
    by (rule reachable_phase.step [OF reachable_phase.start lifecycle.construct [OF ctor_started_rclinit]])
  have "\<forall>p. load_params small_ov = Inr p \<longrightarrow> 0 \<le> sint (p_max_tags p) \<and> 0 < sint (p_epc_buf_size p)"
    by (simp add: small_ov_def load_params_def declare_int_def declare_string_def narrow_int_def)
  from lifecycle_progress [OF r sim_read_contract this] show ?thesis .
qed

end
